(* ===== verification/Prelude.thy ===== *)
theory Prelude
  imports Main "HOL-Library.Multiset" "HOL-Library.AList" "HOL-Library.List_Lexorder" "HOL-Library.Product_Lexorder"
begin

text \<open>
  Shared vocabulary of the development: Python's byte strings, text strings and
  dictionaries, exceptions as values, the codec interface, and the generic lemmas
  that the component theories use.

  \<^item> A \<open>bytes\<close> object is a list of \<^typ>\<open>char\<close>: a HOL character is exactly one
    octet, so \<open>b"SEND"\<close> is \<open>''SEND''\<close>.
  \<^item> A \<open>str\<close> object is a list of code points (\<^typ>\<open>nat\<close>). \<open>lit\<close> turns a HOL
    literal into such a string, so \<open>"host"\<close> is \<open>lit ''host''\<close>.
  \<^item> A \<open>dict\<close> is an association list with distinct keys in insertion order;
    \<^const>\<open>AList.update\<close> overwrites in place or appends, as Python does.
  \<^item> A raised exception is the left injection of a sum.
\<close>

section \<open>Python's data\<close>

type_synonym byte = char
type_synonym bytes = "char list"
type_synonym pystr = "nat list"
type_synonym ('k, 'v) dict = "('k \<times> 'v) list"
type_synonym headers = "(pystr, pystr) dict"

definition lit :: "string \<Rightarrow> pystr" where
  "lit s = map of_char s"

text \<open>The exceptions the modelled code raises, lets through or catches.\<close>

datatype py_exn =
    UnicodeEncodeError
  | UnicodeDecodeError
  | ValueError string
  | KeyError pystr
  | IndexError
  | AttributeError
  | TypeError
  | AssertionError string
  | RuntimeError string
  | OSError
  | ConnectionError
  | GaiError
  | TimeoutError
  | WebSocketException
  | CancelledError
  | NotImplementedError
  | SystemExit int
  | UserException nat

text \<open>Collections of rewrite rules: dictionary laws, codec laws.\<close>

named_theorems dict_laws "laws of Python dictionaries"
named_theorems codec_laws "encode/decode laws"

section \<open>Dictionaries\<close>

abbreviation dict_wf :: "('k, 'v) dict \<Rightarrow> bool" where
  "dict_wf d \<equiv> distinct (map fst d)"

text \<open>\<open>d.update(e)\<close> and \<open>d | e\<close>: the items of the right operand are stored in order.\<close>

definition dict_update :: "('k, 'v) dict \<Rightarrow> ('k, 'v) dict \<Rightarrow> ('k, 'v) dict" where
  "dict_update d e = fold (\<lambda>(k, v) acc. AList.update k v acc) e d"

lemma dict_update_Nil [simp]: "dict_update d [] = d"
  by (simp add: dict_update_def)

lemma dict_update_Cons [simp]:
  "dict_update d ((k, v) # e) = dict_update (AList.update k v d) e"
  by (simp add: dict_update_def)

lemma dict_wf_update [dict_laws]: "dict_wf d \<Longrightarrow> dict_wf (AList.update k v d)"
  by (rule distinct_update)

lemma dict_wf_dict_update [dict_laws]: "dict_wf d \<Longrightarrow> dict_wf (dict_update d e)"
  by (induction e arbitrary: d) (auto simp: distinct_update)

lemma map_of_update [dict_laws]: "map_of (AList.update k v d) = (map_of d)(k \<mapsto> v)"
  by (rule update_conv')

lemma dict_get_update [dict_laws]:
  "map_of (AList.update k v d) k' = (if k' = k then Some v else map_of d k')"
  by (simp add: update_conv')

lemma map_of_dict_update [dict_laws]:
  "map_of (dict_update d e) = fold (\<lambda>(k, v) m. m(k \<mapsto> v)) e (map_of d)"
  by (induction e arbitrary: d) (auto simp: update_conv')

lemma dict_append_new:
  "k \<notin> fst ` set d \<Longrightarrow> AList.update k v d = d @ [(k, v)]"
  by (induction d) auto

lemma dict_wf_sort:
  fixes d :: "('k::linorder, 'v::linorder) dict"
  assumes "dict_wf d"
  shows "dict_wf (sort d)"
proof -
  have "mset (map fst (sort d)) = mset (map fst d)"
    by simp
  with assms show ?thesis by (metis mset_eq_imp_distinct_iff)
qed

lemma map_of_sort:
  fixes d :: "('k::linorder, 'v::linorder) dict"
  assumes "dict_wf d"
  shows "map_of (sort d) = map_of d"
proof (rule map_of_inject_set [THEN iffD2])
  show "distinct (map fst (sort d))"
    using assms by (rule dict_wf_sort)
qed (use assms in auto)

lemma fst_image_dom: "k \<in> fst ` set d \<longleftrightarrow> map_of d k \<noteq> None"
  by (metis map_of_eq_None_iff)

lemma lit_inject [simp]: "lit s = lit t \<longleftrightarrow> s = t"
  by (auto simp: lit_def inj_on_def intro: map_injective)

section \<open>The codec interface\<close>

text \<open>
  An encoder that may fail, its decoder, and the values on which the pair is a
  round trip. The header escaping, UTF-8, decimal integers and the heart-beat header are
  instances; injectivity of each encoder then comes from one lemma.
\<close>

locale partial_codec =
  fixes ok :: "'a \<Rightarrow> bool"
    and enc :: "'a \<Rightarrow> 'b option"
    and dec :: "'b \<Rightarrow> 'a option"
  assumes enc_total: "ok x \<Longrightarrow> \<exists>y. enc x = Some y"
    and dec_enc: "ok x \<Longrightarrow> enc x = Some y \<Longrightarrow> dec y = Some x"
begin

lemma enc_inj: "ok x \<Longrightarrow> ok x' \<Longrightarrow> enc x = enc x' \<Longrightarrow> x = x'"
  by (metis dec_enc enc_total option.inject)

lemma dec_the_enc: "ok x \<Longrightarrow> dec (the (enc x)) = Some x"
  using dec_enc enc_total by fastforce

end

text \<open>A codec whose accepted values are exactly those it encodes, and canonical: a
  decoded value encodes back to the input.\<close>

locale canonical_codec = partial_codec +
  assumes dec_ok: "dec y = Some x \<Longrightarrow> ok x"
    and enc_dec: "dec y = Some x \<Longrightarrow> enc x = Some y"
begin

lemma dec_iff: "dec y = Some x \<longleftrightarrow> ok x \<and> enc x = Some y"
  using dec_enc dec_ok enc_dec by blast

lemma dec_inj: "dec y = Some x \<Longrightarrow> dec y' = Some x \<Longrightarrow> y = y'"
  by (metis enc_dec option.inject)

end

section \<open>Feeding a state machine\<close>

text \<open>
  A generator over an input: each element is one step from a state, which yields outputs
  and either goes on in a new state or raises. What was yielded before an exception has
  been delivered. \<open>feed\<close> runs a step function over a list; \<open>feed (feed step)\<close> runs it over
  a list of chunks.
\<close>

fun feed :: "('s \<Rightarrow> 'b \<Rightarrow> 'f list \<times> ('e + 's)) \<Rightarrow> 's \<Rightarrow> 'b list \<Rightarrow> 'f list \<times> ('e + 's)" where
  "feed step s [] = ([], Inr s)"
| "feed step s (b # bs) =
     (case step s b of
        (fs, Inl e) \<Rightarrow> (fs, Inl e)
      | (fs, Inr s') \<Rightarrow> (case feed step s' bs of (gs, r) \<Rightarrow> (fs @ gs, r)))"

lemma feed_append:
  "feed step s (xs @ ys) =
     (case feed step s xs of
        (fs, Inl e) \<Rightarrow> (fs, Inl e)
      | (fs, Inr s') \<Rightarrow> (case feed step s' ys of (gs, r) \<Rightarrow> (fs @ gs, r)))"
  by (induction xs arbitrary: s) (auto split: prod.splits sum.splits)

lemma feed_append_Inr [simp]:
  "feed step s xs = (fs, Inr s') \<Longrightarrow>
   feed step s (xs @ ys) = (case feed step s' ys of (gs, r) \<Rightarrow> (fs @ gs, r))"
  by (simp add: feed_append)

text \<open>How the input is cut into chunks makes no difference.\<close>

lemma feed_chunks: "feed (feed step) s chunks = feed step s (concat chunks)"
  by (induction chunks arbitrary: s) (auto simp: feed_append split: prod.splits sum.splits)

lemma feed_invariant:
  assumes "\<And>s b fs s'. step s b = (fs, Inr s') \<Longrightarrow> I s \<Longrightarrow> I s'"
    and "I s" and "feed step s bs = (fs, Inr s')"
  shows "I s'"
  using assms(2,3)
proof (induction bs arbitrary: s fs)
  case (Cons b bs)
  then obtain gs s1 hs where "step s b = (gs, Inr s1)" "feed step s1 bs = (hs, Inr s')"
    by (auto split: prod.splits sum.splits)
  with Cons assms(1) show ?case by blast
qed simp

text \<open>The interface of a step function that never raises from its invariant.\<close>

locale total_stepper =
  fixes step :: "'s \<Rightarrow> 'b \<Rightarrow> 'f list \<times> ('e + 's)"
    and inv :: "'s \<Rightarrow> bool"
  assumes step_total: "inv s \<Longrightarrow> \<exists>fs s'. step s b = (fs, Inr s') \<and> inv s'"
begin

lemma feed_total: "inv s \<Longrightarrow> \<exists>fs s'. feed step s bs = (fs, Inr s') \<and> inv s'"
proof (induction bs arbitrary: s)
  case (Cons b bs)
  from step_total [OF Cons.prems] obtain fs s' where s': "step s b = (fs, Inr s')" "inv s'"
    by blast
  from Cons.IH [OF s'(2)] obtain gs s'' where "feed step s' bs = (gs, Inr s'')" "inv s''"
    by blast
  with s' show ?case by simp
qed simp

lemma feed_no_exception: "inv s \<Longrightarrow> snd (feed step s bs) \<noteq> Inl e"
  using feed_total [of s bs] by auto

end

end
