(* ===== verification/Py_Text.thy ===== *)
theory Py_Text
  imports Prelude
begin

text \<open>
  The text operations of Python's standard library that the source relies on:
  \<open>str.encode()\<close> and \<open>bytes.decode()\<close> (UTF-8), \<open>str(int)\<close> and \<open>int(str)\<close>,
  \<open>str.split(sep, maxsplit=1)\<close> and \<open>urllib.parse.unquote\<close>.
  UTF-8 is shown to be a canonical codec on the encodable strings, decimal
  integers a codec on the integers within the interpreter's digit limit.
\<close>

section \<open>UTF-8\<close>

definition surrogate :: "nat \<Rightarrow> bool" where
  "surrogate c \<longleftrightarrow> 0xD800 \<le> c \<and> c \<le> 0xDFFF"

definition encodable_char :: "nat \<Rightarrow> bool" where
  "encodable_char c \<longleftrightarrow> c < 0x110000 \<and> \<not> surrogate c"

definition encodable :: "pystr \<Rightarrow> bool" where
  "encodable s \<longleftrightarrow> list_all encodable_char s"

definition utf8_char :: "nat \<Rightarrow> nat list" where
  "utf8_char c =
     (if c < 0x80 then [c]
      else if c < 0x800 then [0xC0 + c div 0x40, 0x80 + c mod 0x40]
      else if c < 0x10000 then
        [0xE0 + c div 0x1000, 0x80 + c div 0x40 mod 0x40, 0x80 + c mod 0x40]
      else
        [0xF0 + c div 0x40000, 0x80 + c div 0x1000 mod 0x40, 0x80 + c div 0x40 mod 0x40,
         0x80 + c mod 0x40])"

text \<open>\<open>s.encode()\<close>: \<open>None\<close> is the \<open>UnicodeEncodeError\<close> of a lone surrogate.\<close>

definition encode :: "pystr \<Rightarrow> bytes option" where
  "encode s = (if encodable s then Some (map char_of (concat (map utf8_char s))) else None)"

text \<open>
  One step of the decoder on the octets that remain: a well-formed sequence with its
  code point and what follows it, or an ill-formed one with what follows its maximal
  subpart (the octets that the \<open>replace\<close> error handler turns into one U+FFFD).
\<close>

datatype utf8_item = Valid nat "nat list" | Invalid "nat list"

definition cont :: "nat \<Rightarrow> bool" where
  "cont b \<longleftrightarrow> 0x80 \<le> b \<and> b \<le> 0xBF"

fun utf8_next2 :: "nat \<Rightarrow> nat list \<Rightarrow> utf8_item" where
  "utf8_next2 b0 (b1 # r) =
     (if cont b1 then Valid ((b0 - 0xC0) * 0x40 + (b1 - 0x80)) r else Invalid (b1 # r))"
| "utf8_next2 b0 [] = Invalid []"

fun utf8_next3 :: "nat \<Rightarrow> nat list \<Rightarrow> utf8_item" where
  "utf8_next3 b0 (b1 # b2 # r) =
     (if \<not> ((if b0 = 0xE0 then 0xA0 else 0x80) \<le> b1 \<and> b1 \<le> (if b0 = 0xED then 0x9F else 0xBF))
      then Invalid (b1 # b2 # r)
      else if cont b2
      then Valid ((b0 - 0xE0) * 0x1000 + (b1 - 0x80) * 0x40 + (b2 - 0x80)) r
      else Invalid (b2 # r))"
| "utf8_next3 b0 [b1] =
     (if (if b0 = 0xE0 then 0xA0 else 0x80) \<le> b1 \<and> b1 \<le> (if b0 = 0xED then 0x9F else 0xBF)
      then Invalid [] else Invalid [b1])"
| "utf8_next3 b0 [] = Invalid []"

fun utf8_next4 :: "nat \<Rightarrow> nat list \<Rightarrow> utf8_item" where
  "utf8_next4 b0 (b1 # r1) =
     (if \<not> ((if b0 = 0xF0 then 0x90 else 0x80) \<le> b1 \<and> b1 \<le> (if b0 = 0xF4 then 0x8F else 0xBF))
      then Invalid (b1 # r1)
      else (case r1 of
          [] \<Rightarrow> Invalid []
        | b2 # r2 \<Rightarrow>
            if \<not> cont b2 then Invalid (b2 # r2)
            else (case r2 of
                [] \<Rightarrow> Invalid []
              | b3 # r3 \<Rightarrow>
                  if \<not> cont b3 then Invalid (b3 # r3)
                  else Valid ((b0 - 0xF0) * 0x40000 + (b1 - 0x80) * 0x1000
                              + (b2 - 0x80) * 0x40 + (b3 - 0x80)) r3)))"
| "utf8_next4 b0 [] = Invalid []"

definition utf8_next :: "nat \<Rightarrow> nat list \<Rightarrow> utf8_item" where
  "utf8_next b0 r =
     (if b0 < 0x80 then Valid b0 r
      else if b0 < 0xC2 then Invalid r
      else if b0 < 0xE0 then utf8_next2 b0 r
      else if b0 < 0xF0 then utf8_next3 b0 r
      else if b0 < 0xF5 then utf8_next4 b0 r
      else Invalid r)"

lemma utf8_next2_length:
  "utf8_next2 b r = Valid c r' \<Longrightarrow> length r' \<le> length r"
  "utf8_next2 b r = Invalid r' \<Longrightarrow> length r' \<le> length r"
  by (cases r; auto split: if_splits)+

lemma utf8_next3_length:
  "utf8_next3 b r = Valid c r' \<Longrightarrow> length r' \<le> length r"
  "utf8_next3 b r = Invalid r' \<Longrightarrow> length r' \<le> length r"
  by (cases "(b, r)" rule: utf8_next3.cases; auto split: if_splits)+

lemma utf8_next4_length:
  "utf8_next4 b r = Valid c r' \<Longrightarrow> length r' \<le> length r"
  "utf8_next4 b r = Invalid r' \<Longrightarrow> length r' \<le> length r"
  by (cases "(b, r)" rule: utf8_next4.cases; auto split: if_splits list.splits)+

lemma utf8_next_length [termination_simp]:
  "utf8_next b r = Valid c r' \<Longrightarrow> length r' < Suc (length r)"
  "utf8_next b r = Invalid r' \<Longrightarrow> length r' < Suc (length r)"
  by (auto simp: utf8_next_def less_Suc_eq_le split: if_splits
      dest: utf8_next2_length utf8_next3_length utf8_next4_length)

fun utf8_decode :: "nat list \<Rightarrow> nat list option" where
  "utf8_decode [] = Some []"
| "utf8_decode (b # r) =
     (case utf8_next b r of
        Valid c r' \<Rightarrow> map_option ((#) c) (utf8_decode r')
      | Invalid _ \<Rightarrow> None)"

fun utf8_decode_replace :: "nat list \<Rightarrow> nat list" where
  "utf8_decode_replace [] = []"
| "utf8_decode_replace (b # r) =
     (case utf8_next b r of
        Valid c r' \<Rightarrow> c # utf8_decode_replace r'
      | Invalid r' \<Rightarrow> 0xFFFD # utf8_decode_replace r')"

text \<open>\<open>b.decode()\<close>: \<open>None\<close> is \<open>UnicodeDecodeError\<close>; and \<open>b.decode(errors="replace")\<close>.\<close>

definition decode :: "bytes \<Rightarrow> pystr option" where
  "decode b = utf8_decode (map of_char b)"

definition decode_replace :: "bytes \<Rightarrow> pystr" where
  "decode_replace b = utf8_decode_replace (map of_char b)"

section \<open>Integers and their decimal text\<close>

fun str_nat :: "nat \<Rightarrow> pystr" where
  "str_nat n = (if n < 10 then [0x30 + n] else str_nat (n div 10) @ [0x30 + n mod 10])"

declare str_nat.simps [simp del]

text \<open>\<open>str(i)\<close>: Python 3.11 refuses integers of more than 4300 digits.\<close>

definition max_str_digits :: nat where
  "max_str_digits = 4300"

definition str_int :: "int \<Rightarrow> py_exn + pystr" where
  "str_int i =
     (let ds = str_nat (nat \<bar>i\<bar>) in
      if max_str_digits < length ds
      then Inl (ValueError ''Exceeds the limit for integer string conversion'')
      else Inr (if i < 0 then 0x2D # ds else ds))"

text \<open>The integers that \<open>str\<close> accepts.\<close>

definition printable_int :: "int \<Rightarrow> bool" where
  "printable_int i \<longleftrightarrow> nat \<bar>i\<bar> < 10 ^ max_str_digits"

text \<open>The zero digits of the decimal scripts of Unicode 14 (category Nd, in Python 3.11).\<close>

definition decimal_zeros :: "nat list" where
  "decimal_zeros =
    [
     0x30, 0x660, 0x6F0, 0x7C0, 0x966, 0x9E6, 0xA66, 0xAE6, 0xB66,
     0xBE6, 0xC66, 0xCE6, 0xD66, 0xDE6, 0xE50, 0xED0, 0xF20, 0x1040,
     0x1090, 0x17E0, 0x1810, 0x1946, 0x19D0, 0x1A80, 0x1A90, 0x1B50, 0x1BB0,
     0x1C40, 0x1C50, 0xA620, 0xA8D0, 0xA900, 0xA9D0, 0xA9F0, 0xAA50, 0xABF0,
     0xFF10, 0x104A0, 0x10D30, 0x11066, 0x110F0, 0x11136, 0x111D0, 0x112F0, 0x11450,
     0x114D0, 0x11650, 0x116C0, 0x11730, 0x118E0, 0x11950, 0x11C50, 0x11D50, 0x11DA0,
     0x16A60, 0x16AC0, 0x16B50, 0x1D7CE, 0x1D7D8, 0x1D7E2, 0x1D7EC, 0x1D7F6, 0x1E140,
     0x1E2F0, 0x1E950, 0x1FBF0]"

definition digit_value :: "nat \<Rightarrow> nat option" where
  "digit_value c =
     map_option (\<lambda>z. c - z) (find (\<lambda>z. z \<le> c \<and> c < z + 10) decimal_zeros)"

text \<open>Evaluation decides the ASCII digits without walking the table.\<close>

lemma digit_value_code [code]:
  "digit_value c =
     (if c < 0x660 then (if 0x30 \<le> c \<and> c < 0x3A then Some (c - 0x30) else None)
      else map_option (\<lambda>z. c - z) (find (\<lambda>z. z \<le> c \<and> c < z + 10) decimal_zeros))"
  by (simp add: digit_value_def decimal_zeros_def)

text \<open>Blanks that \<open>int()\<close> strips.\<close>

definition int_space :: "nat \<Rightarrow> bool" where
  "int_space c \<longleftrightarrow> (0x09 \<le> c \<and> c \<le> 0x0D) \<or> (0x2000 \<le> c \<and> c \<le> 0x200A) \<or>
     c \<in> set [0x20, 0x85, 0xA0, 0x1680, 0x2028, 0x2029, 0x202F, 0x205F, 0x3000]"

definition int_strip :: "pystr \<Rightarrow> pystr" where
  "int_strip s = rev (dropWhile int_space (rev (dropWhile int_space s)))"

text \<open>Digits, with single underscores between them.\<close>

fun int_digits :: "pystr \<Rightarrow> nat list option" where
  "int_digits [] = None"
| "int_digits [c] = map_option (\<lambda>d. [d]) (digit_value c)"
| "int_digits (c # c' # r) =
     (case digit_value c of
        None \<Rightarrow> None
      | Some d \<Rightarrow> map_option ((#) d) (if c' = 0x5F then int_digits r else int_digits (c' # r)))"

definition int_value :: "nat list \<Rightarrow> nat" where
  "int_value ds = foldl (\<lambda>a d. 10 * a + d) 0 ds"

definition int_unsigned :: "pystr \<Rightarrow> int option" where
  "int_unsigned s =
     (case int_digits s of
        None \<Rightarrow> None
      | Some ds \<Rightarrow> if max_str_digits < length ds then None else Some (int (int_value ds)))"

text \<open>\<open>int(s)\<close>: \<open>None\<close> is \<open>ValueError\<close>.\<close>

definition py_int :: "pystr \<Rightarrow> int option" where
  "py_int s =
     (case int_strip s of
        [] \<Rightarrow> None
      | c # r \<Rightarrow>
          if c = 0x2B then int_unsigned r
          else if c = 0x2D then map_option uminus (int_unsigned r)
          else int_unsigned (c # r))"

section \<open>Splitting and percent-decoding\<close>

text \<open>\<open>first, second = s.split(c, maxsplit=1)\<close>: \<open>None\<close> is the \<open>ValueError\<close> of too few parts.\<close>

fun split_once :: "nat \<Rightarrow> pystr \<Rightarrow> (pystr \<times> pystr) option" where
  "split_once c [] = None"
| "split_once c (x # xs) =
     (if x = c then Some ([], xs) else map_option (\<lambda>(a, b). (x # a, b)) (split_once c xs))"

definition hex_value :: "nat \<Rightarrow> nat option" where
  "hex_value c =
     (if 0x30 \<le> c \<and> c \<le> 0x39 then Some (c - 0x30)
      else if 0x41 \<le> c \<and> c \<le> 0x46 then Some (c - 0x41 + 10)
      else if 0x61 \<le> c \<and> c \<le> 0x66 then Some (c - 0x61 + 10)
      else None)"

text \<open>
  \<open>unquote_to_bytes\<close> on an ASCII run: a percent sign followed by two hexadecimal digits
  is one octet, any other percent sign stands for itself.
\<close>

fun unquote_to_bytes :: "nat list \<Rightarrow> nat list" where
  "unquote_to_bytes (c # h # l # r) =
     (if c = 0x25 then
        (case (hex_value h, hex_value l) of
           (Some a, Some b) \<Rightarrow> (16 * a + b) # unquote_to_bytes r
         | _ \<Rightarrow> c # unquote_to_bytes (h # l # r))
      else c # unquote_to_bytes (h # l # r))"
| "unquote_to_bytes r = r"

lemma length_dropWhile_less [termination_simp]:
  "P x \<Longrightarrow> length (dropWhile P (x # r)) < Suc (length r)"
  by (simp add: length_dropWhile_le less_Suc_eq_le)

text \<open>\<open>unquote(s)\<close>: each maximal ASCII run is percent-decoded and read as UTF-8 with
  replacement; the other code points are kept.\<close>

function unquote :: "pystr \<Rightarrow> pystr" where
  "unquote [] = []"
| "unquote (c # r) =
     (if c < 0x80 then
        utf8_decode_replace (unquote_to_bytes (takeWhile (\<lambda>x. x < 0x80) (c # r)))
          @ unquote (dropWhile (\<lambda>x. x < 0x80) (c # r))
      else c # unquote r)"
  by pat_completeness auto
termination
  by (relation "measure length") (auto simp: length_dropWhile_le less_Suc_eq_le)

section \<open>Round trips\<close>

subsection \<open>UTF-8 is a canonical codec\<close>

lemma base64_split2: obtains a d :: nat where "c = a * 0x40 + d" "d < 0x40" "c div 0x40 = a" "c mod 0x40 = d"
  using that [of "c div 0x40" "c mod 0x40"] by simp

lemma base64_split3: obtains a b d :: nat where "c = (a * 0x40 + b) * 0x40 + d" "b < 0x40" "d < 0x40" 
   "c div 0x1000 = a" "c div 0x40 mod 0x40 = b" "c mod 0x40 = d"
proof -
  obtain q d where q: "c = q * 0x40 + d" "d < 0x40" "c div 0x40 = q" "c mod 0x40 = d" by (rule base64_split2)
  obtain a b where a: "q = a * 0x40 + b" "b < 0x40" "q div 0x40 = a" "q mod 0x40 = b" by (rule base64_split2)
  have "c div 0x1000 = a" using div_mult2_eq [of c "0x40" "0x40"] q a by simp
  with q a show ?thesis by (intro that [of a b d]) auto
qed

lemma base64_split4: obtains a b d e :: nat where "c = ((a * 0x40 + b) * 0x40 + d) * 0x40 + e" "b < 0x40" "d < 0x40" "e < 0x40"
   "c div 0x40000 = a" "c div 0x1000 mod 0x40 = b" "c div 0x40 mod 0x40 = d" "c mod 0x40 = e"
proof -
  obtain q d e where q: "c = (q * 0x40 + d) * 0x40 + e" "d < 0x40" "e < 0x40" "c div 0x1000 = q"
      "c div 0x40 mod 0x40 = d" "c mod 0x40 = e" by (rule base64_split3)
  obtain a b where a: "q = a * 0x40 + b" "b < 0x40" "q div 0x40 = a" "q mod 0x40 = b" by (rule base64_split2)
  have "c div 0x40000 = a" using div_mult2_eq [of c "0x1000" "0x40"] q(4) a by simp
  with q a show ?thesis by (intro that [of a b d e]) auto
qed

lemma utf8_next_char1: "c < 0x80 \<Longrightarrow> utf8_next c r = Valid c r"
  by (simp add: utf8_next_def)

lemma utf8_next_char2: "0x80 \<le> c \<Longrightarrow> c < 0x800 \<Longrightarrow> 
  utf8_next (0xC0 + c div 0x40) ((0x80 + c mod 0x40) # r) = Valid c r"
  by (rule base64_split2 [of c]) (simp add: utf8_next_def cont_def)

lemma utf8_next_char3: "0x800 \<le> c \<Longrightarrow> c < 0x10000 \<Longrightarrow> \<not> surrogate c \<Longrightarrow>
  utf8_next (0xE0 + c div 0x1000) ((0x80 + c div 0x40 mod 0x40) # (0x80 + c mod 0x40) # r) = Valid c r"
  by (rule base64_split3 [of c]) (auto simp: utf8_next_def cont_def surrogate_def)

lemma utf8_next_char4: "0x10000 \<le> c \<Longrightarrow> c < 0x110000 \<Longrightarrow>
  utf8_next (0xF0 + c div 0x40000) ((0x80 + c div 0x1000 mod 0x40) # (0x80 + c div 0x40 mod 0x40) # (0x80 + c mod 0x40) # r) = Valid c r"
  by (rule base64_split4 [of c]) (simp add: utf8_next_def cont_def)

lemma utf8_decode_char:
  assumes "encodable_char c"
  shows "utf8_decode (utf8_char c @ r) = map_option ((#) c) (utf8_decode r)"
  using assms utf8_next_char1 [of c] utf8_next_char2 [of c] utf8_next_char3 [of c] utf8_next_char4 [of c]
  by (auto simp: utf8_char_def encodable_char_def)

lemma utf8_decode_encode:
  "encodable s \<Longrightarrow> utf8_decode (concat (map utf8_char s) @ r) = map_option (\<lambda>t. s @ t) (utf8_decode r)"
  by (induction s; cases "utf8_decode r") (auto simp: encodable_def utf8_decode_char)

lemma utf8_char_octets: "encodable_char c \<Longrightarrow> b \<in> set (utf8_char c) \<Longrightarrow> b < 0x100"
  by (auto simp: utf8_char_def encodable_char_def less_mult_imp_div_less split: if_splits)


lemma octet_offset:
  assumes "k \<le> b" obtains y :: nat where "b = k + y"
  using assms by (metis le_Suc_ex)

lemma cont_offset: assumes "cont b" obtains y where "b = 0x80 + y" "y < 0x40"
proof -
  obtain y where "b = 0x80 + y" using octet_offset [of "0x80" b] assms by (auto simp: cont_def)
  with assms that show ?thesis by (simp add: cont_def)
qed

lemma utf8_char_2: "0x80 \<le> x * 0x40 + y \<Longrightarrow> x < 0x20 \<Longrightarrow> y < 0x40 \<Longrightarrow>
   utf8_char (x * 0x40 + y) = [0xC0 + x, 0x80 + y]"
  by (simp add: utf8_char_def)

lemma utf8_char_3:
  assumes c: "c = q * 0x40 + z" and q: "q = x * 0x40 + y"
    and bounds: "0x800 \<le> c" "c < 0x10000" "y < 0x40" "z < 0x40"
  shows "utf8_char c = [0xE0 + x, 0x80 + y, 0x80 + z]"
proof -
  have "c div 0x40 = q" "c mod 0x40 = z" using c bounds by simp_all
  moreover have "q div 0x40 = x" "q mod 0x40 = y" using q bounds by simp_all
  moreover have "c div 0x1000 = c div 0x40 div 0x40" using div_mult2_eq [of c "0x40" "0x40"] by simp
  ultimately show ?thesis using bounds(1,2) by (simp add: utf8_char_def)
qed

lemma utf8_char_4:
  assumes c: "c = q * 0x40 + w" and q: "q = p * 0x40 + z" and p: "p = x * 0x40 + y"
    and bounds: "0x10000 \<le> c" "y < 0x40" "z < 0x40" "w < 0x40"
  shows "utf8_char c = [0xF0 + x, 0x80 + y, 0x80 + z, 0x80 + w]"
proof -
  have "c div 0x40 = q" "c mod 0x40 = w" using c bounds by simp_all
  moreover have "q div 0x40 = p" "q mod 0x40 = z" using q bounds by simp_all
  moreover have "p div 0x40 = x" "p mod 0x40 = y" using p bounds by simp_all
  moreover have "c div 0x1000 = c div 0x40 div 0x40" using div_mult2_eq [of c "0x40" "0x40"] by simp
  moreover have "c div 0x40000 = c div 0x1000 div 0x40" using div_mult2_eq [of c "0x1000" "0x40"] by simp
  ultimately show ?thesis using bounds(1) by (simp add: utf8_char_def)
qed

lemma utf8_next2_Valid:
  assumes "utf8_next2 b r = Valid c r'" "0xC2 \<le> b" "b < 0xE0"
  shows "encodable_char c \<and> b # r = utf8_char c @ r'"
proof -
  obtain x where x: "b = 0xC0 + x" using octet_offset [of "0xC0" b] assms(2) by auto
  from assms(1) obtain b1 where b1: "r = b1 # r'" "cont b1" by (cases r) (auto split: if_splits)
  obtain y where y: "b1 = 0x80 + y" "y < 0x40" using b1(2) by (rule cont_offset)
  have "c = x * 0x40 + y" using assms(1) b1 x y by simp
  with assms x y b1 show ?thesis 
    by (simp add: utf8_char_2 encodable_char_def surrogate_def)
qed

lemma utf8_next3_Valid:
  assumes "utf8_next3 b r = Valid c r'" "0xE0 \<le> b" "b < 0xF0"
  shows "encodable_char c \<and> b # r = utf8_char c @ r'"
proof -
  obtain x where x: "b = 0xE0 + x" using octet_offset [of "0xE0" b] assms(2) by auto
  from assms(1) obtain b1 b2 where b1: "r = b1 # b2 # r'" "cont b2" "cont b1"
     "b = 0xE0 \<longrightarrow> 0xA0 \<le> b1" "b = 0xED \<longrightarrow> b1 \<le> 0x9F" 
    by (cases "(b, r)" rule: utf8_next3.cases) (auto simp: cont_def split: if_splits)
  obtain y where y: "b1 = 0x80 + y" "y < 0x40" using b1(3) by (rule cont_offset)
  obtain z where z: "b2 = 0x80 + z" "z < 0x40" using b1(2) by (rule cont_offset)
  have c: "c = (x * 0x40 + y) * 0x40 + z" using assms(1) b1 x y z by (simp split: if_splits)
  have "0x800 \<le> (x * 0x40 + y) * 0x40 + z" "x < 0x10" using b1 x y z assms(3) by (cases "x = 0"; simp)+
  with c y z have "utf8_char c = [0xE0 + x, 0x80 + y, 0x80 + z]"
    by (intro utf8_char_3 [of c "x * 0x40 + y"]) simp_all
  moreover have "c < 0xD800 \<or> 0xDFFF < c"
    using c x y z b1(5) by (cases "x < 13"; cases "x = 13") simp_all
  moreover have "c < 0x10000" using c y z \<open>x < 0x10\<close> by simp
  ultimately show ?thesis using x y z b1 by (auto simp: encodable_char_def surrogate_def)
qed

lemma utf8_next4_Valid:
  assumes "utf8_next4 b r = Valid c r'" "0xF0 \<le> b" "b < 0xF5"
  shows "encodable_char c \<and> b # r = utf8_char c @ r'"
proof -
  obtain x where x: "b = 0xF0 + x" using octet_offset [of "0xF0" b] assms(2) by auto
  from assms(1) obtain b1 b2 b3 where b1: "r = b1 # b2 # b3 # r'" "cont b1" "cont b2" "cont b3"
     "b = 0xF0 \<longrightarrow> 0x90 \<le> b1" "b = 0xF4 \<longrightarrow> b1 \<le> 0x8F" 
    by (cases "(b, r)" rule: utf8_next4.cases) (auto simp: cont_def split: if_splits list.splits)
  obtain y where y: "b1 = 0x80 + y" "y < 0x40" using b1(2) by (rule cont_offset)
  obtain z where z: "b2 = 0x80 + z" "z < 0x40" using b1(3) by (rule cont_offset)
  obtain w where w: "b3 = 0x80 + w" "w < 0x40" using b1(4) by (rule cont_offset)
  have c: "c = ((x * 0x40 + y) * 0x40 + z) * 0x40 + w" using assms(1) b1 x y z w by (simp split: if_splits)
  have "0x10000 \<le> ((x * 0x40 + y) * 0x40 + z) * 0x40 + w" using b1 x y z by (cases "x = 0") simp_all
  moreover have "((x * 0x40 + y) * 0x40 + z) * 0x40 + w < 0x110000" using b1 x y z w assms(3) by (cases "x = 4") simp_all
  moreover from calculation(1) c y z w have "utf8_char c = [0xF0 + x, 0x80 + y, 0x80 + z, 0x80 + w]"
    by (intro utf8_char_4 [of c "(x * 0x40 + y) * 0x40 + z" w "x * 0x40 + y"]) simp_all
  ultimately show ?thesis using x y z w b1 c by (simp add: encodable_char_def surrogate_def)
qed

lemma utf8_next_Valid:
  assumes "utf8_next b r = Valid c r'"
  shows "encodable_char c \<and> b # r = utf8_char c @ r'"
  using assms utf8_next2_Valid [of b r c r'] utf8_next3_Valid [of b r c r'] utf8_next4_Valid [of b r c r']
  by (auto simp: utf8_next_def utf8_char_def encodable_char_def surrogate_def split: if_splits)

lemma utf8_decode_Some:
  "utf8_decode b = Some s \<Longrightarrow> encodable s \<and> concat (map utf8_char s) = b"
proof (induction b arbitrary: s rule: utf8_decode.induct)
  case 1 then show ?case by (simp add: encodable_def)
next
  case (2 b r)
  then obtain c r' s' where "utf8_next b r = Valid c r'" "utf8_decode r' = Some s'" "s = c # s'"
    by (auto split: utf8_item.splits)
  with 2 utf8_next_Valid [of b r c r'] show ?case by (simp add: encodable_def)
qed

lemma encodable_octets: "encodable s \<Longrightarrow> map (of_char \<circ> char_of) (concat (map utf8_char s)) = concat (map utf8_char s)"
  by (rule map_idI) (auto simp: encodable_def list_all_iff dest!: utf8_char_octets)

interpretation utf8: canonical_codec encodable encode decode
proof unfold_locales
  fix x y z
  show "encodable x \<Longrightarrow> \<exists>y. encode x = Some y" by (simp add: encode_def)
  show "encodable x \<Longrightarrow> encode x = Some y \<Longrightarrow> decode y = Some x"
    using utf8_decode_encode [of x "[]"] encodable_octets [of x]
    by (auto simp: encode_def decode_def)
  show "decode y = Some x \<Longrightarrow> encodable x" by (auto simp: decode_def dest: utf8_decode_Some)
  show "decode y = Some x \<Longrightarrow> encode x = Some y"
    by (auto simp: encode_def decode_def comp_def dest: utf8_decode_Some)
qed


subsection \<open>Decimal text\<close>

lemma digit_value_ascii: "d < 10 \<Longrightarrow> digit_value (0x30 + d) = Some d"
  by (simp add: digit_value_def decimal_zeros_def)

lemma str_nat_digits:
  obtains ds where "str_nat n = map ((+) 0x30) ds" "ds \<noteq> []" "list_all (\<lambda>d. d < 10) ds" "int_value ds = n"
proof (induction n arbitrary: thesis rule: str_nat.induct)
  case (1 n)
  show ?case
  proof (cases "n < 10")
    case True
    then show ?thesis by (intro 1(2) [of "[n]"]) (simp_all add: str_nat.simps [of n] int_value_def)
  next
    case False
    then obtain ds where ds: "str_nat (n div 10) = map ((+) 0x30) ds" "ds \<noteq> []"
        "list_all (\<lambda>d. d < 10) ds" "int_value ds = n div 10"
      using 1(1) by blast
    with False show ?thesis
      by (intro 1(2) [of "ds @ [n mod 10]"]) (simp_all add: str_nat.simps [of n] int_value_def)
  qed
qed

lemma int_digits_ascii:
  "ds \<noteq> [] \<Longrightarrow> list_all (\<lambda>d. d < 10) ds \<Longrightarrow> int_digits (map ((+) 0x30) ds) = Some ds"
proof (induction ds rule: induct_list012)
  case (3 d d' ds)
  then show ?case by (simp add: digit_value_ascii)
qed (simp_all add: digit_value_ascii)

lemma int_strip_id:
  "s \<noteq> [] \<Longrightarrow> \<not> int_space (hd s) \<Longrightarrow> \<not> int_space (last s) \<Longrightarrow> int_strip s = s"
  by (simp add: int_strip_def hd_rev dropWhile_eq_self_iff [THEN iffD2])

lemma not_int_space_ascii: "d < 10 \<Longrightarrow> \<not> int_space (0x30 + d)" "\<not> int_space 0x2D"
  by (auto simp: int_space_def)

lemma int_unsigned_str_nat:
  "length (str_nat n) \<le> max_str_digits \<Longrightarrow> int_unsigned (str_nat n) = Some (int n)"
  by (rule str_nat_digits [of n]) (simp add: int_unsigned_def int_digits_ascii)

lemma py_int_str_int:
  assumes "str_int i = Inr s" shows "py_int s = Some i"
proof -
  obtain ds where ds: "str_nat (nat \<bar>i\<bar>) = map ((+) 0x30) ds" "ds \<noteq> []" "list_all (\<lambda>d. d < 10) ds"
    by (rule str_nat_digits)
  have last: "\<not> int_space (last (map ((+) 0x30) ds))" and hd: "\<not> int_space (hd (map ((+) 0x30) ds))"
    using ds by (auto simp: last_map hd_map list_all_iff intro!: not_int_space_ascii)
  have s: "s = (if i < 0 then 0x2D # str_nat (nat \<bar>i\<bar>) else str_nat (nat \<bar>i\<bar>))"
    and len: "length (str_nat (nat \<bar>i\<bar>)) \<le> max_str_digits"
    using assms by (auto simp: str_int_def Let_def split: if_splits)
  have "int_strip s = s"
    using s ds last hd by (intro int_strip_id) (auto simp: not_int_space_ascii)
  moreover obtain d ds' where "ds = d # ds'" using ds(2) by (cases ds) auto
  ultimately show ?thesis
    using s ds(1) int_unsigned_str_nat [OF len] by (auto simp: py_int_def)
qed

lemma length_str_nat: "n < 10 ^ k \<Longrightarrow> 0 < k \<Longrightarrow> length (str_nat n) \<le> k"
proof (induction n arbitrary: k rule: str_nat.induct)
  case (1 n)
  show ?case
  proof (cases "n < 10")
    case True with 1 show ?thesis by (simp add: str_nat.simps [of n])
  next
    case False
    with 1(2,3) obtain k' where k: "k = Suc k'" "0 < k'" by (cases k; cases "k - 1") auto
    with 1(2) have "n div 10 < 10 ^ k'" by (simp add: less_mult_imp_div_less mult.commute)
    with 1(1) False k show ?thesis by (simp add: str_nat.simps [of n])
  qed
qed

lemma str_int_printable: "printable_int i \<Longrightarrow> \<exists>s. str_int i = Inr s"
proof -
  have "0 < max_str_digits" by (simp add: max_str_digits_def)
  moreover assume "printable_int i"
  ultimately have "length (str_nat (nat \<bar>i\<bar>)) \<le> max_str_digits"
    unfolding printable_int_def by (intro length_str_nat)
  then show ?thesis by (simp add: str_int_def Let_def)
qed

interpretation decimal: partial_codec printable_int "\<lambda>i. case str_int i of Inl _ \<Rightarrow> None | Inr s \<Rightarrow> Some s" py_int
  by unfold_locales (auto dest: str_int_printable py_int_str_int split: sum.splits)

text \<open>Lengths of Python objects fit in 63 bits, so \<open>str(len(x))\<close> is always printable.\<close>

lemma printable_length:
  assumes "n < 2 ^ 63"
  shows "length (str_nat n) \<le> max_str_digits"
proof -
  have "n < 10 ^ 19" using assms by simp
  then have "length (str_nat n) \<le> 19" by (rule length_str_nat) simp
  then show ?thesis by (simp add: max_str_digits_def)
qed

lemma py_int_str_nat:
  assumes "n < 2 ^ 63"
  shows "py_int (str_nat n) = Some (int n)"
  using printable_length [OF assms] by (intro py_int_str_int) (simp add: str_int_def Let_def)

lemma str_nat_ascii: "c \<in> set (str_nat n) \<Longrightarrow> 0x30 \<le> c \<and> c \<le> 0x39"
  by (rule str_nat_digits [of n]) (auto simp: list_all_iff)

lemma encodable_str_nat: "encodable (str_nat n)"
  using str_nat_ascii [of _ n]
  by (fastforce simp: encodable_def list_all_iff encodable_char_def surrogate_def)

end
