(* ===== verification/Frames.thy ===== *)
theory Frames
  imports Py_Text
begin

text \<open>
  The frames of \<open>stompman/frames.py\<close>: the typed dictionaries of their headers, the frame
  classes, and the two \<open>build\<close> class methods.

  \<open>SendFrame.build\<close> writes into the dictionary object that its caller passed whenever
  that dictionary is not empty (\<open>headers or {}\<close>), so it is modelled on an explicit heap
  of dictionary objects; \<open>SubscribeFrame.build\<close> copies first and is a pure function.
\<close>

section \<open>Typed dictionaries\<close>

text \<open>
  A \<open>TypedDict\<close> is a plain dictionary at run time. Its declaration lists the keys that
  must be present and the keys that may be; keys beyond those occur (custom headers).
\<close>

record typed_dict =
  required :: "string list"
  not_required :: "string list"

definition ConnectHeaders :: typed_dict where
  "ConnectHeaders =
     \<lparr>required = [''accept-version'', ''host''],
      not_required = [''login'', ''passcode'', ''heart-beat'', ''content-length'']\<rparr>"

definition ConnectedHeaders :: typed_dict where
  "ConnectedHeaders =
     \<lparr>required = [''version''],
      not_required = [''server'', ''heart-beat'', ''content-length'']\<rparr>"

definition SendHeaders :: typed_dict where
  "SendHeaders =
     \<lparr>required = [''destination''],
      not_required = [''content-length'', ''content-type'', ''transaction'']\<rparr>"

definition SubscribeHeaders :: typed_dict where
  "SubscribeHeaders =
     \<lparr>required = [''id'', ''destination''],
      not_required = [''ack'', ''content-length'']\<rparr>"

definition UnsubscribeHeaders :: typed_dict where
  "UnsubscribeHeaders =
     \<lparr>required = [''id''],
      not_required = [''content-length'']\<rparr>"

definition AckHeaders :: typed_dict where
  "AckHeaders =
     \<lparr>required = [''subscription'', ''id''],
      not_required = [''transaction'', ''content-length'']\<rparr>"

definition NackHeaders :: typed_dict where
  "NackHeaders =
     \<lparr>required = [''subscription'', ''id''],
      not_required = [''transaction'', ''content-length'']\<rparr>"

definition BeginHeaders :: typed_dict where
  "BeginHeaders =
     \<lparr>required = [''transaction''],
      not_required = [''content-length'']\<rparr>"

definition CommitHeaders :: typed_dict where
  "CommitHeaders =
     \<lparr>required = [''transaction''],
      not_required = [''content-length'']\<rparr>"

definition AbortHeaders :: typed_dict where
  "AbortHeaders =
     \<lparr>required = [''transaction''],
      not_required = [''content-length'']\<rparr>"

definition DisconnectHeaders :: typed_dict where
  "DisconnectHeaders =
     \<lparr>required = [],
      not_required = [''receipt'', ''content-length'']\<rparr>"

definition ReceiptHeaders :: typed_dict where
  "ReceiptHeaders =
     \<lparr>required = [''receipt-id''],
      not_required = [''content-length'']\<rparr>"

definition MessageHeaders :: typed_dict where
  "MessageHeaders =
     \<lparr>required = [''destination'', ''message-id'', ''subscription''],
      not_required = [''ack'', ''content-type'', ''content-length'']\<rparr>"

definition ErrorHeaders :: typed_dict where
  "ErrorHeaders =
     \<lparr>required = [''message''],
      not_required = [''content-length'', ''content-type'']\<rparr>"


definition conforms :: "typed_dict \<Rightarrow> headers \<Rightarrow> bool" where
  "conforms td h \<longleftrightarrow> (\<forall>k \<in> set (required td). lit k \<in> fst ` set h)"

datatype AckMode = Client | ClientIndividual | Auto

fun ack_str :: "AckMode \<Rightarrow> pystr" where
  "ack_str Client = lit ''client''"
| "ack_str ClientIndividual = lit ''client-individual''"
| "ack_str Auto = lit ''auto''"

section \<open>The frame classes\<close>

datatype frame =
    ConnectFrame headers
  | StompFrame headers
  | ConnectedFrame headers
  | SendFrame headers bytes
  | SubscribeFrame headers
  | UnsubscribeFrame headers
  | AckFrame headers
  | NackFrame headers
  | BeginFrame headers
  | CommitFrame headers
  | AbortFrame headers
  | DisconnectFrame headers
  | ReceiptFrame headers
  | MessageFrame headers bytes
  | ErrorFrame headers bytes
  | HeartbeatFrame

text \<open>\<open>type(frame)\<close>.\<close>

datatype frame_type =
    TConnect | TStomp | TConnected | TSend | TSubscribe | TUnsubscribe | TAck | TNack
  | TBegin | TCommit | TAbort | TDisconnect | TReceipt | TMessage | TError | THeartbeat

fun type_of :: "frame \<Rightarrow> frame_type" where
  "type_of (ConnectFrame _) = TConnect"
| "type_of (StompFrame _) = TStomp"
| "type_of (ConnectedFrame _) = TConnected"
| "type_of (SendFrame _ _) = TSend"
| "type_of (SubscribeFrame _) = TSubscribe"
| "type_of (UnsubscribeFrame _) = TUnsubscribe"
| "type_of (AckFrame _) = TAck"
| "type_of (NackFrame _) = TNack"
| "type_of (BeginFrame _) = TBegin"
| "type_of (CommitFrame _) = TCommit"
| "type_of (AbortFrame _) = TAbort"
| "type_of (DisconnectFrame _) = TDisconnect"
| "type_of (ReceiptFrame _) = TReceipt"
| "type_of (MessageFrame _ _) = TMessage"
| "type_of (ErrorFrame _ _) = TError"
| "type_of HeartbeatFrame = THeartbeat"

text \<open>\<open>frame.headers\<close>: \<open>None\<close> is the \<open>AttributeError\<close> of a heart-beat, which has none.\<close>

fun headers_of :: "frame \<Rightarrow> headers option" where
  "headers_of (ConnectFrame h) = Some h"
| "headers_of (StompFrame h) = Some h"
| "headers_of (ConnectedFrame h) = Some h"
| "headers_of (SendFrame h _) = Some h"
| "headers_of (SubscribeFrame h) = Some h"
| "headers_of (UnsubscribeFrame h) = Some h"
| "headers_of (AckFrame h) = Some h"
| "headers_of (NackFrame h) = Some h"
| "headers_of (BeginFrame h) = Some h"
| "headers_of (CommitFrame h) = Some h"
| "headers_of (AbortFrame h) = Some h"
| "headers_of (DisconnectFrame h) = Some h"
| "headers_of (ReceiptFrame h) = Some h"
| "headers_of (MessageFrame h _) = Some h"
| "headers_of (ErrorFrame h _) = Some h"
| "headers_of HeartbeatFrame = None"

text \<open>\<open>frame.body\<close>, empty for the classes without one.\<close>

fun body_of :: "frame \<Rightarrow> bytes" where
  "body_of (SendFrame _ b) = b"
| "body_of (MessageFrame _ b) = b"
| "body_of (ErrorFrame _ b) = b"
| "body_of _ = []"

text \<open>The typed dictionary that each class declares for its headers.\<close>

fun declared_headers :: "frame_type \<Rightarrow> typed_dict option" where
  "declared_headers TConnect = Some ConnectHeaders"
| "declared_headers TStomp = Some ConnectHeaders"
| "declared_headers TConnected = Some ConnectedHeaders"
| "declared_headers TSend = Some SendHeaders"
| "declared_headers TSubscribe = Some SubscribeHeaders"
| "declared_headers TUnsubscribe = Some UnsubscribeHeaders"
| "declared_headers TAck = Some AckHeaders"
| "declared_headers TNack = Some NackHeaders"
| "declared_headers TBegin = Some BeginHeaders"
| "declared_headers TCommit = Some CommitHeaders"
| "declared_headers TAbort = Some AbortHeaders"
| "declared_headers TDisconnect = Some DisconnectHeaders"
| "declared_headers TReceipt = Some ReceiptHeaders"
| "declared_headers TMessage = Some MessageHeaders"
| "declared_headers TError = Some ErrorHeaders"
| "declared_headers THeartbeat = None"

text \<open>\<open>AnyClientFrame\<close>, \<open>AnyRealServerFrame\<close> and \<open>AnyServerFrame\<close>.\<close>

definition AnyClientFrame :: "frame_type list" where
  "AnyClientFrame =
     [TSend, TSubscribe, TUnsubscribe, TBegin, TCommit, TAbort, TAck, TNack, TDisconnect,
      TConnect, TStomp]"

definition AnyRealServerFrame :: "frame_type list" where
  "AnyRealServerFrame = [TConnected, TMessage, TReceipt, TError]"

definition AnyServerFrame :: "frame_type list" where
  "AnyServerFrame = AnyRealServerFrame @ [THeartbeat]"

text \<open>A frame whose headers satisfy the declaration of its class.\<close>

definition well_typed :: "frame \<Rightarrow> bool" where
  "well_typed f \<longleftrightarrow>
     (case (declared_headers (type_of f), headers_of f) of
        (Some td, Some h) \<Rightarrow> conforms td h
      | _ \<Rightarrow> True)"

text \<open>Equality of two frame objects (\<open>==\<close> of the dataclasses): dictionaries compare as
  finite maps, whatever the order of their items.\<close>

definition frame_eq :: "frame \<Rightarrow> frame \<Rightarrow> bool" where
  "frame_eq f g \<longleftrightarrow>
     type_of f = type_of g \<and> body_of f = body_of g \<and>
     map_option map_of (headers_of f) = map_option map_of (headers_of g)"

section \<open>Building frames\<close>

text \<open>
  Dictionary objects live in a heap; a reference is an index into it. \<open>deref\<close> of a
  reference that was never allocated cannot happen in Python; the model gives it an
  empty dictionary.
\<close>

type_synonym ref = nat
type_synonym dict_heap = "headers list"

definition deref :: "dict_heap \<Rightarrow> ref \<Rightarrow> headers" where
  "deref H r = (if r < length H then H ! r else [])"

definition alloc :: "dict_heap \<Rightarrow> headers \<Rightarrow> ref \<times> dict_heap" where
  "alloc H d = (length H, H @ [d])"

text \<open>A \<open>SendFrame\<close> object refers to its headers dictionary.\<close>

record send_frame =
  send_headers :: ref
  send_body :: bytes

definition send_frame_of :: "dict_heap \<Rightarrow> send_frame \<Rightarrow> frame" where
  "send_frame_of H sf = SendFrame (deref H (send_headers sf)) (send_body sf)"

text \<open>The updates that \<open>build\<close> makes to the dictionary it has chosen.\<close>

definition fill_send_headers ::
  "bytes \<Rightarrow> pystr \<Rightarrow> pystr option \<Rightarrow> pystr option \<Rightarrow> bool \<Rightarrow> headers \<Rightarrow> headers" where
  "fill_send_headers body destination transaction content_type add_content_length d =
     (let d1 = AList.update (lit ''destination'') destination d;
          d2 = (if add_content_length
                then AList.update (lit ''content-length'') (str_nat (length body)) d1 else d1);
          d3 = (case content_type of
                  None \<Rightarrow> d2 | Some c \<Rightarrow> AList.update (lit ''content-type'') c d2)
      in (case transaction of
            None \<Rightarrow> d3 | Some t \<Rightarrow> AList.update (lit ''transaction'') t d3))"

text \<open>\<open>headers or {}\<close>: the caller's dictionary itself when it is not empty.\<close>

definition headers_or_new :: "dict_heap \<Rightarrow> ref option \<Rightarrow> ref \<times> dict_heap" where
  "headers_or_new H headers =
     (case headers of
        None \<Rightarrow> alloc H []
      | Some r \<Rightarrow> if deref H r = [] then alloc H [] else (r, H))"

definition SendFrame_build ::
  "dict_heap \<Rightarrow> bytes \<Rightarrow> pystr \<Rightarrow> pystr option \<Rightarrow> pystr option \<Rightarrow> bool \<Rightarrow> ref option
     \<Rightarrow> send_frame \<times> dict_heap" where
  "SendFrame_build H body destination transaction content_type add_content_length headers =
     (case headers_or_new H headers of
        (r, H') \<Rightarrow>
          (\<lparr>send_headers = r, send_body = body\<rparr>,
           H'[r := fill_send_headers body destination transaction content_type
                     add_content_length (deref H' r)]))"

definition SubscribeFrame_build ::
  "pystr \<Rightarrow> pystr \<Rightarrow> AckMode \<Rightarrow> headers option \<Rightarrow> frame" where
  "SubscribeFrame_build subscription_id destination ack headers =
     SubscribeFrame
       (dict_update (case headers of None \<Rightarrow> [] | Some d \<Rightarrow> d)
          [(lit ''id'', subscription_id), (lit ''destination'', destination),
           (lit ''ack'', ack_str ack)])"

text \<open>The items \<open>build\<close> starts from.\<close>

definition base_headers :: "dict_heap \<Rightarrow> ref option \<Rightarrow> headers" where
  "base_headers H headers = (case headers of None \<Rightarrow> [] | Some r \<Rightarrow> deref H r)"

section \<open>Lemmas on the builders\<close>

lemma fill_send_headers_get:
  "map_of (fill_send_headers body dest tx ct acl d) k =
     (if k = lit ''transaction'' \<and> tx \<noteq> None then tx
      else if k = lit ''content-type'' \<and> ct \<noteq> None then ct
      else if k = lit ''content-length'' \<and> acl then Some (str_nat (length body))
      else if k = lit ''destination'' then Some dest
      else map_of d k)"
  by (auto simp: fill_send_headers_def Let_def dict_laws split: option.splits)

lemma dict_wf_fill_send_headers:
  "dict_wf d \<Longrightarrow> dict_wf (fill_send_headers body dest tx ct acl d)"
  by (auto simp: fill_send_headers_def Let_def dict_laws split: option.splits)

lemma deref_alloc [simp]: "r < length H \<Longrightarrow> deref (H @ [d]) r = deref H r"
  by (simp add: deref_def nth_append)

lemma deref_list_update [simp]:
  "r < length H \<Longrightarrow> deref (H[r := d]) r' = (if r' = r then d else deref H r')"
  by (simp add: deref_def)

lemma SendFrame_build_frame:
  assumes "SendFrame_build H body dest tx ct acl headers = (sf, H')"
  shows "send_frame_of H' sf =
           SendFrame (fill_send_headers body dest tx ct acl (base_headers H headers)) body"
  using assms
  by (auto simp: SendFrame_build_def headers_or_new_def alloc_def send_frame_of_def base_headers_def
      deref_def nth_append split: option.splits if_splits)

lemma SendFrame_build_shared:
  assumes "r < length H" and "deref H r \<noteq> []"
  shows "SendFrame_build H body dest tx ct acl (Some r) =
     (\<lparr>send_headers = r, send_body = body\<rparr>, H[r := fill_send_headers body dest tx ct acl (deref H r)])"
  using assms by (simp add: SendFrame_build_def headers_or_new_def)

lemma SendFrame_build_other_cells:
  assumes "SendFrame_build H body dest tx ct acl headers = (sf, H')"
    and "r < length H" and "headers \<noteq> Some r"
  shows "deref H' r = deref H r"
  using assms
  by (auto simp: SendFrame_build_def headers_or_new_def alloc_def deref_def nth_append
      split: option.splits if_splits)

lemma conforms_iff: "conforms td h \<longleftrightarrow> (\<forall>k \<in> set (required td). map_of h (lit k) \<noteq> None)"
  by (simp add: conforms_def fst_image_dom)

lemma SendFrame_build_well_typed:
  "SendFrame_build H body dest tx ct acl headers = (sf, H') \<Longrightarrow> well_typed (send_frame_of H' sf)"
  by (simp add: SendFrame_build_frame well_typed_def conforms_iff SendHeaders_def
      fill_send_headers_get)

lemma SubscribeFrame_build_get:
  assumes "SubscribeFrame_build i d a h = SubscribeFrame g"
  shows "map_of g k =
     (if k = lit ''ack'' then Some (ack_str a)
      else if k = lit ''destination'' then Some d
      else if k = lit ''id'' then Some i
      else map_of (case h of None \<Rightarrow> [] | Some e \<Rightarrow> e) k)"
  using assms by (auto simp: SubscribeFrame_build_def dict_laws)

lemma SubscribeFrame_build_well_typed: "well_typed (SubscribeFrame_build i d a h)"
  by (simp add: SubscribeFrame_build_def well_typed_def conforms_iff SubscribeHeaders_def dict_laws)

section \<open>Properties of the builders\<close>

text \<open>The frame that \<open>SendFrame.build\<close> returns carries the body and the destination it was
  given, a content length exactly when asked to (or when the caller's headers had one), the
  content type and the transaction when given, and every other header of the caller; and
  its headers satisfy the declaration \<open>SendHeaders\<close>.\<close>

theorem send_build_fields:
  assumes "SendFrame_build H body dest tx ct acl headers = (sf, H')"
  shows "\<exists>h. send_frame_of H' sf = SendFrame h body \<and> well_typed (SendFrame h body) \<and>
    (\<forall>k. map_of h k =
       (if k = lit ''transaction'' \<and> tx \<noteq> None then tx
        else if k = lit ''content-type'' \<and> ct \<noteq> None then ct
        else if k = lit ''content-length'' \<and> acl then Some (str_nat (length body))
        else if k = lit ''destination'' then Some dest
        else map_of (base_headers H headers) k))"
  using SendFrame_build_frame [OF assms] SendFrame_build_well_typed [OF assms]
  by (simp add: fill_send_headers_get)

theorem send_build_fields_witness:
  "\<exists>h. send_frame_of (snd (SendFrame_build [] ''hi'' (lit ''q'') None None False None))
          (fst (SendFrame_build [] ''hi'' (lit ''q'') None None False None)) = SendFrame h ''hi'' \<and>
     map_of h (lit ''destination'') = Some (lit ''q'') \<and> map_of h (lit ''content-length'') = None"
proof -
  let ?r = "SendFrame_build [] ''hi'' (lit ''q'') None None False None"
  have "?r = (fst ?r, snd ?r)" by simp
  from send_build_fields [OF this] show ?thesis by (auto simp: base_headers_def)
qed

text \<open>C31. \<open>SendFrame.build\<close> stores into the caller's own dictionary when that is not empty. A
  caller who passes one dictionary to two sends therefore changes the first frame after the
  fact: both frame objects then show the destination and the content length of the second
  message, and a transaction header of the first send stays on the second one, which was
  made outside any transaction.\<close>

theorem send_build_aliasing:
  assumes r: "r < length H" "deref H r \<noteq> []"
    and b1: "SendFrame_build H body1 dest1 (Some t) ct1 True (Some r) = (sf1, H1)"
    and b2: "SendFrame_build H1 body2 dest2 None ct2 True (Some r) = (sf2, H2)"
  shows "\<exists>h. send_frame_of H2 sf1 = SendFrame h body1 \<and> send_frame_of H2 sf2 = SendFrame h body2 \<and>
     deref H2 r = h \<and>
     map_of h (lit ''destination'') = Some dest2 \<and>
     map_of h (lit ''content-length'') = Some (str_nat (length body2)) \<and>
     map_of h (lit ''transaction'') = Some t"
proof -
  let ?h1 = "fill_send_headers body1 dest1 (Some t) ct1 True (deref H r)"
  let ?h2 = "fill_send_headers body2 dest2 None ct2 True ?h1"
  have 1: "sf1 = \<lparr>send_headers = r, send_body = body1\<rparr>" "H1 = H[r := ?h1]"
    using b1 SendFrame_build_shared [OF r] by simp_all
  have "map_of ?h1 (lit ''destination'') = Some dest1" by (simp add: fill_send_headers_get)
  then have "deref H1 r \<noteq> []" using 1 r by auto
  then have 2: "sf2 = \<lparr>send_headers = r, send_body = body2\<rparr>" "H2 = H1[r := ?h2]"
    using b2 SendFrame_build_shared [of r H1] r 1 by simp_all
  show ?thesis
    using 1 2 r by (auto simp: send_frame_of_def fill_send_headers_get)
qed

theorem send_build_aliasing_witness:
  "let r1 = SendFrame_build [[(lit ''persistent'', lit ''true'')]] ''hello'' (lit ''a'') (Some (lit ''t1'')) None True (Some 0);
       r2 = SendFrame_build (snd r1) ''x'' (lit ''b'') None None True (Some 0)
   in \<exists>h. send_frame_of (snd r2) (fst r1) = SendFrame h ''hello'' \<and>
        map_of h (lit ''content-length'') = Some (str_nat (length ''x''))"
proof -
  let ?H = "[[(lit ''persistent'', lit ''true'')]]"
  let ?r1 = "SendFrame_build ?H ''hello'' (lit ''a'') (Some (lit ''t1'')) None True (Some 0)"
  let ?r2 = "SendFrame_build (snd ?r1) ''x'' (lit ''b'') None None True (Some 0)"
  have "0 < length ?H" "deref ?H 0 \<noteq> []" "?r1 = (fst ?r1, snd ?r1)" "?r2 = (fst ?r2, snd ?r2)"
    by (simp_all add: deref_def)
  from send_build_aliasing [OF this] show ?thesis by (auto simp: Let_def)
qed

end
