(* ===== verification/Serde_Roundtrip.thy ===== *)
theory Serde_Roundtrip
  imports Serde
begin

text \<open>
  Round trips of the wire format of \<open>stompman/serde.py\<close>: the header escaping against the
  automaton of \<open>parse_header\<close>, then a whole frame against \<open>FrameParser\<close>, then a stream of
  frames and heart-beats cut into chunks at any place.
\<close>

section \<open>Header lines\<close>

definition ready :: "header_state \<Rightarrow> bool" where
  "ready st \<longleftrightarrow> just_escaped_line st \<or> hs_previous_byte st \<noteq> Some BACKSLASH"

definition extended :: "bytes \<Rightarrow> header_state \<Rightarrow> header_state \<Rightarrow> bool" where
  "extended bs st st' \<longleftrightarrow> key_parsed st' = key_parsed st \<and>
     key_buffer st' = (if key_parsed st then key_buffer st else key_buffer st @ bs) \<and>
     value_buffer st' = (if key_parsed st then value_buffer st @ bs else value_buffer st)"

lemma extended_Nil: "extended [] st st"
  by (simp add: extended_def)

lemma extended_append: "extended as st st' \<Longrightarrow> extended bs st' st'' \<Longrightarrow> extended (as @ bs) st st''"
  by (auto simp: extended_def)

lemma header_loop_append:
  "header_loop st (as @ bs) = (case header_loop st as of None \<Rightarrow> None | Some st' \<Rightarrow> header_loop st' bs)"
  by (induction as arbitrary: st) (auto split: option.splits)

lemma header_loop_plain_byte:
  assumes "ready st" "b \<noteq> COLON" "b \<noteq> BACKSLASH"
  shows "\<exists>st'. header_loop st [b] = Some st' \<and> ready st' \<and> extended [b] st st'"
  using assms
  by (auto simp: header_byte_def Let_def header_extend_def unescape_byte_def ready_def extended_def)

lemma header_loop_escaped_byte:
  assumes "ready st" "b \<noteq> COLON" "map_of HEADER_UNESCAPE_CHARS b = Some u"
  shows "\<exists>st'. header_loop st [BACKSLASH, b] = Some st' \<and> ready st' \<and> extended [u] st st'"
  using assms
  by (auto simp: header_byte_def Let_def header_extend_def unescape_byte_def ready_def extended_def byte_defs)

lemma header_loop_plain:
  assumes "ready st" "COLON \<notin> set bs" "BACKSLASH \<notin> set bs"
  shows "\<exists>st'. header_loop st bs = Some st' \<and> ready st' \<and> extended bs st st'"
  using assms
proof (induction bs arbitrary: st)
  case Nil
  then show ?case by (simp add: extended_Nil)
next
  case (Cons b bs)
  then obtain st1 where st1: "header_loop st [b] = Some st1" "ready st1" "extended [b] st st1"
    using header_loop_plain_byte [of st b] by auto
  with Cons obtain st2 where "header_loop st1 bs = Some st2" "ready st2" "extended bs st1 st2"
    by auto
  with st1 extended_append [OF st1(3)] show ?case
    using header_loop_append [of st "[b]" bs] by auto
qed

definition utf8_bytes :: "pystr \<Rightarrow> bytes" where
  "utf8_bytes s = map char_of (concat (map utf8_char s))"

lemma utf8_bytes_append [simp]: "utf8_bytes (s @ t) = utf8_bytes s @ utf8_bytes t"
  by (simp add: utf8_bytes_def)

lemma utf8_bytes_Nil [simp]: "utf8_bytes [] = []"
  by (simp add: utf8_bytes_def)

lemma utf8_bytes_Cons: "utf8_bytes (c # s) = utf8_bytes [c] @ utf8_bytes s"
  by (simp add: utf8_bytes_def)

lemma encode_utf8_bytes: "encodable s \<Longrightarrow> encode s = Some (utf8_bytes s)"
  by (simp add: encode_def utf8_bytes_def)

lemma decode_utf8_bytes: "encodable s \<Longrightarrow> decode (utf8_bytes s) = Some s"
  using utf8.dec_enc encode_utf8_bytes by blast

text \<open>An ASCII byte occurs in the encoding only as itself.\<close>

lemma utf8_char_ascii: "b \<in> set (utf8_char c) \<Longrightarrow> b < 0x80 \<Longrightarrow> b = c"
  by (auto simp: utf8_char_def split: if_splits)

lemma utf8_bytes_ascii:
  assumes "encodable s" "b \<in> set (utf8_bytes s)" "of_char b < (0x80::nat)"
  shows "of_char b \<in> set s"
proof -
  from assms(2) obtain c x where x: "c \<in> set s" "x \<in> set (utf8_char c)" "b = char_of x"
    by (auto simp: utf8_bytes_def)
  have "x < 0x100" using utf8_char_octets [of c x] x assms(1) by (simp add: encodable_def list_all_iff)
  then have "of_char b = x" unfolding x(3) by simp
  with x(1,2) assms(3) utf8_char_ascii [of x c] show ?thesis by metis
qed

definition escape_char :: "nat \<Rightarrow> pystr" where
  "escape_char c = (case map_of HEADER_ESCAPE_CHARS c of Some e \<Rightarrow> e | None \<Rightarrow> [c])"

lemma escape_Nil [simp]: "escape [] = []"
  and escape_Cons: "escape (c # s) = escape_char c @ escape s"
  by (simp_all add: escape_def escape_char_def)

definition strip_cr :: "pystr \<Rightarrow> pystr" where
  "strip_cr s = filter (\<lambda>c. c \<noteq> of_char CARRIAGE) s"

lemma escape_char_cases:
  obtains (newline) "c = 10" "escape_char c = [0x5C, 0x6E]"
    | (colon) "c = 58" "escape_char c = [0x5C, 0x63]"
    | (backslash) "c = 92" "escape_char c = [0x5C, 0x5C]"
    | (carriage) "c = 13" "escape_char c = []"
    | (plain) "c \<notin> {10, 58, 92, 13}" "escape_char c = [c]"
proof -
  consider "c = 10" | "c = 58" | "c = 92" | "c = 13" | "c \<notin> {10, 58, 92, 13}" by auto
  then show thesis
    using that by cases (simp_all add: escape_char_def HEADER_ESCAPE_CHARS_def byte_defs)
qed

lemma utf8_bytes_escapes:
  "utf8_bytes [0x5C, 0x6E] = [BACKSLASH, CHR ''n'']" "utf8_bytes [0x5C, 0x63] = [BACKSLASH, CHR ''c'']"
  "utf8_bytes [0x5C, 0x5C] = [BACKSLASH, BACKSLASH]" "utf8_bytes [10] = [NEWLINE]"
  "utf8_bytes [58] = [COLON]" "utf8_bytes [92] = [BACKSLASH]"
  by code_simp+

lemma strip_cr_other: "c \<noteq> 13 \<Longrightarrow> strip_cr [c] = [c]" and strip_cr_carriage: "strip_cr [13] = []"
  by (simp_all add: strip_cr_def byte_defs)

lemmas escape_evals = utf8_bytes_escapes strip_cr_other strip_cr_carriage HEADER_UNESCAPE_CHARS_def

lemma header_loop_escape_char:
  assumes "ready st" "encodable_char c"
  shows "\<exists>st'. header_loop st (utf8_bytes (escape_char c)) = Some st' \<and> ready st' \<and>
           extended (utf8_bytes (strip_cr [c])) st st'"
proof (cases c rule: escape_char_cases)
  case newline
  with header_loop_escaped_byte [OF assms(1), of "CHR ''n''" NEWLINE] show ?thesis
    by (simp add: escape_evals COLON_def del: header_loop.simps)
next
  case colon
  with header_loop_escaped_byte [OF assms(1), of "CHR ''c''" COLON] show ?thesis
    by (simp add: escape_evals COLON_def del: header_loop.simps)
next
  case backslash
  with header_loop_escaped_byte [OF assms(1), of BACKSLASH BACKSLASH] show ?thesis
    by (simp add: escape_evals byte_defs del: header_loop.simps)
next
  case carriage
  with assms(1) show ?thesis by (simp add: strip_cr_def byte_defs extended_Nil)
next
  case plain
  have "b \<in> set (utf8_bytes [c]) \<Longrightarrow> b \<noteq> COLON \<and> b \<noteq> BACKSLASH" for b
    using utf8_bytes_ascii [of "[c]" b] plain(1) assms(2)
    by (auto simp: encodable_def byte_defs)
  with plain header_loop_plain [OF assms(1), of "utf8_bytes [c]"] show ?thesis
    by (auto simp: strip_cr_other)
qed

lemma header_loop_escape:
  assumes "ready st" "encodable s"
  shows "\<exists>st'. header_loop st (utf8_bytes (escape s)) = Some st' \<and> ready st' \<and>
           extended (utf8_bytes (strip_cr s)) st st'"
  using assms
proof (induction s arbitrary: st)
  case Nil
  then show ?case by (simp add: strip_cr_def extended_Nil)
next
  case (Cons c s)
  then obtain st1 where st1: "header_loop st (utf8_bytes (escape_char c)) = Some st1" "ready st1"
      "extended (utf8_bytes (strip_cr [c])) st st1"
    using header_loop_escape_char [of st c] by (auto simp: encodable_def)
  with Cons obtain st2 where st2: "header_loop st1 (utf8_bytes (escape s)) = Some st2" "ready st2"
      "extended (utf8_bytes (strip_cr s)) st1 st2"
    by (auto simp: encodable_def)
  have "strip_cr (c # s) = strip_cr [c] @ strip_cr s" by (simp add: strip_cr_def)
  with st1 st2 extended_append [OF st1(3) st2(3)] show ?case
    by (simp add: escape_Cons header_loop_append)
qed

lemma encodable_append [simp]: "encodable (s @ t) \<longleftrightarrow> encodable s \<and> encodable t"
  by (simp add: encodable_def)

lemma encodable_escape: "encodable s \<Longrightarrow> encodable (escape s)"
proof (induction s)
  case (Cons c s)
  have "encodable (escape_char c)"
    using Cons.prems by (cases c rule: escape_char_cases) (auto simp: encodable_def encodable_char_def surrogate_def)
  with Cons show ?case by (simp add: escape_Cons) (simp add: encodable_def)
qed simp

lemma encodable_strip_cr: "encodable s \<Longrightarrow> encodable (strip_cr s)"
  by (auto simp: encodable_def strip_cr_def list_all_iff)

theorem parse_header_escape:
  assumes "encodable k" "encodable v"
  shows "parse_header (utf8_bytes (escape k) @ [COLON] @ utf8_bytes (escape v)) = Some (strip_cr k, strip_cr v)"
proof -
  have "ready header_init" by (simp add: ready_def header_init_def)
  with assms(1) obtain st1 where st1: "header_loop header_init (utf8_bytes (escape k)) = Some st1"
      "ready st1" "extended (utf8_bytes (strip_cr k)) header_init st1"
    using header_loop_escape by blast
  let ?st2 = "st1\<lparr>key_parsed := True, hs_previous_byte := Some COLON\<rparr>"
  have k: "key_buffer st1 = utf8_bytes (strip_cr k)" "value_buffer st1 = []" "\<not> key_parsed st1"
    using st1(3) by (simp_all add: extended_def header_init_def)
  have "ready ?st2" by (simp add: ready_def byte_defs)
  with assms(2) obtain st3 where st3: "header_loop ?st2 (utf8_bytes (escape v)) = Some st3"
      "extended (utf8_bytes (strip_cr v)) ?st2 st3"
    using header_loop_escape by blast
  have "header_loop header_init (utf8_bytes (escape k) @ [COLON] @ utf8_bytes (escape v)) = Some st3"
    using st1(1) st3(1) k(3) by (simp add: header_loop_append header_byte_def)
  then show ?thesis
    using k st3(2) assms
    by (simp add: parse_header_def extended_def decode_utf8_bytes encodable_strip_cr)
qed

section \<open>Lines, headers and bodies of one frame\<close>

definition line_byte :: "byte \<Rightarrow> bool" where
  "line_byte b \<longleftrightarrow> b \<noteq> NULL \<and> b \<noteq> NEWLINE"

definition idle :: "frame_parser \<Rightarrow> bool" where
  "idle p \<longleftrightarrow> reset p = p \<and> previous_byte p \<noteq> Some CARRIAGE"

lemma idle_simps:
  assumes "idle p"
  shows "current_buf p = []" "headers_processed p = False" "command p = None"
    "parsed_headers p = []" "content_length p = None" "previous_byte p \<noteq> Some CARRIAGE"
  using assms reset_simps [of p] by (auto simp: idle_def)

lemma idle_init: "idle FrameParser_init"
  by (simp add: idle_def FrameParser_init_def reset_def)

lemma idle_reset: "b \<noteq> CARRIAGE \<Longrightarrow> idle ((reset p)\<lparr>previous_byte := Some b\<rparr>)"
  by (simp add: idle_def reset_def)

lemma feed_line:
  assumes "\<not> headers_processed p" "list_all line_byte bs"
  shows "feed parse_byte p bs =
     ([], Inr (p\<lparr>current_buf := current_buf p @ bs,
                 previous_byte := (if bs = [] then previous_byte p else Some (last bs))\<rparr>))"
  using assms
proof (induction bs arbitrary: p)
  case (Cons b bs)
  let ?p = "p\<lparr>current_buf := current_buf p @ [b], previous_byte := Some b\<rparr>"
  have "parse_byte p b = ([], Inr ?p)"
    using Cons.prems by (simp add: parse_byte_def line_byte_def)
  moreover from Cons have "feed parse_byte ?p bs =
     ([], Inr (?p\<lparr>current_buf := current_buf ?p @ bs,
                 previous_byte := (if bs = [] then previous_byte ?p else Some (last bs))\<rparr>))"
    by (intro Cons.IH) simp_all
  ultimately show ?case by simp
qed simp

lemma feed_command_line:
  assumes "idle p" and c: "map_of COMMANDS_TO_FRAMES c = Some t" "list_all line_byte c" "last c \<noteq> CARRIAGE"
  shows "feed parse_byte p (c @ [NEWLINE]) =
     ([], Inr (p\<lparr>command := Some c, previous_byte := Some NEWLINE\<rparr>))"
proof -
  have ne: "c \<noteq> []" using c(1) commands_nonempty by auto
  have "feed parse_byte p c = ([], Inr (p\<lparr>current_buf := c, previous_byte := Some (last c)\<rparr>))"
    using feed_line [of p c] assms ne by (simp add: idle_simps)
  moreover have "parse_byte (p\<lparr>current_buf := c, previous_byte := Some (last c)\<rparr>) NEWLINE =
      ([], Inr (p\<lparr>command := Some c, previous_byte := Some NEWLINE\<rparr>))"
    using assms ne
    by (simp add: parse_byte_def handle_newline_byte_def process_command_def idle_simps byte_defs)
  ultimately show ?thesis by simp
qed

definition in_headers :: "bytes \<Rightarrow> frame_parser \<Rightarrow> bool" where
  "in_headers c p \<longleftrightarrow> command p = Some c \<and> c \<noteq> [] \<and> current_buf p = [] \<and> \<not> headers_processed p \<and>
     previous_byte p \<noteq> Some CARRIAGE"

text \<open>The effect of one accepted header on the parser, and on the length it expects.\<close>

definition announce :: "int option \<Rightarrow> pystr \<Rightarrow> pystr \<Rightarrow> int option" where
  "announce cl k v =
     (if is_content_length k then (case py_int v of None \<Rightarrow> cl | Some n \<Rightarrow> Some n) else cl)"

fun announced :: "int option \<Rightarrow> headers \<Rightarrow> int option" where
  "announced cl [] = cl"
| "announced cl ((k, v) # h) = announced (announce cl k v) h"

lemma feed_header_line:
  assumes p: "in_headers c p"
    and line: "line \<noteq> []" "list_all line_byte line" "last line \<noteq> CARRIAGE" "parse_header line = Some (k, v)"
    and fresh: "k \<notin> fst ` set (parsed_headers p)"
  shows "feed parse_byte p (line @ [NEWLINE]) =
     ([], Inr (p\<lparr>parsed_headers := parsed_headers p @ [(k, v)],
                 content_length := announce (content_length p) k v,
                 previous_byte := Some NEWLINE\<rparr>))"
proof -
  let ?p = "p\<lparr>current_buf := line, previous_byte := Some (last line)\<rparr>"
  have "feed parse_byte p line = ([], Inr ?p)"
    using feed_line [of p line] p line by (simp add: in_headers_def)
  moreover have "parse_byte ?p NEWLINE =
      ([], Inr (p\<lparr>parsed_headers := parsed_headers p @ [(k, v)],
                 content_length := announce (content_length p) k v,
                 previous_byte := Some NEWLINE\<rparr>))"
    using p line fresh
    by (auto simp: parse_byte_def handle_newline_byte_def process_header_def in_headers_def byte_defs
        Let_def dict_append_new announce_def split: option.splits)
  ultimately show ?thesis by simp
qed

text \<open>Strings whose header text survives: encodable, without NUL and carriage return.\<close>

definition clean :: "pystr \<Rightarrow> bool" where
  "clean s \<longleftrightarrow> encodable s \<and> of_char NULL \<notin> set s \<and> of_char CARRIAGE \<notin> set s"

lemma strip_cr_clean: "clean s \<Longrightarrow> strip_cr s = s"
  by (auto simp: clean_def strip_cr_def intro: filter_True)

lemma escape_set:
  "c \<in> set (escape s) \<Longrightarrow> c \<noteq> 10 \<and> c \<noteq> 13 \<and> c \<noteq> 58 \<and> (c \<in> set s \<or> c \<in> {0x5C, 0x6E, 0x63})"
proof (induction s)
  case (Cons a s)
  then show ?case by (cases a rule: escape_char_cases) (auto simp: escape_Cons)
qed simp

lemma escaped_line_bytes:
  assumes "clean s" "b \<in> set (utf8_bytes (escape s))"
  shows "line_byte b \<and> b \<noteq> CARRIAGE"
proof -
  have "of_char b \<in> set (escape s)" if "of_char b < (0x80::nat)"
    using that assms encodable_escape utf8_bytes_ascii by (simp add: clean_def)
  then show ?thesis
    using escape_set [of "of_char b" s] assms(1)
    by (auto simp: line_byte_def clean_def byte_defs)
qed

definition header_bytes :: "pystr \<Rightarrow> pystr \<Rightarrow> bytes" where
  "header_bytes k v = utf8_bytes (escape k) @ [COLON] @ utf8_bytes (escape v)"

lemma utf8_bytes_ascii_char: "of_char b < (0x80::nat) \<Longrightarrow> utf8_bytes [of_char b] = [b]"
  by (simp add: utf8_bytes_def utf8_char_def)

lemma dump_header_clean:
  assumes "encodable k" "encodable v"
  shows "dump_header k v = Inr (header_bytes k v @ [NEWLINE])"
proof -
  have "encodable [of_char COLON]" "encodable [of_char NEWLINE]"
    by (simp_all add: encodable_def encodable_char_def surrogate_def byte_defs)
  with assms encode_utf8_bytes [of "escape k @ [of_char COLON] @ escape v @ [of_char NEWLINE]"]
  have "encode (escape k @ [of_char COLON] @ escape v @ [of_char NEWLINE]) =
      Some (utf8_bytes (escape k @ [of_char COLON] @ escape v @ [of_char NEWLINE]))"
    by (metis encodable_append encodable_escape)
  moreover have "utf8_bytes [of_char COLON] = [COLON]" "utf8_bytes [of_char NEWLINE] = [NEWLINE]"
    by (rule utf8_bytes_ascii_char; simp add: byte_defs)+
  ultimately show ?thesis
    unfolding dump_header_def header_line_def header_bytes_def
    by (simp only: utf8_bytes_append option.case append_assoc)
qed

lemma header_bytes_line:
  assumes "clean k" "clean v"
  shows "header_bytes k v \<noteq> []" "list_all line_byte (header_bytes k v)"
    "last (header_bytes k v) \<noteq> CARRIAGE" "parse_header (header_bytes k v) = Some (k, v)"
proof -
  have "b \<in> set (header_bytes k v) \<Longrightarrow> line_byte b \<and> b \<noteq> CARRIAGE" for b
    using escaped_line_bytes assms by (auto simp: header_bytes_def line_byte_def byte_defs)
  moreover show ne: "header_bytes k v \<noteq> []" by (simp add: header_bytes_def)
  ultimately show "list_all line_byte (header_bytes k v)" "last (header_bytes k v) \<noteq> CARRIAGE"
    using last_in_set [OF ne] by (auto simp: list_all_iff)
  show "parse_header (header_bytes k v) = Some (k, v)"
    using parse_header_escape [of k v] strip_cr_clean assms by (simp add: clean_def header_bytes_def)
qed

definition clean_headers :: "headers \<Rightarrow> bool" where
  "clean_headers h \<longleftrightarrow> (\<forall>(k, v) \<in> set h. clean k \<and> clean v)"

lemma feed_headers:
  assumes "in_headers c p" "clean_headers h" "dict_wf (parsed_headers p @ h)"
  shows "\<exists>b. dump_headers dump_header h = Inr b \<and>
     (\<exists>p'. feed parse_byte p b = ([], Inr p') \<and> in_headers c p' \<and>
        parsed_headers p' = parsed_headers p @ h \<and> content_length p' = announced (content_length p) h)"
  using assms
proof (induction h arbitrary: p)
  case Nil
  then show ?case by simp
next
  case (Cons kv h)
  obtain k v where kv: "kv = (k, v)" by force
  with Cons.prems have cl: "clean k" "clean v" "clean_headers h" by (auto simp: clean_headers_def)
  let ?p1 = "p\<lparr>parsed_headers := parsed_headers p @ [(k, v)],
                 content_length := announce (content_length p) k v,
                 previous_byte := Some NEWLINE\<rparr>"
  have "k \<notin> fst ` set (parsed_headers p)" using Cons.prems(3) kv by auto
  then have 1: "feed parse_byte p (header_bytes k v @ [NEWLINE]) = ([], Inr ?p1)"
    using feed_header_line [OF Cons.prems(1) header_bytes_line [OF cl(1,2)]] by simp
  have "in_headers c ?p1" using Cons.prems(1) by (simp add: in_headers_def byte_defs)
  with Cons.IH [of ?p1] cl Cons.prems(3) kv obtain b p' where
    "dump_headers dump_header h = Inr b" "feed parse_byte ?p1 b = ([], Inr p')" "in_headers c p'"
    "parsed_headers p' = parsed_headers p @ [(k, v)] @ h"
    "content_length p' = announced (announce (content_length p) k v) h"
    by auto
  moreover have "dump_header k v = Inr (header_bytes k v @ [NEWLINE])"
    using dump_header_clean cl by (simp add: clean_def)
  ultimately show ?case using 1 kv feed_append_Inr [OF 1, of b] by simp
qed

lemma parse_byte_blank_line:
  assumes "in_headers c p"
  shows "parse_byte p NEWLINE = ([], Inr (p\<lparr>headers_processed := True, previous_byte := Some NEWLINE\<rparr>))"
proof -
  have "parse_header [] = None" by (simp add: parse_header_def header_init_def)
  with assms show ?thesis
    by (simp add: parse_byte_def handle_newline_byte_def process_header_def in_headers_def byte_defs)
qed

text \<open>How the body is delimited: by its announced length, or by the first NUL.\<close>

definition delimited :: "int option \<Rightarrow> bytes \<Rightarrow> bool" where
  "delimited cl body \<longleftrightarrow>
     (case cl of None \<Rightarrow> NULL \<notin> set body | Some n \<Rightarrow> n = int (length body))"

lemma feed_body:
  assumes "headers_processed p" "command p = Some c" "c \<noteq> []"
    "delimited (content_length p) (current_buf p @ body)"
  shows "feed parse_byte p body =
    ([], Inr (p\<lparr>current_buf := current_buf p @ body,
                previous_byte := (if body = [] then previous_byte p else Some (last body))\<rparr>))"
  using assms
proof (induction body arbitrary: p)
  case (Cons b body)
  let ?p = "p\<lparr>current_buf := current_buf p @ [b], previous_byte := Some b\<rparr>"
  have "parse_byte p b = ([], Inr ?p)"
    using Cons.prems
    by (auto simp: parse_byte_def handle_null_byte_def handle_body_byte_def delimited_def split: option.splits)
  moreover have "feed parse_byte ?p body = ([], Inr (?p\<lparr>current_buf := current_buf ?p @ body,
                previous_byte := (if body = [] then previous_byte ?p else Some (last body))\<rparr>))"
    using Cons.prems by (intro Cons.IH) simp_all
  ultimately show ?case by simp
qed simp

lemma parse_byte_end:
  assumes "headers_processed p" "command p = Some c" "map_of COMMANDS_TO_FRAMES c = Some t"
    "delimited (content_length p) (current_buf p)"
  shows "parse_byte p NULL =
    ([make_frame t (parsed_headers p) (current_buf p)], Inr ((reset p)\<lparr>previous_byte := Some NULL\<rparr>))"
proof -
  have "c \<noteq> []" using assms(3) commands_nonempty by auto
  with assms show ?thesis
    by (auto simp: parse_byte_def handle_null_byte_def make_frame_from_parts_def delimited_def split: option.splits)
qed

section \<open>Round trips\<close>

lemma commands_table:
  "list_all (\<lambda>(c, t). list_all line_byte c \<and> last c \<noteq> CARRIAGE \<and> map_of COMMANDS_TO_FRAMES c = Some t)
     COMMANDS_TO_FRAMES"
  by code_simp

lemma commands_inverse:
  assumes "map_of FRAMES_TO_COMMANDS t = Some c"
  shows "map_of COMMANDS_TO_FRAMES c = Some t" "list_all line_byte c" "last c \<noteq> CARRIAGE"
proof -
  have "(c, t) \<in> set COMMANDS_TO_FRAMES"
    using map_of_SomeD [OF assms] by (auto simp: FRAMES_TO_COMMANDS_def)
  with commands_table show "map_of COMMANDS_TO_FRAMES c = Some t" "list_all line_byte c" "last c \<noteq> CARRIAGE"
    by (auto simp: list_all_iff)
qed

lemma commands_total: "t \<noteq> THeartbeat \<Longrightarrow> \<exists>c. map_of FRAMES_TO_COMMANDS t = Some c"
  by (cases t) (simp_all add: FRAMES_TO_COMMANDS_def COMMANDS_TO_FRAMES_def)

text \<open>
  The frames that the wire format carries faithfully: not a \<open>CONNECT\<close> (its headers are
  written unescaped), clean header text, and a body that its headers delimit.
\<close>

definition dumpable :: "frame \<Rightarrow> bool" where
  "dumpable f \<longleftrightarrow>
     (case headers_of f of
        None \<Rightarrow> False
      | Some h \<Rightarrow> type_of f \<noteq> TConnect \<and> dict_wf h \<and> clean_headers h \<and>
          delimited (announced None (sort h)) (body_of f))"

text \<open>The frame with its headers in the order in which they are written.\<close>

definition sorted_frame :: "frame \<Rightarrow> frame" where
  "sorted_frame f =
     (case headers_of f of
        None \<Rightarrow> f | Some h \<Rightarrow> make_frame (type_of f) (sort h) (body_of f))"

lemma sorted_frame_eq: "dumpable f \<Longrightarrow> frame_eq f (sorted_frame f)"
  by (cases f) (auto simp: dumpable_def sorted_frame_def frame_eq_def map_of_sort)

lemma body_of_bodyless: "type_of f \<notin> set FRAMES_WITH_BODY \<Longrightarrow> body_of f = []"
  by (cases f) (simp_all add: FRAMES_WITH_BODY_def)

lemma headers_of_type: "headers_of f = Some h \<Longrightarrow> type_of f \<noteq> THeartbeat"
  by (cases f) simp_all

text \<open>From the blank line to the end of the frame.\<close>

lemma feed_frame_end:
  assumes p: "in_headers c p" and c: "map_of COMMANDS_TO_FRAMES c = Some t"
    and d: "delimited (content_length p) body"
  shows "\<exists>p'. feed parse_byte p ([NEWLINE] @ body @ [NULL]) =
    ([make_frame t (parsed_headers p) body], Inr p') \<and> idle p'"
proof -
  let ?p3 = "p\<lparr>headers_processed := True, previous_byte := Some NEWLINE\<rparr>"
  have 3: "feed parse_byte p [NEWLINE] = ([], Inr ?p3)"
    using parse_byte_blank_line [OF p] by simp
  have buf: "current_buf ?p3 = []" "command ?p3 = Some c" "c \<noteq> []"
    using p by (simp_all add: in_headers_def)
  let ?p4 = "?p3\<lparr>current_buf := body,
     previous_byte := (if body = [] then previous_byte ?p3 else Some (last body))\<rparr>"
  have 4: "feed parse_byte ?p3 body = ([], Inr ?p4)"
    using feed_body [of ?p3 c body] buf d by simp
  have 5: "feed parse_byte ?p4 [NULL] =
      ([make_frame t (parsed_headers p) body], Inr ((reset ?p4)\<lparr>previous_byte := Some NULL\<rparr>))"
    using parse_byte_end [of ?p4 c t] buf c d by simp
  have "idle ((reset ?p4)\<lparr>previous_byte := Some NULL\<rparr>)"
    by (rule idle_reset) (simp add: byte_defs)
  then show ?thesis
    by (simp only: feed_append_Inr [OF 3] feed_append_Inr [OF 4] 5) simp
qed

lemma in_headers_command:
  assumes "idle p" and "map_of COMMANDS_TO_FRAMES c = Some t"
  shows "in_headers c (p\<lparr>command := Some c, previous_byte := Some NEWLINE\<rparr>)"
  using assms commands_nonempty by (auto simp: in_headers_def idle_simps byte_defs)

lemma feed_dump_frame:
  assumes "idle p" "dumpable f"
  shows "\<exists>b p'. dump_frame f = Inr b \<and> feed parse_byte p b = ([sorted_frame f], Inr p') \<and> idle p'"
proof -
  from assms(2) obtain h where h: "headers_of f = Some h" "type_of f \<noteq> TConnect" "dict_wf h"
      "clean_headers h" "delimited (announced None (sort h)) (body_of f)"
    by (auto simp: dumpable_def split: option.splits)
  from headers_of_type [OF h(1)] obtain c where c: "map_of FRAMES_TO_COMMANDS (type_of f) = Some c"
    using commands_total by blast
  note cc = commands_inverse [OF c]
  let ?p1 = "p\<lparr>command := Some c, previous_byte := Some NEWLINE\<rparr>"
  have 1: "feed parse_byte p (c @ [NEWLINE]) = ([], Inr ?p1)"
    using feed_command_line [OF assms(1) cc] .
  have "clean_headers (sort h)" "dict_wf (parsed_headers ?p1 @ sort h)"
    using h assms(1) by (simp_all add: clean_headers_def idle_simps dict_wf_sort)
  then obtain hb p2 where 2: "dump_headers dump_header (sort h) = Inr hb"
      "feed parse_byte ?p1 hb = ([], Inr p2)" "in_headers c p2"
      "parsed_headers p2 = sort h" "content_length p2 = announced None (sort h)"
    using feed_headers [OF in_headers_command [OF assms(1) cc(1)], of "sort h"] assms(1)
    by (auto simp: idle_simps)
  from feed_frame_end [OF 2(3) cc(1), of "body_of f"] 2(4,5) h(5) obtain p' where
    3: "feed parse_byte p2 ([NEWLINE] @ body_of f @ [NULL]) =
      ([make_frame (type_of f) (sort h) (body_of f)], Inr p')" "idle p'"
    by auto
  let ?b = "(c @ [NEWLINE]) @ hb @ ([NEWLINE] @ body_of f @ [NULL])"
  have "dump_frame f = Inr ?b"
    using h(1,2) c 2(1) body_of_bodyless [of f] by (auto simp: dump_frame_def)
  moreover have "feed parse_byte p ?b = ([sorted_frame f], Inr p')"
    by (simp only: feed_append_Inr [OF 1] feed_append_Inr [OF 2(2)] 3 sorted_frame_def h(1)) simp
  ultimately show ?thesis using 3(2) by blast
qed

text \<open>A stream as the two ends see it: frames and heart-beats, one after the other.\<close>

definition wire :: "frame \<Rightarrow> bytes" where
  "wire f = (case dump_frame f of Inl _ \<Rightarrow> [NEWLINE] | Inr b \<Rightarrow> b)"

lemma feed_heartbeat:
  assumes "idle p"
  shows "feed parse_byte p [NEWLINE] = ([HeartbeatFrame], Inr (p\<lparr>previous_byte := Some NEWLINE\<rparr>))"
    and "idle (p\<lparr>previous_byte := Some NEWLINE\<rparr>)"
proof -
  show "feed parse_byte p [NEWLINE] = ([HeartbeatFrame], Inr (p\<lparr>previous_byte := Some NEWLINE\<rparr>))"
    using assms by (simp add: parse_byte_def handle_newline_byte_def idle_simps byte_defs)
  have "NEWLINE \<noteq> CARRIAGE" by (simp add: byte_defs)
  then show "idle (p\<lparr>previous_byte := Some NEWLINE\<rparr>)"
    using assms idle_reset [of NEWLINE p] unfolding idle_def by metis
qed

lemma feed_wire:
  assumes "idle p" "f = HeartbeatFrame \<or> dumpable f"
  shows "\<exists>p'. feed parse_byte p (wire f) = ([sorted_frame f], Inr p') \<and> idle p'"
proof (cases "f = HeartbeatFrame")
  case True
  then have "wire f = [NEWLINE]" "sorted_frame f = HeartbeatFrame"
    by (simp_all add: wire_def dump_frame_def sorted_frame_def)
  with feed_heartbeat [OF assms(1)] show ?thesis by metis
next
  case False
  with assms feed_dump_frame [OF assms(1), of f] show ?thesis by (auto simp: wire_def)
qed

lemma feed_wires:
  assumes "idle p" "\<forall>f \<in> set fs. f = HeartbeatFrame \<or> dumpable f"
  shows "\<exists>p'. feed parse_byte p (concat (map wire fs)) = (map sorted_frame fs, Inr p') \<and> idle p'"
  using assms
proof (induction fs arbitrary: p)
  case (Cons f fs)
  from Cons.prems obtain p1 where 1: "feed parse_byte p (wire f) = ([sorted_frame f], Inr p1)" "idle p1"
    using feed_wire [of p f] by auto
  from Cons.IH [OF 1(2)] Cons.prems obtain p2 where
    "feed parse_byte p1 (concat (map wire fs)) = (map sorted_frame fs, Inr p2)" "idle p2"
    by auto
  with feed_append_Inr [OF 1(1)] show ?case by simp
qed simp


lemma sorted_frames_eq:
  assumes "\<forall>f \<in> set fs. f = HeartbeatFrame \<or> dumpable f"
  shows "list_all2 frame_eq fs (map sorted_frame fs)"
  using assms sorted_frame_eq
  by (auto simp: list_all2_map2 intro!: list.rel_refl_strong) (auto simp: sorted_frame_def frame_eq_def)

section \<open>Built SEND frames are dumpable\<close>

lemma le_ascii_lower: "s \<le> ascii_lower s"
  by (induction s) (auto simp: ascii_lower_def)

lemma content_length_last: "is_content_length k \<Longrightarrow> k \<le> lit ''content-length''"
  using le_ascii_lower [of k] by (simp add: is_content_length_def)

lemma announced_none: "\<forall>(k, v) \<in> set h. \<not> is_content_length k \<Longrightarrow> announced cl h = cl"
  by (induction cl h rule: announced.induct) (auto simp: announce_def)

lemma announced_append: "announced cl (xs @ ys) = announced (announced cl xs) ys"
  by (induction cl xs rule: announced.induct) auto

text \<open>
  Among the spellings of \<open>content-length\<close> the all-lower-case one sorts last, so it is the one
  that the parser ends up with.
\<close>

lemma announced_sorted:
  assumes "dict_wf h" "map_of h (lit ''content-length'') = Some v" "py_int v = Some n"
  shows "announced cl (sort h) = Some n"
proof -
  let ?cl = "lit ''content-length''"
  have "(?cl, v) \<in> set (sort h)" using assms(2) by (simp add: map_of_SomeD)
  then obtain xs ys where xy: "sort h = xs @ (?cl, v) # ys" by (meson split_list)
  have srt: "sorted (xs @ (?cl, v) # ys)" using xy by (metis sorted_sort)
  have dst: "distinct (map fst (xs @ (?cl, v) # ys))" using dict_wf_sort [OF assms(1)] xy by simp
  have ys: "?cl < k" if "(k, w) \<in> set ys" for k w
  proof -
    have "(?cl, v) \<le> (k, w)" "k \<noteq> ?cl"
      using that srt dst by (auto simp: sorted_append image_iff)
    then show ?thesis by (auto simp: less_eq_prod_def)
  qed
  have "announced (Some n) ys = Some n"
  proof (rule announced_none, clarify)
    fix k w assume "(k, w) \<in> set ys" "is_content_length k"
    with ys content_length_last show False by (meson leD)
  qed
  moreover have "is_content_length ?cl" by (simp add: is_content_length_def ascii_lower_def lit_def)
  ultimately show ?thesis using assms(3) by (simp add: xy announced_append announce_def)
qed

lemma clean_headers_update:
  "clean_headers h \<Longrightarrow> clean k \<Longrightarrow> clean v \<Longrightarrow> clean_headers (AList.update k v h)"
  by (induction h) (auto simp: clean_headers_def)

lemma clean_names:
  "clean (lit ''destination'')" "clean (lit ''content-length'')" "clean (lit ''content-type'')"
  "clean (lit ''transaction'')"
  by (simp_all add: clean_def lit_def encodable_def encodable_char_def surrogate_def byte_defs)

lemma clean_str_nat: "clean (str_nat n)"
  using str_nat_ascii [of 0 n] str_nat_ascii [of 13 n] by (auto simp: clean_def encodable_str_nat byte_defs)

lemma clean_fill_send_headers:
  assumes "clean_headers d" "clean dest" "\<forall>t. tx = Some t \<longrightarrow> clean t" "\<forall>c. ct = Some c \<longrightarrow> clean c"
  shows "clean_headers (fill_send_headers body dest tx ct acl d)"
  using assms
  by (auto simp: fill_send_headers_def Let_def clean_headers_update clean_names clean_str_nat split: option.splits)

lemma SendFrame_dumpable:
  assumes "dict_wf h" "clean_headers h" "map_of h (lit ''content-length'') = Some (str_nat (length body))"
    "length body < 2 ^ 63"
  shows "dumpable (SendFrame h body)"
  using assms announced_sorted [OF assms(1,3) py_int_str_nat [OF assms(4)]]
  by (simp add: dumpable_def delimited_def)

lemmas clean_evals = clean_headers_def clean_def encodable_def encodable_char_def surrogate_def lit_def byte_defs

section \<open>Repeated headers\<close>

definition accept_header :: "pystr \<times> pystr \<Rightarrow> headers \<Rightarrow> headers" where
  "accept_header kv d = (if fst kv \<in> fst ` set d then d else d @ [kv])"

lemma map_of_accept_headers: "map_of (fold accept_header h d) = map_of h ++ map_of d"
proof (induction h arbitrary: d)
  case (Cons kv h)
  then show ?case
    by (cases kv) (auto simp: accept_header_def map_add_def fun_eq_iff fst_image_dom split: option.splits)
qed simp

lemma dict_wf_accept_headers: "dict_wf d \<Longrightarrow> dict_wf (fold accept_header h d)"
  by (induction h arbitrary: d) (auto simp: accept_header_def)

lemma feed_repeated_header_line:
  assumes p: "in_headers c p"
    and line: "line \<noteq> []" "list_all line_byte line" "last line \<noteq> CARRIAGE" "parse_header line = Some (k, v)"
    and seen: "k \<in> fst ` set (parsed_headers p)"
  shows "feed parse_byte p (line @ [NEWLINE]) = ([], Inr (p\<lparr>previous_byte := Some NEWLINE\<rparr>))"
proof -
  let ?p = "p\<lparr>current_buf := line, previous_byte := Some (last line)\<rparr>"
  have "feed parse_byte p line = ([], Inr ?p)"
    using feed_line [of p line] p line by (simp add: in_headers_def)
  moreover have "parse_byte ?p NEWLINE = ([], Inr (p\<lparr>previous_byte := Some NEWLINE\<rparr>))"
    using p line seen
    by (simp add: parse_byte_def handle_newline_byte_def process_header_def in_headers_def byte_defs)
  ultimately show ?thesis by simp
qed

lemma feed_any_headers:
  assumes "in_headers c p" "clean_headers h" "\<forall>(k, v) \<in> set h. \<not> is_content_length k" 
  shows "\<exists>p'. feed parse_byte p (concat (map (\<lambda>(k, v). header_bytes k v @ [NEWLINE]) h)) = ([], Inr p') \<and>
     in_headers c p' \<and> parsed_headers p' = fold accept_header h (parsed_headers p) \<and>
     content_length p' = content_length p"
  using assms
proof (induction h arbitrary: p)
  case (Cons kv h)
  obtain k v where kv: "kv = (k, v)" by force
  with Cons.prems have cl: "clean k" "clean v" "clean_headers h" "\<not> is_content_length k"
      "\<forall>(k, v) \<in> set h. \<not> is_content_length k" by (auto simp: clean_headers_def)
  note line = header_bytes_line [OF cl(1,2)]
  obtain p1 where p1: "feed parse_byte p (header_bytes k v @ [NEWLINE]) = ([], Inr p1)" "in_headers c p1"
      "parsed_headers p1 = accept_header (k, v) (parsed_headers p)" "content_length p1 = content_length p"
    using feed_header_line [OF Cons.prems(1) line] feed_repeated_header_line [OF Cons.prems(1) line] Cons.prems(1) cl(4)
    by (cases "k \<in> fst ` set (parsed_headers p)") (auto simp: accept_header_def announce_def in_headers_def byte_defs)
  from Cons.IH [OF p1(2) cl(3,5)] p1 kv show ?case
    using feed_append_Inr [OF p1(1)] by auto
qed simp

section \<open>Recovery after a broken frame\<close>

text \<open>A NUL outside a body ends whatever came before it.\<close>

lemma parse_byte_null_idle:
  assumes "\<not> headers_processed p"
  shows "\<exists>p'. feed parse_byte p [NULL] = ([], Inr p') \<and> idle p'"
proof -
  have "parse_byte p NULL = ([], Inr ((reset p)\<lparr>previous_byte := Some NULL\<rparr>))"
    using assms by (auto simp: parse_byte_def handle_null_byte_def split: option.splits)
  moreover have "idle ((reset p)\<lparr>previous_byte := Some NULL\<rparr>)"
    by (rule idle_reset) (simp add: byte_defs)
  ultimately show ?thesis by auto
qed

section \<open>CONNECT is not escaped\<close>

lemma header_loop_two_colons:
  "key_parsed st \<Longrightarrow> COLON \<in> set bs \<Longrightarrow> header_loop st bs = None"
proof (induction bs arbitrary: st)
  case (Cons b bs)
  show ?case
  proof (cases "b = COLON")
    case False
    with Cons.prems have "COLON \<in> set bs" by auto
    moreover have "key_parsed st'" if "header_byte st b = Some st'" for st'
      using that Cons.prems(1) False
      by (auto simp: header_byte_def header_extend_def Let_def split: if_splits option.splits)
    ultimately show ?thesis using Cons.IH by (auto split: option.splits)
  qed (use Cons.prems in \<open>simp add: header_byte_def\<close>)
qed simp

lemma header_byte_colon: "header_byte st COLON = Some st' \<Longrightarrow> key_parsed st'"
  by (auto simp: header_byte_def split: if_splits)

lemma parse_header_two_colons: "COLON \<in> set bs \<Longrightarrow> parse_header (as @ COLON # bs) = None"
  using header_byte_colon header_loop_two_colons
  by (auto simp: parse_header_def header_loop_append split: option.splits)

section \<open>Properties of the wire format\<close>

text \<open>Escaping and unescaping are inverse on header text: a header line that \<open>dump_header\<close>
  writes is read back by \<open>parse_header\<close> as the same key and value, less the carriage
  returns that the escaping drops. This covers newlines, colons, backslashes and any
  encodable Unicode text.\<close>

theorem header_roundtrip:
  assumes "encodable k" and "encodable v"
  shows "\<exists>line. dump_header k v = Inr (line @ [NEWLINE]) \<and>
    parse_header line = Some (strip_cr k, strip_cr v)"
  using dump_header_clean [OF assms] parse_header_escape [OF assms]
  by (auto simp: header_bytes_def)

text \<open>C1. End to end: a stream of heart-beats and of frames with clean headers and delimited
  bodies, written by \<open>dump_frame\<close> and delivered in chunks cut anywhere, is parsed into
  exactly those frames, in order, each equal to the one written.\<close>

theorem stream_roundtrip:
  assumes "\<forall>f \<in> set fs. f = HeartbeatFrame \<or> dumpable f" and "concat chunks = concat (map wire fs)"
  shows "\<exists>gs p. feed parse_frames_from_chunk FrameParser_init chunks = (gs, Inr p) \<and>
    list_all2 frame_eq fs gs"
proof -
  from feed_wires [OF idle_init assms(1)] obtain p where
    p: "feed parse_byte FrameParser_init (concat (map wire fs)) = (map sorted_frame fs, Inr p)"
    by blast
  with sorted_frames_eq [OF assms(1)] show ?thesis
    by (simp add: parse_frames_from_chunk_def feed_chunks assms(2))
qed

theorem stream_roundtrip_witness:
  "\<exists>gs p. feed parse_frames_from_chunk FrameParser_init
      [[NEWLINE], take 3 (wire (AckFrame [(lit ''id'', lit ''7'')])),
       drop 3 (wire (AckFrame [(lit ''id'', lit ''7'')]))] = (gs, Inr p) \<and>
    list_all2 frame_eq [HeartbeatFrame, AckFrame [(lit ''id'', lit ''7'')]] gs"
proof -
  let ?fs = "[HeartbeatFrame, AckFrame [(lit ''id'', lit ''7'')]]"
  have "\<not> is_content_length (lit ''id'')"
    by (simp add: is_content_length_def ascii_lower_def lit_def)
  then have "dumpable (AckFrame [(lit ''id'', lit ''7'')])"
    by (simp add: dumpable_def delimited_def announce_def clean_evals)
  then have "\<forall>f \<in> set ?fs. f = HeartbeatFrame \<or> dumpable f" by simp
  then show ?thesis
    by (rule stream_roundtrip) (simp add: wire_def dump_frame_def)
qed

text \<open>Any message that \<open>SendFrame.build\<close> makes with a content length is delivered intact,
  whatever bytes its body holds (NUL included) and whatever spelling of
  \<open>content-length\<close> the caller's headers contain: the entry that \<open>build\<close> writes is the
  one that the parser obeys.\<close>

theorem send_build_roundtrip:
  assumes b: "SendFrame_build H body dest tx ct True headers = (sf, H')"
    and base: "dict_wf (base_headers H headers)" "clean_headers (base_headers H headers)"
    and args: "clean dest" "\<forall>t. tx = Some t \<longrightarrow> clean t" "\<forall>c. ct = Some c \<longrightarrow> clean c"
    and len: "length body < 2 ^ 63"
  shows "\<exists>b p h. dump_frame (send_frame_of H' sf) = Inr b \<and>
    parse_frames_from_chunk FrameParser_init b = ([SendFrame h body], Inr p) \<and>
    frame_eq (send_frame_of H' sf) (SendFrame h body)"
proof -
  let ?h = "fill_send_headers body dest tx ct True (base_headers H headers)"
  have f: "send_frame_of H' sf = SendFrame ?h body"
    using b by (rule SendFrame_build_frame)
  have "dumpable (SendFrame ?h body)"
    using base args len
    by (intro SendFrame_dumpable)
      (simp_all add: dict_wf_fill_send_headers clean_fill_send_headers fill_send_headers_get)
  with feed_dump_frame [OF idle_init this] sorted_frame_eq [OF this] f show ?thesis
    by (auto simp: parse_frames_from_chunk_def sorted_frame_def)
qed

text \<open>Repeated headers: the first value wins. A frame whose header lines repeat a key is
  parsed into a frame that holds the first value of each key.\<close>

theorem repeated_headers_first_wins:
  assumes "map_of FRAMES_TO_COMMANDS t = Some c" and "clean_headers h"
    and "\<forall>(k, v) \<in> set h. \<not> is_content_length k" and "NULL \<notin> set body"
  shows "\<exists>d p. parse_frames_from_chunk FrameParser_init
       (c @ [NEWLINE] @ concat (map (\<lambda>(k, v). header_bytes k v @ [NEWLINE]) h) @ [NEWLINE] @ body @ [NULL])
       = ([make_frame t d body], Inr p) \<and> dict_wf d \<and> map_of d = map_of h"
proof -
  note cc = commands_inverse [OF assms(1)]
  let ?lines = "concat (map (\<lambda>(k, v). header_bytes k v @ [NEWLINE]) h)"
  let ?p1 = "FrameParser_init\<lparr>command := Some c, previous_byte := Some NEWLINE\<rparr>"
  have 1: "feed parse_byte FrameParser_init (c @ [NEWLINE]) = ([], Inr ?p1)"
    using feed_command_line [OF idle_init cc] .
  from feed_any_headers [OF in_headers_command [OF idle_init cc(1)] assms(2,3)] obtain p2 where
    2: "feed parse_byte ?p1 ?lines = ([], Inr p2)" "in_headers c p2"
      "parsed_headers p2 = fold accept_header h []" "content_length p2 = None"
    by (auto simp: idle_simps [OF idle_init])
  from feed_frame_end [OF 2(2) cc(1), of body] assms(4) 2(3,4) obtain p3 where
    3: "feed parse_byte p2 ([NEWLINE] @ body @ [NULL]) =
      ([make_frame t (fold accept_header h []) body], Inr p3)"
    by (auto simp: delimited_def)
  have "parse_frames_from_chunk FrameParser_init ((c @ [NEWLINE]) @ ?lines @ ([NEWLINE] @ body @ [NULL])) =
      ([make_frame t (fold accept_header h []) body], Inr p3)"
    unfolding parse_frames_from_chunk_def
    by (simp only: feed_append_Inr [OF 1] feed_append_Inr [OF 2(1)] 3) simp
  then show ?thesis
    using map_of_accept_headers [of h "[]"] dict_wf_accept_headers [of "[]" h] by auto
qed

text \<open>C30. Error recovery: whatever junk came before, as long as the parser is not inside a body, a
  NUL drops the broken frame and everything after it is parsed as if from the start.\<close>

theorem resynchronises_at_null:
  assumes "parse_frames_from_chunk FrameParser_init junk = (gs, Inr p)" and "\<not> headers_processed p"
    and "\<forall>f \<in> set fs. f = HeartbeatFrame \<or> dumpable f"
  shows "\<exists>p'. parse_frames_from_chunk FrameParser_init (junk @ [NULL] @ concat (map wire fs)) =
    (gs @ map sorted_frame fs, Inr p')"
proof -
  from parse_byte_null_idle [OF assms(2)] obtain p1 where
    1: "feed parse_byte p [NULL] = ([], Inr p1)" "idle p1" by blast
  from feed_wires [OF 1(2) assms(3)] obtain p2 where
    2: "feed parse_byte p1 (concat (map wire fs)) = (map sorted_frame fs, Inr p2)" by blast
  have junk: "feed parse_byte FrameParser_init junk = (gs, Inr p)"
    using assms(1) by (simp add: parse_frames_from_chunk_def)
  show ?thesis
    unfolding parse_frames_from_chunk_def
    by (simp only: feed_append_Inr [OF junk] feed_append_Inr [OF 1(1)] 2) simp
qed

theorem resynchronises_at_null_witness:
  "\<exists>p. parse_frames_from_chunk FrameParser_init (''MESS'' @ [NULL] @ concat (map wire [HeartbeatFrame])) =
    ([] @ map sorted_frame [HeartbeatFrame], Inr p)"
proof -
  let ?p = "FrameParser_init\<lparr>current_buf := ''MESS'', previous_byte := Some (CHR ''S'')\<rparr>"
  have "parse_frames_from_chunk FrameParser_init ''MESS'' = ([], Inr ?p)"
    by (simp add: parse_frames_from_chunk_def parse_byte_def FrameParser_init_def byte_defs)
  moreover have "\<not> headers_processed ?p" by (simp add: FrameParser_init_def)
  moreover have "\<forall>f \<in> set [HeartbeatFrame]. f = HeartbeatFrame \<or> dumpable f" by simp
  ultimately show ?thesis by (rule resynchronises_at_null)
qed

text \<open>The headers of a \<open>CONNECT\<close> frame are written without escaping: a value with a colon
  gives a line that the header parser rejects, so the header is lost on a peer that
  parses as this library does.\<close>

theorem connect_header_not_escaped:
  assumes "header_line k v = Inr line" and "of_char COLON \<in> set v"
  shows "\<exists>bs. line = bs @ [NEWLINE] \<and> parse_header bs = None"
proof -
  have e: "encodable (k @ [of_char COLON] @ v @ [of_char NEWLINE])"
    and line: "line = utf8_bytes (k @ [of_char COLON] @ v @ [of_char NEWLINE])"
    using assms(1) by (auto simp: header_line_def encode_def utf8_bytes_def split: if_splits option.splits)
  have c: "utf8_bytes [of_char COLON] = [COLON]" "utf8_bytes [of_char NEWLINE] = [NEWLINE]"
    by (rule utf8_bytes_ascii_char; simp add: byte_defs)+
  have line': "line = utf8_bytes k @ [COLON] @ utf8_bytes v @ [NEWLINE]"
    unfolding line by (simp only: utf8_bytes_append c)
  from assms(2) obtain v1 v2 where "v = v1 @ of_char COLON # v2" by (meson split_list)
  then have "utf8_bytes v = utf8_bytes v1 @ COLON # utf8_bytes v2"
    using c utf8_bytes_Cons [of "of_char COLON" v2] by simp
  then have "COLON \<in> set (utf8_bytes v)" by simp
  from parse_header_two_colons [OF this, of "utf8_bytes k"] show ?thesis
    using line' by (intro exI [of _ "utf8_bytes k @ COLON # utf8_bytes v"]) simp
qed

end
