(* ===== verification/Config.thy ===== *)
theory Config
  imports Py_Text
begin

text \<open>
  \<open>stompman/config.py\<close>: the heart-beat settings and their header, the connection parameters,
  and \<open>ConnectionParameters.from_pydantic_multihost_hosts\<close>, which distributes the
  credentials of a multi-host URL over its hosts.
\<close>

section \<open>Heart-beat\<close>

record Heartbeat =
  will_send_interval_ms :: int
  want_to_receive_interval_ms :: int

definition to_header :: "Heartbeat \<Rightarrow> py_exn + pystr" where
  "to_header hb =
     (case str_int (will_send_interval_ms hb) of
        Inl e \<Rightarrow> Inl e
      | Inr a \<Rightarrow>
          (case str_int (want_to_receive_interval_ms hb) of
             Inl e \<Rightarrow> Inl e
           | Inr b \<Rightarrow> Inr (a @ [0x2C] @ b)))"

definition from_header :: "pystr \<Rightarrow> py_exn + Heartbeat" where
  "from_header header =
     (case split_once 0x2C header of
        None \<Rightarrow> Inl (ValueError ''not enough values to unpack'')
      | Some (first, second) \<Rightarrow>
          (case py_int first of
             None \<Rightarrow> Inl (ValueError ''invalid literal for int()'')
           | Some a \<Rightarrow>
               (case py_int second of
                  None \<Rightarrow> Inl (ValueError ''invalid literal for int()'')
                | Some b \<Rightarrow>
                    Inr \<lparr>will_send_interval_ms = a, want_to_receive_interval_ms = b\<rparr>)))"

section \<open>Connection parameters\<close>

record MultiHostHostLike =
  mh_username :: "pystr option"
  mh_password :: "pystr option"
  mh_host :: "pystr option"
  mh_port :: "int option"

record ConnectionParameters =
  cp_host :: pystr
  cp_port :: int
  cp_login :: pystr
  cp_passcode :: pystr
  cp_ws_uri_path :: "pystr option"
  cp_connect_headers :: headers

definition unescaped_passcode :: "ConnectionParameters \<Rightarrow> pystr" where
  "unescaped_passcode cp = unquote (cp_passcode cp)"

text \<open>The constructor call with the two defaults.\<close>

definition new_parameters :: "pystr \<times> int \<Rightarrow> pystr \<times> pystr \<Rightarrow> ConnectionParameters" where
  "new_parameters hp cred =
     \<lparr>cp_host = fst hp, cp_port = snd hp, cp_login = fst cred, cp_passcode = snd cred,
      cp_ws_uri_path = None, cp_connect_headers = []\<rparr>"

text \<open>The loop over the hosts, with \<open>all_hosts\<close> and \<open>all_credentials\<close> as accumulators.\<close>

fun collect_hosts ::
  "MultiHostHostLike list \<Rightarrow> (pystr \<times> int) list \<Rightarrow> (pystr \<times> pystr) list
     \<Rightarrow> py_exn + (pystr \<times> int) list \<times> (pystr \<times> pystr) list" where
  "collect_hosts [] all_hosts all_credentials = Inr (all_hosts, all_credentials)"
| "collect_hosts (h # hs) all_hosts all_credentials =
     (case mh_host h of
        None \<Rightarrow> Inl (ValueError ''host must be set'')
      | Some host \<Rightarrow>
          (case mh_port h of
             None \<Rightarrow> Inl (ValueError ''port must be set'')
           | Some port \<Rightarrow>
               (case (mh_username h, mh_password h) of
                  (None, Some _) \<Rightarrow> Inl (ValueError ''password is set, username must be set'')
                | (None, None) \<Rightarrow>
                    collect_hosts hs (all_hosts @ [(host, port)]) all_credentials
                | (Some _, None) \<Rightarrow> Inl (ValueError ''username is set, password must be set'')
                | (Some u, Some p) \<Rightarrow>
                    collect_hosts hs (all_hosts @ [(host, port)]) (all_credentials @ [(u, p)]))))"

definition from_pydantic_multihost_hosts ::
  "MultiHostHostLike list \<Rightarrow> py_exn + ConnectionParameters list" where
  "from_pydantic_multihost_hosts hosts =
     (case collect_hosts hosts [] [] of
        Inl e \<Rightarrow> Inl e
      | Inr (all_hosts, all_credentials) \<Rightarrow>
          if length all_credentials = length all_hosts
          then Inr (map (\<lambda>(hp, cred). new_parameters hp cred) (zip all_hosts all_credentials))
          else if length all_credentials = 1
          then Inr (map (\<lambda>hp. new_parameters hp (hd all_credentials)) all_hosts)
          else if length all_credentials = 0
          then Inl (ValueError ''username and password must be set'')
          else Inl (ValueError ''all username-password pairs or only one pair must be set''))"

section \<open>Lemmas\<close>

text \<open>A host entry that the loop accepts: address complete, credentials both or neither.\<close>

definition complete_host :: "MultiHostHostLike \<Rightarrow> bool" where
  "complete_host h \<longleftrightarrow> mh_host h \<noteq> None \<and> mh_port h \<noteq> None \<and>
     (mh_username h = None \<longleftrightarrow> mh_password h = None)"

definition host_address :: "MultiHostHostLike \<Rightarrow> pystr \<times> int" where
  "host_address h = (the (mh_host h), the (mh_port h))"

definition host_credentials :: "MultiHostHostLike \<Rightarrow> (pystr \<times> pystr) list" where
  "host_credentials h =
     (case (mh_username h, mh_password h) of (Some u, Some p) \<Rightarrow> [(u, p)] | _ \<Rightarrow> [])"

lemma collect_hosts_complete:
  "list_all complete_host hs \<Longrightarrow>
   collect_hosts hs as cs = Inr (as @ map host_address hs, cs @ concat (map host_credentials hs))"
  by (induction hs arbitrary: as cs)
    (auto simp: complete_host_def host_address_def host_credentials_def split: option.splits)

lemma collect_hosts_incomplete:
  "\<not> list_all complete_host hs \<Longrightarrow> \<exists>m. collect_hosts hs as cs = Inl (ValueError m)"
  by (induction hs arbitrary: as cs) (auto simp: complete_host_def split: option.splits)

lemma split_once_append:
  "c \<notin> set a \<Longrightarrow> split_once c (a @ [c] @ b) = Some (a, b)"
  by (induction a) auto

lemma str_int_no_comma:
  assumes "str_int i = Inr s" shows "0x2C \<notin> set s"
  using assms str_nat_ascii [of "0x2C" "nat \<bar>i\<bar>"]
  by (auto simp: str_int_def Let_def split: if_splits)

lemma from_header_to_header:
  assumes "to_header hb = Inr s" shows "from_header s = Inr hb"
proof -
  from assms obtain a b where
    ab: "str_int (will_send_interval_ms hb) = Inr a"
      "str_int (want_to_receive_interval_ms hb) = Inr b" "s = a @ [0x2C] @ b"
    by (auto simp: to_header_def split: sum.splits)
  with py_int_str_int str_int_no_comma [OF ab(1)] show ?thesis
    by (simp add: from_header_def split_once_append del: append.simps append_Cons)
qed

interpretation heartbeat_header: partial_codec
  "\<lambda>hb. printable_int (will_send_interval_ms hb) \<and> printable_int (want_to_receive_interval_ms hb)"
  "\<lambda>hb. case to_header hb of Inl _ \<Rightarrow> None | Inr s \<Rightarrow> Some s"
  "\<lambda>s. case from_header s of Inl _ \<Rightarrow> None | Inr hb \<Rightarrow> Some hb"
proof unfold_locales
  fix hb :: Heartbeat
  assume "printable_int (will_send_interval_ms hb) \<and> printable_int (want_to_receive_interval_ms hb)"
  then obtain a b where "str_int (will_send_interval_ms hb) = Inr a"
      "str_int (want_to_receive_interval_ms hb) = Inr b"
    using str_int_printable by blast
  then show "\<exists>y. (case to_header hb of Inl _ \<Rightarrow> None | Inr s \<Rightarrow> Some s) = Some y"
    by (simp add: to_header_def)
qed (auto dest: from_header_to_header split: sum.splits)

section \<open>Properties\<close>

text \<open>The heart-beat header round-trips: what \<open>to_header\<close> writes, \<open>from_header\<close> reads back
  as the same two intervals, for all integers that Python can print.\<close>

theorem heartbeat_roundtrip:
  assumes "printable_int (will_send_interval_ms hb)" and "printable_int (want_to_receive_interval_ms hb)"
  shows "\<exists>s. to_header hb = Inr s \<and> from_header s = Inr hb"
  using heartbeat_header.enc_total [of hb] assms from_header_to_header
  by (auto split: sum.splits)

text \<open>C39. Multi-host URLs: the call succeeds exactly when every host entry is complete and the
  number of credential pairs is that of the hosts or one, and then there is one entry per
  host, in order, with that host's address and either its own credentials or the single
  shared pair; in every other case it raises \<open>ValueError\<close>.\<close>

theorem multihost_spec:
  "case from_pydantic_multihost_hosts hosts of
     Inl e \<Rightarrow> (\<exists>m. e = ValueError m) \<and>
       \<not> (list_all complete_host hosts \<and>
          length (concat (map host_credentials hosts)) \<in> {length hosts, 1})
   | Inr ps \<Rightarrow> list_all complete_host hosts \<and>
       map (\<lambda>p. (cp_host p, cp_port p)) ps = map host_address hosts \<and>
       (let creds = concat (map host_credentials hosts) in
        map (\<lambda>p. (cp_login p, cp_passcode p)) ps = creds \<or>
        (\<exists>c. creds = [c] \<and> map (\<lambda>p. (cp_login p, cp_passcode p)) ps = replicate (length hosts) c))"
proof (cases "list_all complete_host hosts")
  case True
  let ?c = "concat (map host_credentials hosts)"
  have "collect_hosts hosts [] [] = Inr (map host_address hosts, ?c)"
    using collect_hosts_complete [OF True, of "[]" "[]"] by simp
  moreover have "map fst (zip (map host_address hosts) ?c) = map host_address hosts \<and>
      map snd (zip (map host_address hosts) ?c) = ?c" if "length ?c = length hosts"
    using that by simp
  moreover obtain u p where "?c = [(u, p)]" if "length ?c = 1"
    by (metis One_nat_def length_0_conv length_Suc_conv surj_pair)
  ultimately show ?thesis
    using True
    by (auto simp: from_pydantic_multihost_hosts_def new_parameters_def Let_def comp_def split_def
        map_replicate_const)
next
  case False
  with collect_hosts_incomplete [OF False, of "[]" "[]"] show ?thesis
    by (auto simp: from_pydantic_multihost_hosts_def)
qed

end
