(* ===== verification/Errors.thy ===== *)
theory Errors
  imports Frames Config
begin

text \<open>
  \<open>stompman/errors.py\<close>: the issues that a connection attempt can end in and the exceptions of
  the library, together with the Python exceptions that pass through it.
\<close>

section \<open>Issues and exceptions\<close>

datatype lost_reason = Reason_exception py_exn | Reason_text string

datatype connection_issue =
    ConnectionConfirmationTimeout int "frame list"
  | UnsupportedProtocolVersion pystr pystr
  | ConnectionLostOnLifespanEnter
  | AllServersUnavailable "ConnectionParameters list" int

text \<open>\<open>StompProtocolConnectionIssue\<close> is the first two of \<open>AnyConnectionIssue\<close>.\<close>

fun StompProtocolConnectionIssue :: "connection_issue \<Rightarrow> bool" where
  "StompProtocolConnectionIssue (ConnectionConfirmationTimeout _ _) = True"
| "StompProtocolConnectionIssue (UnsupportedProtocolVersion _ _) = True"
| "StompProtocolConnectionIssue ConnectionLostOnLifespanEnter = False"
| "StompProtocolConnectionIssue (AllServersUnavailable _ _) = False"

text \<open>
  How a coroutine can end other than by returning: a Python exception or one of the
  library's errors.
\<close>

datatype exn =
    Raised py_exn
  | ConnectionLostError lost_reason
  | FailedAllConnectAttemptsError int "connection_issue list"
  | FailedAllWriteAttemptsError int

text \<open>Exceptions that \<open>except Exception\<close> does not catch.\<close>

fun base_exception :: "exn \<Rightarrow> bool" where
  "base_exception (Raised CancelledError) = True"
| "base_exception (Raised (SystemExit _)) = True"
| "base_exception _ = False"

end
