(* ===== verification/Coroutines.thy ===== *)
theory Coroutines
  imports Errors
begin

text \<open>
  Coroutines. An \<open>async def\<close> of the program runs without interruption up to an \<open>await\<close> that
  suspends; there any other task may run, and when the task is resumed it goes on in whatever
  state it finds, or it is cancelled. A coroutine is therefore a tree: it ends, acts on the
  shared state, or waits.

  Two readings of the same tree are given. \<open>run\<close> executes a coroutine alone, which is what the
  functional properties are about. \<open>pool_step\<close> interleaves any number of tasks at their
  suspension points, with cancellation at each of them; \<open>rg\<close> is a rely-guarantee judgement on
  coroutines that is sound for it.
\<close>

section \<open>Coroutines\<close>

text \<open>
  \<open>Act f k\<close> updates the state by \<open>f\<close> and goes on as \<open>k\<close> says from the state before.
  \<open>Await g c x\<close> suspends: it can be resumed as \<open>c\<close> in a state in which \<open>g\<close> holds, or be
  cancelled and go on as \<open>x\<close>.
\<close>

datatype ('s, 'a) coro =
    Done "exn + 'a"
  | Act "'s \<Rightarrow> 's" "'s \<Rightarrow> ('s, 'a) coro"
  | Await "'s \<Rightarrow> bool" "('s, 'a) coro" "('s, 'a) coro"

abbreviation ret :: "'a \<Rightarrow> ('s, 'a) coro" where
  "ret x \<equiv> Done (Inr x)"

abbreviation raise :: "exn \<Rightarrow> ('s, 'a) coro" where
  "raise e \<equiv> Done (Inl e)"

abbreviation raise_py :: "py_exn \<Rightarrow> ('s, 'a) coro" where
  "raise_py e \<equiv> Done (Inl (Raised e))"

definition get :: "('s \<Rightarrow> 'a) \<Rightarrow> ('s, 'a) coro" where
  "get f = Act id (\<lambda>s. ret (f s))"

definition modify :: "('s \<Rightarrow> 's) \<Rightarrow> ('s, unit) coro" where
  "modify f = Act f (\<lambda>_. ret ())"

text \<open>Suspend until \<open>g\<close> holds; the cancellation arrives as an exception at that point.\<close>

definition await :: "('s \<Rightarrow> bool) \<Rightarrow> ('s, unit) coro" where
  "await g = Await g (ret ()) (raise_py CancelledError)"

abbreviation suspend :: "('s, unit) coro" where
  "suspend \<equiv> await (\<lambda>_. True)"

text \<open>An \<open>await\<close> that is never resumed.\<close>

abbreviation never :: "('s, 'a) coro" where
  "never \<equiv> Await (\<lambda>_. False) (raise_py CancelledError) (raise_py CancelledError)"

text \<open>\<open>x = await m; ... f(x)\<close>.\<close>

primrec bind :: "('s, 'a) coro \<Rightarrow> ('a \<Rightarrow> ('s, 'b) coro) \<Rightarrow> ('s, 'b) coro" where
  "bind (Done r) f = (case r of Inl e \<Rightarrow> raise e | Inr x \<Rightarrow> f x)"
| "bind (Act u k) f = Act u (\<lambda>s. bind (k s) f)"
| "bind (Await g c x) f = Await g (bind c f) (bind x f)"

abbreviation seq :: "('s, unit) coro \<Rightarrow> ('s, 'b) coro \<Rightarrow> ('s, 'b) coro" where
  "seq m k \<equiv> bind m (\<lambda>_. k)"

text \<open>The way a coroutine ends, as a value: the basis of \<open>try\<close>.\<close>

primrec attempt :: "('s, 'a) coro \<Rightarrow> ('s, exn + 'a) coro" where
  "attempt (Done r) = ret r"
| "attempt (Act u k) = Act u (\<lambda>s. attempt (k s))"
| "attempt (Await g c x) = Await g (attempt c) (attempt x)"

text \<open>\<open>try: m except ...: h(error)\<close>; the handler gets every exception of \<open>m\<close> and raises again
  what it does not catch.\<close>

definition handle :: "('s, 'a) coro \<Rightarrow> (exn \<Rightarrow> ('s, 'a) coro) \<Rightarrow> ('s, 'a) coro" where
  "handle m h = bind (attempt m) (\<lambda>r. case r of Inl e \<Rightarrow> h e | Inr x \<Rightarrow> ret x)"

text \<open>\<open>except ConnectionLostError as error: h(error)\<close>.\<close>

definition except_lost ::
  "('s, 'a) coro \<Rightarrow> (lost_reason \<Rightarrow> ('s, 'a) coro) \<Rightarrow> ('s, 'a) coro" where
  "except_lost m h =
     handle m (\<lambda>e. case e of ConnectionLostError r \<Rightarrow> h r | _ \<Rightarrow> raise e)"

text \<open>\<open>try: m finally: c\<close>: an exception of \<open>c\<close> replaces the result of \<open>m\<close>.\<close>

definition finally_do :: "('s, 'a) coro \<Rightarrow> ('s, unit) coro \<Rightarrow> ('s, 'a) coro" where
  "finally_do m c = bind (attempt m) (\<lambda>r. seq c (Done r))"

text \<open>
  \<open>asyncio.wait_for(m, timeout)\<close>. The timer can only fire while \<open>m\<close> is suspended and not ready:
  then \<open>m\<close> is cancelled, runs its clean-up, and its \<open>CancelledError\<close> becomes \<open>TimeoutError\<close>.
\<close>

definition timed_out :: "exn + 'a \<Rightarrow> exn + 'a" where
  "timed_out r = (if r = Inl (Raised CancelledError) then Inl (Raised TimeoutError) else r)"

primrec wait_for :: "('s, 'a) coro \<Rightarrow> ('s, 'a) coro" where
  "wait_for (Done r) = Done r"
| "wait_for (Act u k) = Act u (\<lambda>s. wait_for (k s))"
| "wait_for (Await g c x) =
     Await (\<lambda>_. True)
       (Act id (\<lambda>s. if g s then wait_for c else bind (attempt x) (\<lambda>r. Done (timed_out r))))
       (wait_for x)"

text \<open>\<open>for x in xs: await f(x)\<close>.\<close>

fun for_each :: "('a \<Rightarrow> ('s, unit) coro) \<Rightarrow> 'a list \<Rightarrow> ('s, unit) coro" where
  "for_each f [] = ret ()"
| "for_each f (x # xs) = seq (f x) (for_each f xs)"

section \<open>Running a coroutine alone\<close>

text \<open>The result is \<open>None\<close> when the coroutine waits for something that does not happen.\<close>

primrec run :: "('s, 'a) coro \<Rightarrow> 's \<Rightarrow> (exn + 'a) option \<times> 's" where
  "run (Done r) s = (Some r, s)"
| "run (Act u k) s = run (k s) (u s)"
| "run (Await g c x) s = (if g s then run c s else (None, s))"

named_theorems run_simps "execution of the coroutine combinators"

lemma run_bind [run_simps]:
  "run (bind m f) s =
     (case run m s of
        (None, s') \<Rightarrow> (None, s')
      | (Some (Inl e), s') \<Rightarrow> (Some (Inl e), s')
      | (Some (Inr x), s') \<Rightarrow> run (f x) s')"
  by (induction m arbitrary: s) (auto split: sum.splits)

lemma run_attempt [run_simps]:
  "run (attempt m) s = (case run m s of (None, s') \<Rightarrow> (None, s') | (Some r, s') \<Rightarrow> (Some (Inr r), s'))"
  by (induction m arbitrary: s) auto

lemma run_get [run_simps]: "run (get f) s = (Some (Inr (f s)), s)"
  by (simp add: get_def)

lemma run_modify [run_simps]: "run (modify f) s = (Some (Inr ()), f s)"
  by (simp add: modify_def)

lemma run_await [run_simps]: "run (await g) s = (if g s then (Some (Inr ()), s) else (None, s))"
  by (simp add: await_def)

lemma run_handle [run_simps]:
  "run (handle m h) s =
     (case run m s of
        (None, s') \<Rightarrow> (None, s')
      | (Some (Inl e), s') \<Rightarrow> run (h e) s'
      | (Some (Inr x), s') \<Rightarrow> (Some (Inr x), s'))"
  by (auto simp: handle_def run_simps split: prod.splits option.splits sum.splits)

lemma run_except_lost [run_simps]:
  "run (except_lost m h) s =
     (case run m s of
        (Some (Inl (ConnectionLostError r)), s') \<Rightarrow> run (h r) s'
      | (r, s') \<Rightarrow> (r, s'))"
  by (auto simp: except_lost_def run_simps split: prod.splits option.splits sum.splits exn.splits)

lemma run_finally [run_simps]:
  "run (finally_do m c) s =
     (case run m s of
        (None, s') \<Rightarrow> (None, s')
      | (Some r, s') \<Rightarrow>
          (case run c s' of
             (None, s'') \<Rightarrow> (None, s'')
           | (Some (Inl e), s'') \<Rightarrow> (Some (Inl e), s'')
           | (Some (Inr _), s'') \<Rightarrow> (Some r, s'')))"
  by (auto simp: finally_do_def run_simps split: prod.splits option.splits sum.splits)

text \<open>A coroutine that completes alone does so under \<open>wait_for\<close>.\<close>

lemma run_wait_for_completed:
  "run m s = (Some r, s') \<Longrightarrow> run (wait_for m) s = (Some r, s')"
  by (induction m arbitrary: s) (auto split: if_splits)

text \<open>A coroutine that lets every cancellation through at once. Under \<open>wait_for\<close> it always
  completes: with \<open>TimeoutError\<close> where it would wait for ever.\<close>

primrec cancellable :: "('s, 'a) coro \<Rightarrow> bool" where
  "cancellable (Done r) = True"
| "cancellable (Act u k) = (\<forall>s. cancellable (k s))"
| "cancellable (Await g c x) = (cancellable c \<and> x = raise_py CancelledError)"

lemma cancellable_bind: "cancellable m \<Longrightarrow> (\<And>x. cancellable (f x)) \<Longrightarrow> cancellable (bind m f)"
  by (induction m) (auto split: sum.splits)

lemma cancellable_get: "cancellable (get f)"
  by (simp add: get_def)

lemma cancellable_modify: "cancellable (modify f)"
  by (simp add: modify_def)

lemma cancellable_await: "cancellable (await g)"
  by (simp add: await_def)

lemma cancellable_handle:
  assumes "cancellable m" "\<And>e. cancellable (h e)" "h (Raised CancelledError) = raise_py CancelledError"
  shows "cancellable (handle m h)"
  using assms(1) unfolding handle_def by (induction m) (auto simp: assms(2,3) split: sum.splits)

lemmas cancellable_intros = cancellable_bind cancellable_get cancellable_modify cancellable_await
  cancellable_handle

lemma run_wait_for:
  "cancellable m \<Longrightarrow>
   run (wait_for m) s =
     (case run m s of
        (None, s') \<Rightarrow> (Some (Inl (Raised TimeoutError)), s')
      | (Some r, s') \<Rightarrow> (Some r, s'))"
  by (induction m arbitrary: s) (auto simp: timed_out_def)

section \<open>Rely and guarantee\<close>

text \<open>
  \<open>rg R G c Q s0 s\<close>: from state \<open>s\<close>, in an atomic section that began in \<open>s0\<close>, and with other
  tasks changing the state by \<open>R\<close> while \<open>c\<close> is suspended, every section of \<open>c\<close> that ends in a
  suspension is a \<open>G\<close> step, and at the end of \<open>c\<close> the postcondition holds of the result, the
  beginning of the last section and the final state. Cancellation may come at every
  suspension.
\<close>

primrec rg :: "('s \<Rightarrow> 's \<Rightarrow> bool) \<Rightarrow> ('s \<Rightarrow> 's \<Rightarrow> bool) \<Rightarrow> ('s, 'a) coro
    \<Rightarrow> (exn + 'a \<Rightarrow> 's \<Rightarrow> 's \<Rightarrow> bool) \<Rightarrow> 's \<Rightarrow> 's \<Rightarrow> bool" where
  "rg R G (Done r) Q s0 s = Q r s0 s"
| "rg R G (Act u k) Q s0 s = rg R G (k s) Q s0 (u s)"
| "rg R G (Await g c x) Q s0 s =
     (G s0 s \<and> (\<forall>s1. R s s1 \<longrightarrow> (g s1 \<longrightarrow> rg R G c Q s1 s1) \<and> rg R G x Q s1 s1))"

named_theorems rg_simps "rely-guarantee rules for the coroutine combinators"

lemma rg_bind [rg_simps]:
  "rg R G (bind m f) Q s0 s =
     rg R G m (\<lambda>r s0 s. case r of Inl e \<Rightarrow> Q (Inl e) s0 s | Inr x \<Rightarrow> rg R G (f x) Q s0 s) s0 s"
  by (induction m arbitrary: s0 s) (auto split: sum.splits)

lemma rg_attempt [rg_simps]: "rg R G (attempt m) Q s0 s = rg R G m (\<lambda>r. Q (Inr r)) s0 s"
  by (induction m arbitrary: s0 s) auto

lemma rg_get [rg_simps]: "rg R G (get f) Q s0 s = Q (Inr (f s)) s0 s"
  by (simp add: get_def)

lemma rg_modify [rg_simps]: "rg R G (modify f) Q s0 s = Q (Inr ()) s0 (f s)"
  by (simp add: modify_def)

lemma rg_mono:
  "rg R G m Q s0 s \<Longrightarrow> (\<And>r s0 s. Q r s0 s \<Longrightarrow> Q' r s0 s) \<Longrightarrow> rg R G m Q' s0 s"
  by (induction m arbitrary: s0 s) auto

lemma rg_guarantee_mono:
  "rg R G m Q s0 s \<Longrightarrow> (\<And>s0 s. G s0 s \<Longrightarrow> G' s0 s) \<Longrightarrow> (\<And>s0 s. R' s0 s \<Longrightarrow> R s0 s) \<Longrightarrow>
   rg R' G' m Q s0 s"
  by (induction m arbitrary: s0 s) auto

text \<open>A coroutine is safe for \<open>R\<close> and \<open>G\<close> when, between states that the other tasks change by
  \<open>R\<close> only, all its sections are \<open>G\<close> steps.\<close>

definition safe :: "('s \<Rightarrow> 's \<Rightarrow> bool) \<Rightarrow> ('s \<Rightarrow> 's \<Rightarrow> bool) \<Rightarrow> ('s, 'a) coro \<Rightarrow> bool" where
  "safe R G c \<longleftrightarrow> (\<forall>s0 s. G s0 s \<longrightarrow> rg R G c (\<lambda>_. G) s0 s)"

lemma safeI: "(\<And>s0 s. G s0 s \<Longrightarrow> rg R G c (\<lambda>_. G) s0 s) \<Longrightarrow> safe R G c"
  by (simp add: safe_def)

lemma safeD: "safe R G c \<Longrightarrow> G s0 s \<Longrightarrow> rg R G c (\<lambda>_. G) s0 s"
  by (simp add: safe_def)

text \<open>A coroutine with the stronger guarantee \<open>H\<close>, run inside a section that began in \<open>s0\<close>.\<close>

lemma rg_frame:
  assumes "rg R H m (\<lambda>_. H) b s" and "G s0 b" and "I b"
    and "\<And>s s'. I s \<Longrightarrow> R s s' \<Longrightarrow> I s' \<and> G s' s'"
    and "\<And>s s'. I s \<Longrightarrow> H s s' \<Longrightarrow> I s' \<and> G s s'"
    and trans: "\<And>s s' s''. G s s' \<Longrightarrow> G s' s'' \<Longrightarrow> G s s''"
  shows "rg R G m (\<lambda>r s0 s. G s0 s \<and> I s) s0 s"
  using assms(1-3)
proof (induction m arbitrary: s0 b s)
  case (Done r)
  with assms(5) trans show ?case by fastforce
next
  case (Await g c x)
  then have 1: "G s0 s" "I s" using assms(5) trans by auto
  have "rg R G c (\<lambda>r s0 s. G s0 s \<and> I s) s' s'" if "R s s'" "g s'" for s'
    using Await.IH(1) [of s' s' s'] Await.prems(1) assms(4) [OF 1(2) that(1)] that by simp
  moreover have "rg R G x (\<lambda>r s0 s. G s0 s \<and> I s) s' s'" if "R s s'" for s'
    using Await.IH(2) [of s' s' s'] Await.prems(1) assms(4) [OF 1(2) that] that by simp
  ultimately show ?case using 1 by simp
qed auto

text \<open>
  The interface of a rely and a guarantee: sections compose. \<open>G s s\<close> says that \<open>s\<close> is a state in
  which a section of the task can begin; a resumption and the end of a section lead to one.
\<close>

locale guarantee =
  fixes R :: "'s \<Rightarrow> 's \<Rightarrow> bool" and G :: "'s \<Rightarrow> 's \<Rightarrow> bool"
  assumes R_start: "R s s' \<Longrightarrow> G s' s'"
    and G_start: "G s s' \<Longrightarrow> G s' s'"
    and G_trans: "G s s' \<Longrightarrow> G s' s'' \<Longrightarrow> G s s''"
begin

lemma safe_Done: "safe R G (Done r)"
  by (simp add: safe_def)

lemma safe_get: "safe R G (get f)"
  by (simp add: safe_def rg_simps)

lemma safe_modify: "(\<And>s. G s s \<Longrightarrow> G s (f s)) \<Longrightarrow> safe R G (modify f)"
  by (auto simp: safe_def rg_simps intro: G_trans G_start)

lemma safe_Act:
  "(\<And>s. G s s \<Longrightarrow> G s (u s)) \<Longrightarrow> (\<And>s. safe R G (k s)) \<Longrightarrow> safe R G (Act u k)"
  unfolding safe_def rg.simps by (meson G_trans G_start)

lemma safe_await: "safe R G (await g)"
  by (auto simp: safe_def await_def intro: R_start)

lemma safe_never: "safe R G never"
  by (auto simp: safe_def intro: R_start)

lemma safe_bind:
  assumes "safe R G m" and "\<And>x. safe R G (f x)"
  shows "safe R G (bind m f)"
proof (rule safeI)
  fix s0 s assume "G s0 s"
  with assms(1) have "rg R G m (\<lambda>_. G) s0 s" by (rule safeD)
  then show "rg R G (bind m f) (\<lambda>_. G) s0 s"
    unfolding rg_simps
    by (rule rg_mono) (use assms(2) in \<open>auto simp: safe_def split: sum.splits\<close>)
qed

lemma safe_attempt: "safe R G m \<Longrightarrow> safe R G (attempt m)"
  by (simp add: safe_def rg_simps)

lemma safe_handle: "safe R G m \<Longrightarrow> (\<And>e. safe R G (h e)) \<Longrightarrow> safe R G (handle m h)"
  unfolding handle_def by (intro safe_bind safe_attempt) (auto split: sum.splits simp: safe_Done)

lemma safe_except_lost: "safe R G m \<Longrightarrow> (\<And>r. safe R G (h r)) \<Longrightarrow> safe R G (except_lost m h)"
  unfolding except_lost_def by (intro safe_handle) (auto split: exn.splits simp: safe_Done)

lemma safe_finally: "safe R G m \<Longrightarrow> safe R G c \<Longrightarrow> safe R G (finally_do m c)"
  unfolding finally_do_def by (intro safe_bind safe_attempt safe_Done)

lemma safe_for_each: "(\<And>x. x \<in> set xs \<Longrightarrow> safe R G (f x)) \<Longrightarrow> safe R G (for_each f xs)"
  by (induction xs) (auto intro: safe_bind safe_Done)

lemma rg_wait_for: "rg R G m (\<lambda>_. G) s0 s \<Longrightarrow> rg R G (wait_for m) (\<lambda>_. G) s0 s"
proof (induction m arbitrary: s0 s)
  case (Await g c x)
  then show ?case
    by (auto simp: rg_simps)
qed auto

lemma safe_wait_for: "safe R G m \<Longrightarrow> safe R G (wait_for m)"
  by (auto simp: safe_def intro: rg_wait_for)

lemmas safe_intros = safe_Done safe_get safe_modify safe_Act safe_await safe_never safe_bind
  safe_attempt safe_handle safe_except_lost safe_finally safe_for_each safe_wait_for

end

section \<open>Interleaving tasks\<close>

text \<open>Run up to the next suspension.\<close>

primrec advance :: "('s, 'a) coro \<Rightarrow> 's \<Rightarrow> ('s, 'a) coro \<times> 's" where
  "advance (Done r) s = (Done r, s)"
| "advance (Act u k) s = advance (k s) (u s)"
| "advance (Await g c x) s = (Await g c x, s)"

text \<open>
  A configuration is the shared state and the suspended or finished tasks. A step resumes a
  task that is ready, cancels one, starts a coroutine of \<open>P\<close>, or lets the environment change
  the state by \<open>E\<close> (time passes, a callback of the user runs). \<open>cur i\<close> makes task \<open>i\<close> the
  current one.
\<close>

inductive pool_step ::
  "(nat \<Rightarrow> 's \<Rightarrow> 's) \<Rightarrow> ('s, 'a) coro set \<Rightarrow> ('s \<Rightarrow> 's \<Rightarrow> bool) \<Rightarrow> 's \<times> ('s, 'a) coro list
     \<Rightarrow> 's \<times> ('s, 'a) coro list \<Rightarrow> bool"
  for cur :: "nat \<Rightarrow> 's \<Rightarrow> 's" and P :: "('s, 'a) coro set" and E :: "'s \<Rightarrow> 's \<Rightarrow> bool" where
  resume: "i < length ts \<Longrightarrow> ts ! i = Await g c x \<Longrightarrow> g (cur i s) \<Longrightarrow>
     advance c (cur i s) = (c', s') \<Longrightarrow> pool_step cur P E (s, ts) (s', ts[i := c'])"
| cancel: "i < length ts \<Longrightarrow> ts ! i = Await g c x \<Longrightarrow> advance x (cur i s) = (c', s') \<Longrightarrow>
     pool_step cur P E (s, ts) (s', ts[i := c'])"
| spawn: "c \<in> P \<Longrightarrow> advance c (cur (length ts) s) = (c', s') \<Longrightarrow>
     pool_step cur P E (s, ts) (s', ts @ [c'])"
| environment: "E s s' \<Longrightarrow> pool_step cur P E (s, ts) (s', ts)"

inductive_cases pool_stepE: "pool_step cur P E (s, ts) (s', ts')"

text \<open>A task that was suspended in state \<open>s\<close> is safe from every state the others may reach.\<close>

fun task_ok :: "('s \<Rightarrow> 's \<Rightarrow> bool) \<Rightarrow> ('s \<Rightarrow> 's \<Rightarrow> bool) \<Rightarrow> 's \<Rightarrow> ('s, 'a) coro \<Rightarrow> bool" where
  "task_ok R G s (Done r) = True"
| "task_ok R G s (Act u k) = False"
| "task_ok R G s (Await g c x) =
     (\<forall>s1. R s s1 \<longrightarrow> (g s1 \<longrightarrow> rg R G c (\<lambda>_. G) s1 s1) \<and> rg R G x (\<lambda>_. G) s1 s1)"

lemma rg_advance:
  "rg R G c (\<lambda>_. G) s0 s \<Longrightarrow> advance c s = (c', s') \<Longrightarrow> G s0 s' \<and> task_ok R G s' c'"
  by (induction c arbitrary: s) auto

text \<open>
  The interface under which safe tasks can run together. \<open>R i s s'\<close> is what task \<open>i\<close> relies on
  between its suspension in \<open>s\<close> and its resumption in \<open>s'\<close>: it contains the resumption itself,
  preceded by any steps of other tasks and of the environment. \<open>T\<close> is what the steps of all
  tasks and of the environment have in common.
\<close>

locale interleaving =
  fixes cur :: "nat \<Rightarrow> 's \<Rightarrow> 's"
    and R :: "nat \<Rightarrow> 's \<Rightarrow> 's \<Rightarrow> bool" and G :: "nat \<Rightarrow> 's \<Rightarrow> 's \<Rightarrow> bool"
    and E :: "'s \<Rightarrow> 's \<Rightarrow> bool" and T :: "'s \<Rightarrow> 's \<Rightarrow> bool"
  assumes G_cur: "G i (cur i s) (cur i s)"
    and R_resume: "R i s (cur i s)"
    and R_other: "i \<noteq> j \<Longrightarrow> G j (cur j s) s' \<Longrightarrow> R i s' s'' \<Longrightarrow> R i s s''"
    and R_environment: "E s s' \<Longrightarrow> R i s' s'' \<Longrightarrow> R i s s''"
    and T_refl: "T s s"
    and T_trans: "T s s' \<Longrightarrow> T s' s'' \<Longrightarrow> T s s''"
    and T_section: "G i (cur i s) s' \<Longrightarrow> T s s'"
    and T_environment: "E s s' \<Longrightarrow> T s s'"
begin

definition pool_ok :: "'s \<Rightarrow> ('s, 'a) coro list \<Rightarrow> bool" where
  "pool_ok s ts \<longleftrightarrow> (\<forall>i < length ts. task_ok (R i) (G i) s (ts ! i))"

lemma task_ok_later:
  "task_ok (R i) (G i) s t \<Longrightarrow> i \<noteq> j \<Longrightarrow> G j (cur j s) s' \<Longrightarrow> task_ok (R i) (G i) s' t"
  by (cases t) (auto dest: R_other)

text \<open>A section of task \<open>i\<close>, started in a state where it is safe.\<close>

lemma section_ok:
  assumes "pool_ok s ts" "rg (R i) (G i) c (\<lambda>_. G i) (cur i s) (cur i s)" "advance c (cur i s) = (c', s')"
  shows "T s s' \<and> pool_ok s' (ts[i := c']) \<and> (i = length ts \<longrightarrow> pool_ok s' (ts @ [c']))"
proof -
  from rg_advance [OF assms(2,3)] have 1: "G i (cur i s) s'" "task_ok (R i) (G i) s' c'" by auto
  have 2: "task_ok (R j) (G j) s' (ts ! j)" if "j < length ts" "j \<noteq> i" for j
    using task_ok_later [OF _ that(2) 1(1), of "ts ! j"] assms(1) that(1) by (simp add: pool_ok_def)
  then have "task_ok (R j) (G j) s' (ts[i := c'] ! j)" if "j < length ts" for j
    using 1(2) that by (cases "j = i") auto
  moreover have "pool_ok s' (ts @ [c'])" if "i = length ts"
    using 1(2) 2 that by (auto simp: pool_ok_def nth_append less_Suc_eq)
  ultimately show ?thesis
    using 1(1) T_section by (auto simp: pool_ok_def)
qed

lemma pool_step_ok:
  assumes "pool_step cur P E (s, ts) (s', ts')" and "pool_ok s ts"
    and P: "\<And>c i. c \<in> P \<Longrightarrow> safe (R i) (G i) c"
  shows "T s s' \<and> pool_ok s' ts'"
  using assms(1)
proof (cases rule: pool_step.cases)
  case (resume i g c x c')
  with assms(2) have "rg (R i) (G i) c (\<lambda>_. G i) (cur i s) (cur i s)"
    by (auto simp: pool_ok_def dest!: spec [of _ i] spec [of _ "cur i s"] intro: R_resume)
  with section_ok [OF assms(2)] resume show ?thesis by blast
next
  case (cancel i g c x c')
  with assms(2) have "rg (R i) (G i) x (\<lambda>_. G i) (cur i s) (cur i s)"
    by (auto simp: pool_ok_def dest!: spec [of _ i] spec [of _ "cur i s"] intro: R_resume)
  with section_ok [OF assms(2)] cancel show ?thesis by blast
next
  case (spawn c c')
  with safeD [OF P [of c "length ts"] G_cur] have
    "rg (R (length ts)) (G (length ts)) c (\<lambda>_. G (length ts)) (cur (length ts) s) (cur (length ts) s)" by blast
  with section_ok [OF assms(2)] spawn show ?thesis by blast
next
  case environment
  then have "task_ok (R i) (G i) s' t" if "task_ok (R i) (G i) s t" for i and t :: "('s, 'a) coro"
    using that by (cases t) (auto dest: R_environment)
  with environment assms(2) show ?thesis
    by (auto simp: pool_ok_def T_environment)
qed

text \<open>Every run of a pool of safe tasks is within \<open>T\<close>.\<close>

lemma pool_run:
  assumes "(pool_step cur P E)\<^sup>*\<^sup>* (s, ts) (s', ts')" and "pool_ok s ts"
    and "\<And>c i. c \<in> P \<Longrightarrow> safe (R i) (G i) c"
  shows "T s s' \<and> pool_ok s' ts'"
  using assms(1)
proof (induction rule: rtranclp_induct2)
  case refl
  with assms(2) show ?case by (simp add: T_refl)
next
  case (step s1 ts1 s2 ts2)
  with pool_step_ok [of P s1 ts1 s2 ts2] assms(3) T_trans show ?case by blast
qed

lemma pool_ok_empty: "pool_ok s []"
  by (simp add: pool_ok_def)

end

end
