(* ===== verification/Connection.thy ===== *)
theory Connection
  imports Coroutines Serde_Roundtrip Complex_Main
begin

text \<open>
  \<open>stompman/connection.py\<close> and \<open>stompman/connection_ws.py\<close>: the connection over an
  \<open>asyncio\<close> stream and the one over a WebSocket, on a model of the network.

  The network is an explicit state. What the peer and the operating system will do on a
  connection is a script fixed when it is opened (\<open>peer\<close>): the results of the successive
  reads and writes, and of closing. All theorems hold for every script. A read with no event
  left waits; a write with no event left succeeds.
\<close>

section \<open>Classes of exceptions\<close>

datatype exn_class =
    C_TimeoutError | C_ConnectionError | C_gaierror | C_OSError | C_RuntimeError
  | C_WebSocketException

text \<open>\<open>isinstance\<close> along Python's hierarchy: the first three classes are below \<open>OSError\<close>.\<close>

fun isinstance :: "py_exn \<Rightarrow> exn_class \<Rightarrow> bool" where
  "isinstance e C_TimeoutError \<longleftrightarrow> e = TimeoutError"
| "isinstance e C_ConnectionError \<longleftrightarrow> e = ConnectionError"
| "isinstance e C_gaierror \<longleftrightarrow> e = GaiError"
| "isinstance e C_OSError \<longleftrightarrow> e \<in> {OSError, TimeoutError, ConnectionError, GaiError}"
| "isinstance e C_RuntimeError \<longleftrightarrow> (case e of RuntimeError _ \<Rightarrow> True | _ \<Rightarrow> False)"
| "isinstance e C_WebSocketException \<longleftrightarrow> e = WebSocketException"

definition isinstance_any :: "py_exn \<Rightarrow> exn_class list \<Rightarrow> bool" where
  "isinstance_any e causes \<longleftrightarrow> list_ex (isinstance e) causes"

section \<open>The network\<close>

datatype connection_class = Connection | WebSocketConnection

datatype read_event = Chunk bytes | ReadFails py_exn

datatype write_event = WriteOk | WriteFails py_exn | DrainFails py_exn

text \<open>\<open>peer_closed_recv\<close> is what the \<open>websockets\<close> package raises from \<open>recv\<close> once the
  connection is closed and nothing is left to receive.\<close>

record peer =
  peer_reads :: "read_event list"
  peer_writes :: "write_event list"
  peer_close :: "py_exn option"
  peer_closed_recv :: py_exn

datatype address = Tcp pystr int | Uri pystr

datatype open_event = Opened peer | OpenFails py_exn

record transport =
  t_class :: connection_class
  t_address :: address
  t_ssl :: "nat option"
  t_read_max_chunk_size :: int
  t_in :: "read_event list"
  t_writes :: "write_event list"
  t_close :: "py_exn option"
  t_closed_recv :: py_exn
  t_out :: "bytes list"
  t_open :: bool
  t_last_read_time :: "rat option"

datatype log_level = Info | Warning | Error | Exception

text \<open>
  The part of the state that is outside the program: the clock, the outcomes of the coming
  rounds of connection attempts, the connections opened so far, the list objects that
  coroutines share, the log, the supply of \<open>uuid4\<close> strings, and the task that is running
  (\<open>asyncio.current_task()\<close>).
\<close>

record net =
  n_time :: rat
  n_rounds :: "(nat \<times> open_event) list list"
  n_transports :: "transport list"
  n_lists :: "frame list list"
  n_log :: "(log_level \<times> string) list"
  n_uuid :: "nat \<Rightarrow> pystr"
  n_uuid_count :: nat
  n_current :: nat

text \<open>An identifier outside the list is that of no connection: nothing arrives on it.\<close>

definition no_transport :: transport where
  "no_transport =
     \<lparr>t_class = Connection, t_address = Uri [], t_ssl = None, t_read_max_chunk_size = 0, t_in = [],
      t_writes = [], t_close = None, t_closed_recv = ConnectionError, t_out = [], t_open = False,
      t_last_read_time = None\<rparr>"

definition transport_at :: "'z net_scheme \<Rightarrow> nat \<Rightarrow> transport" where
  "transport_at s c = (if c < length (n_transports s) then n_transports s ! c else no_transport)"

definition upd_transport :: "nat \<Rightarrow> (transport \<Rightarrow> transport) \<Rightarrow> 'z net_scheme \<Rightarrow> 'z net_scheme" where
  "upd_transport c f s =
     s\<lparr>n_transports := (n_transports s)[c := f (transport_at s c)]\<rparr>"

definition logger :: "log_level \<Rightarrow> string \<Rightarrow> ('z net_scheme, unit) coro" where
  "logger level message = modify (\<lambda>s. s\<lparr>n_log := n_log s @ [(level, message)]\<rparr>)"

text \<open>\<open>str(uuid4())\<close>.\<close>

definition uuid4 :: "('z net_scheme, pystr) coro" where
  "uuid4 = Act (\<lambda>s. s\<lparr>n_uuid_count := Suc (n_uuid_count s)\<rparr>) (\<lambda>s. ret (n_uuid s (n_uuid_count s)))"

text \<open>\<open>asyncio.sleep\<close>: the clock has moved on when it returns.\<close>

definition sleep :: "rat \<Rightarrow> ('z net_scheme, unit) coro" where
  "sleep seconds = seq suspend (modify (\<lambda>s. s\<lparr>n_time := n_time s + max 0 seconds\<rparr>))"

text \<open>Python lists that several coroutines see.\<close>

definition new_list :: "('z net_scheme, nat) coro" where
  "new_list = Act (\<lambda>s. s\<lparr>n_lists := n_lists s @ [[]]\<rparr>) (\<lambda>s. ret (length (n_lists s)))"

definition list_append :: "nat \<Rightarrow> frame \<Rightarrow> ('z net_scheme, unit) coro" where
  "list_append l f = modify (\<lambda>s. s\<lparr>n_lists := (n_lists s)[l := n_lists s ! l @ [f]]\<rparr>)"

section \<open>Streams\<close>

text \<open>\<open>StreamWriter.write\<close>. The next write event is used up; after \<open>close\<close> the bytes are dropped.
  A failure of the later \<open>drain\<close> is returned.\<close>

definition next_write :: "transport \<Rightarrow> write_event" where
  "next_write t = (case t_writes t of [] \<Rightarrow> WriteOk | e # _ \<Rightarrow> e)"

definition accept_bytes :: "bytes \<Rightarrow> transport \<Rightarrow> transport" where
  "accept_bytes data t =
     (let t' = t\<lparr>t_writes := tl (t_writes t)\<rparr> in
      case next_write t of
        WriteFails _ \<Rightarrow> t'
      | _ \<Rightarrow> if t_open t then t'\<lparr>t_out := t_out t @ [data]\<rparr> else t')"

definition writer_write :: "nat \<Rightarrow> bytes \<Rightarrow> ('z net_scheme, write_event) coro" where
  "writer_write c data =
     Act (upd_transport c (accept_bytes data))
       (\<lambda>s. case next_write (transport_at s c) of
               WriteFails e \<Rightarrow> raise_py e
             | event \<Rightarrow> ret event)"

definition drain :: "write_event \<Rightarrow> ('z net_scheme, unit) coro" where
  "drain event =
     seq suspend (case event of DrainFails e \<Rightarrow> raise_py e | _ \<Rightarrow> ret ())"

text \<open>Waiting for the next read event, then taking it: \<open>None\<close> when the connection was closed
  and none is left.\<close>

definition read_event :: "nat \<Rightarrow> ('z net_scheme, read_event option) coro" where
  "read_event c =
     seq (await (\<lambda>s. t_in (transport_at s c) \<noteq> [] \<or> \<not> t_open (transport_at s c)))
       (Act (upd_transport c (\<lambda>t. t\<lparr>t_in := tl (t_in t)\<rparr>))
          (\<lambda>s. ret (case t_in (transport_at s c) of [] \<Rightarrow> None | e # _ \<Rightarrow> Some e)))"

section \<open>The shared code of the connection classes\<close>

definition reraise_connection_lost ::
  "exn_class list \<Rightarrow> ('s, 'a) coro \<Rightarrow> ('s, 'a) coro" where
  "reraise_connection_lost causes m =
     handle m (\<lambda>e. case e of
         Raised p \<Rightarrow>
           if isinstance_any p causes then raise (ConnectionLostError (Reason_exception p)) else raise e
       | _ \<Rightarrow> raise e)"

text \<open>\<open>contextlib.suppress\<close>.\<close>

definition suppress :: "exn_class list \<Rightarrow> ('s, unit) coro \<Rightarrow> ('s, unit) coro" where
  "suppress causes m =
     handle m (\<lambda>e. case e of
         Raised p \<Rightarrow> if isinstance_any p causes then ret () else raise e
       | _ \<Rightarrow> raise e)"

text \<open>\<open>f(dump_frame(frame))\<close>.\<close>

definition dumped :: "frame \<Rightarrow> (bytes \<Rightarrow> ('s, 'a) coro) \<Rightarrow> ('s, 'a) coro" where
  "dumped f k = (case dump_frame f of Inl e \<Rightarrow> raise_py e | Inr data \<Rightarrow> k data)"

text \<open>
  \<open>async for frame in connection.read_frames(): body(frame)\<close>. The body returns \<open>Some r\<close> to leave
  the loop with \<open>r\<close>. The generator makes a parser of its own, and each of its rounds reads
  once, notes the time and yields the frames of the chunk.
\<close>

fun deliver :: "(frame \<Rightarrow> ('s, 'r option) coro) \<Rightarrow> frame list \<Rightarrow> ('s, 'r option) coro" where
  "deliver body [] = ret None"
| "deliver body (f # fs) =
     bind (body f) (\<lambda>x. case x of Some r \<Rightarrow> ret (Some r) | None \<Rightarrow> deliver body fs)"

fun read_frames_loop ::
  "('z net_scheme, bytes) coro \<Rightarrow> nat \<Rightarrow> nat \<Rightarrow> frame_parser
     \<Rightarrow> (frame \<Rightarrow> ('z net_scheme, 'r option) coro) \<Rightarrow> ('z net_scheme, 'r) coro" where
  "read_frames_loop read c 0 p body = never"
| "read_frames_loop read c (Suc n) p body =
     bind read (\<lambda>raw_frames.
       seq (modify (\<lambda>s. upd_transport c (\<lambda>t. t\<lparr>t_last_read_time := Some (n_time s)\<rparr>) s))
         (case parse_frames_from_chunk p raw_frames of
            (fs, end_state) \<Rightarrow>
              bind (deliver body fs) (\<lambda>x.
                case x of
                  Some r \<Rightarrow> ret r
                | None \<Rightarrow>
                    (case end_state of
                       Inl e \<Rightarrow> raise_py e
                     | Inr p' \<Rightarrow> read_frames_loop read c n p' body))))"

text \<open>Every round uses up a read event or ends the loop, so that the number of events left is
  a bound on the rounds.\<close>

definition read_frames_with ::
  "(nat \<Rightarrow> ('z net_scheme, bytes) coro) \<Rightarrow> nat \<Rightarrow> (frame \<Rightarrow> ('z net_scheme, 'r option) coro)
     \<Rightarrow> ('z net_scheme, 'r) coro" where
  "read_frames_with read c body =
     bind (get (\<lambda>s. Suc (length (t_in (transport_at s c)))))
       (\<lambda>n. read_frames_loop (read c) c n FrameParser_init body)"

definition new_transport ::
  "connection_class \<Rightarrow> address \<Rightarrow> nat option \<Rightarrow> int \<Rightarrow> peer \<Rightarrow> transport" where
  "new_transport cls address ssl read_max_chunk_size p =
     \<lparr>t_class = cls, t_address = address, t_ssl = ssl,
      t_read_max_chunk_size = read_max_chunk_size, t_in = peer_reads p, t_writes = peer_writes p,
      t_close = peer_close p, t_closed_recv = peer_closed_recv p, t_out = [], t_open = True,
      t_last_read_time = None\<rparr>"

text \<open>\<open>asyncio.wait_for(open, timeout)\<close>: the outcome, a timeout included, is the open event.\<close>

definition open_transport ::
  "connection_class \<Rightarrow> address \<Rightarrow> nat option \<Rightarrow> int \<Rightarrow> open_event \<Rightarrow> ('z net_scheme, nat) coro" where
  "open_transport cls address ssl read_max_chunk_size event =
     seq suspend
       (case event of
          OpenFails e \<Rightarrow> raise_py e
        | Opened p \<Rightarrow>
            Act (\<lambda>s. s\<lparr>n_transports :=
                   n_transports s @ [new_transport cls address ssl read_max_chunk_size p]\<rparr>)
              (\<lambda>s. ret (length (n_transports s))))"

text \<open>\<open>try: ... except causes: return None\<close>.\<close>

definition none_on :: "exn_class list \<Rightarrow> ('s, 'a) coro \<Rightarrow> ('s, 'a option) coro" where
  "none_on causes m =
     handle (bind m (\<lambda>x. ret (Some x)))
       (\<lambda>e. case e of
           Raised p \<Rightarrow> if isinstance_any p causes then ret None else raise e
         | _ \<Rightarrow> raise e)"

section \<open>The stream connection\<close>

definition Connection_connect ::
  "pystr \<Rightarrow> int \<Rightarrow> int \<Rightarrow> nat option \<Rightarrow> pystr option \<Rightarrow> open_event
     \<Rightarrow> ('z net_scheme, nat option) coro" where
  "Connection_connect host port read_max_chunk_size ssl ws_uri_path event =
     none_on [C_TimeoutError, C_ConnectionError, C_gaierror]
       (if ws_uri_path \<noteq> None \<and> ws_uri_path \<noteq> Some []
        then raise_py (AssertionError ''only WebSocketConnection supports ws_uri_path argument'')
        else open_transport Connection (Tcp host port) ssl read_max_chunk_size event)"

definition Connection_close :: "nat \<Rightarrow> ('z net_scheme, unit) coro" where
  "Connection_close c =
     seq (modify (upd_transport c (\<lambda>t. t\<lparr>t_open := False\<rparr>)))
       (suppress [C_ConnectionError]
          (seq suspend
             (bind (get (\<lambda>s. t_close (transport_at s c)))
                (\<lambda>failure. case failure of None \<Rightarrow> ret () | Some e \<Rightarrow> raise_py e))))"

definition Connection_write_heartbeat :: "nat \<Rightarrow> ('z net_scheme, unit) coro" where
  "Connection_write_heartbeat c =
     reraise_connection_lost [C_RuntimeError] (bind (writer_write c [NEWLINE]) (\<lambda>_. ret ()))"

definition Connection_write_frame :: "nat \<Rightarrow> frame \<Rightarrow> ('z net_scheme, unit) coro" where
  "Connection_write_frame c frame =
     bind (reraise_connection_lost [C_RuntimeError] (dumped frame (writer_write c)))
       (\<lambda>event. reraise_connection_lost [C_ConnectionError] (drain event))"

definition read_non_empty_bytes :: "nat \<Rightarrow> ('z net_scheme, bytes) coro" where
  "read_non_empty_bytes c =
     bind (read_event c) (\<lambda>event.
       case event of
         Some (ReadFails e) \<Rightarrow> raise_py e
       | Some (Chunk chunk) \<Rightarrow>
           if chunk = [] then raise (ConnectionLostError (Reason_text ''eof'')) else ret chunk
       | None \<Rightarrow> raise (ConnectionLostError (Reason_text ''eof'')))"

definition Connection_read :: "nat \<Rightarrow> ('z net_scheme, bytes) coro" where
  "Connection_read c = reraise_connection_lost [C_ConnectionError] (read_non_empty_bytes c)"

definition Connection_read_frames ::
  "nat \<Rightarrow> (frame \<Rightarrow> ('z net_scheme, 'r option) coro) \<Rightarrow> ('z net_scheme, 'r) coro" where
  "Connection_read_frames = read_frames_with Connection_read"

section \<open>The WebSocket connection\<close>

definition SLASH :: nat where "SLASH = 0x2F"

text \<open>\<open>s.strip('/')\<close>.\<close>

definition strip_slashes :: "pystr \<Rightarrow> pystr" where
  "strip_slashes s = rev (dropWhile (\<lambda>c. c = SLASH) (rev (dropWhile (\<lambda>c. c = SLASH) s)))"

definition websocket_uri :: "pystr \<Rightarrow> int \<Rightarrow> pystr option \<Rightarrow> py_exn + pystr" where
  "websocket_uri host port ws_uri_path =
     (case str_int port of
        Inl e \<Rightarrow> Inl e
      | Inr p \<Rightarrow>
          Inr (lit ''ws://'' @ host @ lit '':'' @ p @ [SLASH] @
               (case ws_uri_path of None \<Rightarrow> [] | Some path \<Rightarrow> strip_slashes path)))"

definition WebSocketConnection_connect ::
  "pystr \<Rightarrow> int \<Rightarrow> int \<Rightarrow> nat option \<Rightarrow> pystr option \<Rightarrow> open_event
     \<Rightarrow> ('z net_scheme, nat option) coro" where
  "WebSocketConnection_connect host port read_max_chunk_size ssl ws_uri_path event =
     none_on [C_TimeoutError, C_OSError, C_WebSocketException]
       (case websocket_uri host port ws_uri_path of
          Inl e \<Rightarrow> raise_py e
        | Inr uri \<Rightarrow> open_transport WebSocketConnection (Uri uri) ssl read_max_chunk_size event)"

definition WebSocketConnection_close :: "nat \<Rightarrow> ('z net_scheme, unit) coro" where
  "WebSocketConnection_close c =
     suppress [C_WebSocketException]
       (seq (modify (upd_transport c (\<lambda>t. t\<lparr>t_open := False\<rparr>)))
          (seq suspend
             (bind (get (\<lambda>s. t_close (transport_at s c)))
                (\<lambda>failure. case failure of None \<Rightarrow> ret () | Some e \<Rightarrow> raise_py e))))"

text \<open>
  The heart-beat is scheduled as a task of its own whose result nobody looks at: a failing
  send only means that nothing is sent. The bytes are recorded at the time of scheduling.
\<close>

definition WebSocketConnection_write_heartbeat :: "nat \<Rightarrow> ('z net_scheme, unit) coro" where
  "WebSocketConnection_write_heartbeat c =
     reraise_connection_lost [C_RuntimeError, C_OSError, C_WebSocketException]
       (modify (upd_transport c (accept_bytes [NEWLINE])))"

text \<open>\<open>websocket.send\<close>: a failure while sending and one while flushing are the same to the
  caller.\<close>

definition websocket_send :: "nat \<Rightarrow> bytes \<Rightarrow> ('z net_scheme, unit) coro" where
  "websocket_send c data = bind (writer_write c data) drain"

definition WebSocketConnection_write_frame :: "nat \<Rightarrow> frame \<Rightarrow> ('z net_scheme, unit) coro" where
  "WebSocketConnection_write_frame c frame =
     reraise_connection_lost [C_RuntimeError, C_OSError, C_WebSocketException]
       (dumped frame (websocket_send c))"

definition websocket_recv :: "nat \<Rightarrow> ('z net_scheme, bytes) coro" where
  "websocket_recv c =
     bind (read_event c) (\<lambda>event.
       case event of
         Some (ReadFails e) \<Rightarrow> raise_py e
       | Some (Chunk chunk) \<Rightarrow> ret chunk
       | None \<Rightarrow> bind (get (\<lambda>s. t_closed_recv (transport_at s c))) (\<lambda>e. raise_py e))"

definition WebSocketConnection_read :: "nat \<Rightarrow> ('z net_scheme, bytes) coro" where
  "WebSocketConnection_read c =
     reraise_connection_lost [C_RuntimeError, C_OSError, C_WebSocketException] (websocket_recv c)"

definition WebSocketConnection_read_frames ::
  "nat \<Rightarrow> (frame \<Rightarrow> ('z net_scheme, 'r option) coro) \<Rightarrow> ('z net_scheme, 'r) coro" where
  "WebSocketConnection_read_frames = read_frames_with WebSocketConnection_read"

section \<open>The methods of a connection object\<close>

definition connect ::
  "connection_class \<Rightarrow> pystr \<Rightarrow> int \<Rightarrow> int \<Rightarrow> nat option \<Rightarrow> pystr option \<Rightarrow> open_event
     \<Rightarrow> ('z net_scheme, nat option) coro" where
  "connect cls =
     (case cls of
        Connection \<Rightarrow> Connection_connect
      | WebSocketConnection \<Rightarrow> WebSocketConnection_connect)"

definition dispatch ::
  "nat \<Rightarrow> ('z net_scheme, 'a) coro \<Rightarrow> ('z net_scheme, 'a) coro \<Rightarrow> ('z net_scheme, 'a) coro" where
  "dispatch c stream websocket =
     bind (get (\<lambda>s. t_class (transport_at s c)))
       (\<lambda>cls. case cls of Connection \<Rightarrow> stream | WebSocketConnection \<Rightarrow> websocket)"

definition close :: "nat \<Rightarrow> ('z net_scheme, unit) coro" where
  "close c = dispatch c (Connection_close c) (WebSocketConnection_close c)"

definition write_heartbeat :: "nat \<Rightarrow> ('z net_scheme, unit) coro" where
  "write_heartbeat c =
     dispatch c (Connection_write_heartbeat c) (WebSocketConnection_write_heartbeat c)"

definition write_frame :: "nat \<Rightarrow> frame \<Rightarrow> ('z net_scheme, unit) coro" where
  "write_frame c frame =
     dispatch c (Connection_write_frame c frame) (WebSocketConnection_write_frame c frame)"

definition read_frames ::
  "nat \<Rightarrow> (frame \<Rightarrow> ('z net_scheme, 'r option) coro) \<Rightarrow> ('z net_scheme, 'r) coro" where
  "read_frames c body =
     dispatch c (Connection_read_frames c body) (WebSocketConnection_read_frames c body)"

end
