(* ===== verification/Connection_Laws.thy ===== *)
theory Connection_Laws
  imports Connection "HOL-Library.Sublist"
begin

text \<open>
  Laws of the connection classes: how connections evolve, that each method acts on its own
  connection only, the interface \<open>abstract_connection\<close> that both classes implement, and the
  properties of reading and writing over them.
\<close>

section \<open>How connections evolve\<close>

definition evolves :: "transport \<Rightarrow> transport \<Rightarrow> bool" where
  "evolves t t' \<longleftrightarrow>
     t_class t' = t_class t \<and> t_address t' = t_address t \<and> prefix (t_out t) (t_out t') \<and>
     suffix (t_in t') (t_in t) \<and>
     (\<not> t_open t \<longrightarrow> \<not> t_open t' \<and> t_out t' = t_out t)"

lemma evolves_refl [simp]: "evolves t t"
  by (simp add: evolves_def)

lemma evolves_trans: "evolves t t' \<Longrightarrow> evolves t' t'' \<Longrightarrow> evolves t t''"
  by (auto simp: evolves_def)

lemma evolves_accept_bytes: "evolves t (accept_bytes data t)"
  by (auto simp: evolves_def accept_bytes_def Let_def split: write_event.splits)

lemma evolves_close: "evolves t (t\<lparr>t_open := False\<rparr>)"
  by (simp add: evolves_def)

lemma evolves_read: "evolves t (t\<lparr>t_in := tl (t_in t)\<rparr>)"
  by (simp add: evolves_def suffix_tl)

lemma evolves_read_time: "evolves t (t\<lparr>t_last_read_time := x\<rparr>)"
  by (simp add: evolves_def)

lemmas evolves_intros = evolves_refl evolves_accept_bytes evolves_close evolves_read evolves_read_time

definition touches :: "nat \<Rightarrow> 'z net_scheme \<Rightarrow> 'z net_scheme \<Rightarrow> bool" where
  "touches c s s' \<longleftrightarrow>
     (\<exists>t. evolves (transport_at s c) t \<and> s' = upd_transport c (\<lambda>_. t) s)"

lemma transport_at_upd [simp]:
  "transport_at (upd_transport c f s) d =
     (if d = c \<and> c < length (n_transports s) then f (transport_at s c) else transport_at s d)"
  by (simp add: transport_at_def upd_transport_def)

lemma upd_transport_upd [simp]: "upd_transport c f (upd_transport c g s) = upd_transport c (f \<circ> g) s"
  by (cases "c < length (n_transports s)")
    (auto simp: upd_transport_def transport_at_def not_less list_update_beyond)

lemma upd_transport_same [simp]: "upd_transport c (\<lambda>_. transport_at s c) s = s"
  by (simp add: upd_transport_def transport_at_def not_less list_update_beyond)

lemma upd_transport_const: "upd_transport c f s = upd_transport c (\<lambda>_. f (transport_at s c)) s"
  by (simp add: upd_transport_def)

lemma upd_transport_cong:
  "f (transport_at s c) = g (transport_at s c) \<Longrightarrow> upd_transport c f s = upd_transport c g s"
  by (simp add: upd_transport_def)

lemma upd_transport_id: "f (transport_at s c) = transport_at s c \<Longrightarrow> upd_transport c f s = s"
  using upd_transport_cong [of f s c "\<lambda>_. transport_at s c"] by simp

lemma n_transports_upd [simp]:
  "length (n_transports (upd_transport c f s)) = length (n_transports s)"
  by (simp add: upd_transport_def)

section \<open>Execution of the shared code\<close>

text \<open>What becomes of an exception of the given classes.\<close>

definition lost_if :: "exn_class list \<Rightarrow> py_exn \<Rightarrow> exn" where
  "lost_if causes e =
     (if isinstance_any e causes then ConnectionLostError (Reason_exception e) else Raised e)"

lemma run_reraise [run_simps]:
  "run (reraise_connection_lost causes m) s =
     (case run m s of
        (Some (Inl (Raised e)), s') \<Rightarrow> (Some (Inl (lost_if causes e)), s')
      | (r, s') \<Rightarrow> (r, s'))"
  by (auto simp: reraise_connection_lost_def lost_if_def run_simps
      split: prod.splits option.splits sum.splits exn.splits)

lemma run_suppress [run_simps]:
  "run (suppress causes m) s =
     (case run m s of
        (Some (Inl (Raised e)), s') \<Rightarrow>
          (Some (if isinstance_any e causes then Inr () else Inl (Raised e)), s')
      | (r, s') \<Rightarrow> (r, s'))"
  by (auto simp: suppress_def run_simps split: prod.splits option.splits sum.splits exn.splits)

lemma run_writer_write [run_simps]:
  "run (writer_write c data) s =
     (Some (case next_write (transport_at s c) of WriteFails e \<Rightarrow> Inl (Raised e) | ev \<Rightarrow> Inr ev),
      upd_transport c (accept_bytes data) s)"
  by (auto simp: writer_write_def split: write_event.splits)

lemma run_drain [run_simps]:
  "run (drain event) s = (Some (case event of DrainFails e \<Rightarrow> Inl (Raised e) | _ \<Rightarrow> Inr ()), s)"
  by (auto simp: drain_def run_simps split: write_event.splits)

lemma run_read_event [run_simps]:
  "run (read_event c) s =
     (if t_in (transport_at s c) = [] \<and> t_open (transport_at s c) then (None, s)
      else (Some (Inr (case t_in (transport_at s c) of [] \<Rightarrow> None | e # _ \<Rightarrow> Some e)),
            upd_transport c (\<lambda>t. t\<lparr>t_in := tl (t_in t)\<rparr>) s))"
  by (auto simp: read_event_def run_simps)

lemma run_dispatch [run_simps]:
  "run (dispatch c m m') s =
     (case t_class (transport_at s c) of Connection \<Rightarrow> run m s | WebSocketConnection \<Rightarrow> run m' s)"
  by (simp add: dispatch_def run_simps split: connection_class.splits)

section \<open>Steps on one connection\<close>

text \<open>The relations for which a step on connection \<open>c\<close> is allowed.\<close>

locale connection_guarantee = guarantee R G
  for R G :: "'z net_scheme \<Rightarrow> 'z net_scheme \<Rightarrow> bool" +
  fixes c :: nat
  assumes G_upd: "G s s \<Longrightarrow> (\<And>t. evolves t (f t)) \<Longrightarrow> G s (upd_transport c f s)"
begin

lemma safe_upd: "(\<And>t. evolves t (f t)) \<Longrightarrow> safe R G (modify (upd_transport c f))"
  by (intro safe_modify G_upd)

lemma safe_reraise: "safe R G m \<Longrightarrow> safe R G (reraise_connection_lost causes m)"
  unfolding reraise_connection_lost_def
  by (intro safe_handle) (auto split: exn.splits simp: safe_Done)

lemma safe_suppress: "safe R G m \<Longrightarrow> safe R G (suppress causes m)"
  unfolding suppress_def by (intro safe_handle) (auto split: exn.splits simp: safe_Done)

lemma safe_dumped: "(\<And>data. safe R G (k data)) \<Longrightarrow> safe R G (dumped f k)"
  unfolding dumped_def by (auto split: sum.splits simp: safe_Done)

lemma safe_writer_write: "safe R G (writer_write c data)"
  unfolding writer_write_def
  by (intro safe_Act G_upd evolves_intros) (auto simp: safe_Done split: write_event.splits)

lemma safe_drain: "safe R G (drain event)"
  unfolding drain_def by (intro safe_bind safe_await) (auto simp: safe_Done split: write_event.splits)

lemma safe_read_event: "safe R G (read_event c)"
  unfolding read_event_def by (intro safe_bind safe_await safe_Act G_upd evolves_intros safe_Done)

lemma safe_close_outcome: "safe R G (case x of None \<Rightarrow> ret () | Some e \<Rightarrow> raise_py e)"
  by (cases x) (simp_all add: safe_Done)

lemma safe_deliver: "(\<And>f. safe R G (body f)) \<Longrightarrow> safe R G (deliver body fs)"
  by (induction fs) (auto intro!: safe_bind safe_Done split: option.splits)

lemma safe_read_frames_loop:
  assumes "safe R G read" and "\<And>f. safe R G (body f)"
  shows "safe R G (read_frames_loop read c n p body)"
proof (induction n arbitrary: p)
  case (Suc n)
  have "safe R G (modify (\<lambda>s. upd_transport c (\<lambda>t. t\<lparr>t_last_read_time := Some (n_time s)\<rparr>) s))"
    by (intro safe_modify G_upd evolves_intros)
  with Suc assms show ?case
    by (auto intro!: safe_bind safe_deliver safe_Done split: option.splits sum.splits prod.splits)
qed (simp add: safe_never)

lemma safe_read_frames_with:
  "safe R G (read c) \<Longrightarrow> (\<And>f. safe R G (body f)) \<Longrightarrow> safe R G (read_frames_with read c body)"
  unfolding read_frames_with_def by (intro safe_bind safe_get safe_read_frames_loop)

lemma safe_dispatch: "safe R G m \<Longrightarrow> safe R G m' \<Longrightarrow> safe R G (dispatch c m m')"
  unfolding dispatch_def by (intro safe_bind safe_get) (auto split: connection_class.splits)

lemmas connection_intros = safe_upd safe_reraise safe_suppress safe_dumped safe_writer_write
  safe_drain safe_read_event safe_close_outcome safe_deliver safe_dispatch safe_bind
  safe_await safe_get safe_Done evolves_intros

lemma safe_Connection:
  "safe R G (Connection_close c)" "safe R G (Connection_write_heartbeat c)"
  "safe R G (Connection_write_frame c f)" "safe R G (Connection_read c)"
  unfolding Connection_close_def Connection_write_heartbeat_def Connection_write_frame_def
    Connection_read_def read_non_empty_bytes_def
  by (intro connection_intros; auto intro!: connection_intros split: option.splits read_event.splits)+

lemma safe_WebSocketConnection:
  "safe R G (WebSocketConnection_close c)" "safe R G (WebSocketConnection_write_heartbeat c)"
  "safe R G (WebSocketConnection_write_frame c f)" "safe R G (WebSocketConnection_read c)"
  unfolding WebSocketConnection_close_def WebSocketConnection_write_heartbeat_def
    WebSocketConnection_write_frame_def WebSocketConnection_read_def websocket_recv_def
    websocket_send_def
  by (intro connection_intros; auto intro!: connection_intros split: option.splits read_event.splits)+

end

lemma touches_refl: "touches c s s"
  unfolding touches_def by (rule exI [of _ "transport_at s c"]) simp

lemma touches_trans:
  assumes "touches c s s'" "touches c s' s''" shows "touches c s s''"
proof -
  from assms obtain t t' where t: "evolves (transport_at s c) t" "s' = upd_transport c (\<lambda>_. t) s"
      "evolves (transport_at s' c) t'" "s'' = upd_transport c (\<lambda>_. t') s'"
    by (auto simp: touches_def)
  then show ?thesis
    by (cases "c < length (n_transports s)") (auto simp: touches_def comp_def intro: evolves_trans)
qed

lemma touches_upd: "(\<And>t. evolves t (f t)) \<Longrightarrow> touches c s (upd_transport c f s)"
  unfolding touches_def by (subst upd_transport_const) blast

interpretation touches: connection_guarantee "\<lambda>_ _. True" "touches c" c for c
  by unfold_locales (auto intro: touches_refl touches_trans touches_upd)

section \<open>Collecting what arrives\<close>

definition collect :: "nat \<Rightarrow> frame \<Rightarrow> ('z net_scheme, 'r option) coro" where
  "collect l f = seq (list_append l f) (ret None)"

lemma run_deliver_collect:
  "l < length (n_lists s) \<Longrightarrow>
   run (deliver (collect l) fs) s =
     (Some (Inr None), s\<lparr>n_lists := (n_lists s)[l := n_lists s ! l @ fs]\<rparr>)"
  by (induction fs arbitrary: s) (simp_all add: collect_def list_append_def run_simps)

text \<open>A loop body that does nothing but append to the list, on the given frames.\<close>

definition only_collects :: "nat \<Rightarrow> frame set \<Rightarrow> (frame \<Rightarrow> ('z net_scheme, 'r option) coro) \<Rightarrow> bool" where
  "only_collects l F body \<longleftrightarrow>
     (\<forall>gs s. set gs \<subseteq> F \<and> l < length (n_lists s) \<longrightarrow>
        run (deliver body gs) s =
          (Some (Inr None), s\<lparr>n_lists := (n_lists s)[l := n_lists s ! l @ gs]\<rparr>))"

lemma only_collectsD:
  "only_collects l F body \<Longrightarrow> set gs \<subseteq> F \<Longrightarrow> l < length (n_lists s) \<Longrightarrow>
   run (deliver body gs) s = (Some (Inr None), s\<lparr>n_lists := (n_lists s)[l := n_lists s ! l @ gs]\<rparr>)"
  by (simp add: only_collects_def)

lemma only_collects_mono: "only_collects l F body \<Longrightarrow> F' \<subseteq> F \<Longrightarrow> only_collects l F' body"
  unfolding only_collects_def by blast

lemma only_collects_collect: "only_collects l F (collect l)"
  by (simp add: only_collects_def run_deliver_collect)

lemma transport_at_n_lists [simp]: "transport_at (s\<lparr>n_lists := x\<rparr>) c = transport_at s c"
  by (simp add: transport_at_def)

lemma wire_heartbeat: "wire HeartbeatFrame = [NEWLINE]"
  by (simp add: wire_def dump_frame_def)

lemma n_time_upd [simp]: "n_time (upd_transport c f s) = n_time s"
  by (simp add: upd_transport_def)

lemma n_lists_upd [simp]: "n_lists (upd_transport c f s) = n_lists s"
  by (simp add: upd_transport_def)

text \<open>States that differ in the connections and the shared lists only.\<close>

definition same_but_net :: "'z net_scheme \<Rightarrow> 'z net_scheme \<Rightarrow> bool" where
  "same_but_net s s' \<longleftrightarrow> s' = s\<lparr>n_transports := n_transports s', n_lists := n_lists s'\<rparr>"

lemma same_but_net_trans:
  assumes "same_but_net s s'" "same_but_net s' s''" shows "same_but_net s s''"
proof -
  have "s'' = s'\<lparr>n_transports := n_transports s'', n_lists := n_lists s''\<rparr>"
    using assms(2) by (simp add: same_but_net_def)
  also have "\<dots> = s\<lparr>n_transports := n_transports s'', n_lists := n_lists s''\<rparr>"
    using assms(1) unfolding same_but_net_def by (metis (no_types, lifting) net.update_convs(3,4) net.surjective)
  finally show ?thesis by (simp add: same_but_net_def)
qed

section \<open>The interface of a connection class\<close>

text \<open>
  What the rest of the library relies on: every method changes its own connection only,
  whatever happens around it; a frame that was written without an exception has been handed
  to the network if the connection was open; a chunk that arrives is what the read returns.
\<close>

locale abstract_connection =
  fixes cls_close :: "nat \<Rightarrow> ('z net_scheme, unit) coro"
    and cls_write_heartbeat :: "nat \<Rightarrow> ('z net_scheme, unit) coro"
    and cls_write_frame :: "nat \<Rightarrow> frame \<Rightarrow> ('z net_scheme, unit) coro"
    and cls_read :: "nat \<Rightarrow> ('z net_scheme, bytes) coro"
  assumes close_touches: "connection_guarantee R G c \<Longrightarrow> safe R G (cls_close c)"
    and write_heartbeat_touches: "connection_guarantee R G c \<Longrightarrow> safe R G (cls_write_heartbeat c)"
    and write_frame_touches: "connection_guarantee R G c \<Longrightarrow> safe R G (cls_write_frame c f)"
    and read_touches: "connection_guarantee R G c \<Longrightarrow> safe R G (cls_read c)"
    and write_frame_sends:
      "dump_frame f = Inr data \<Longrightarrow> t_writes (transport_at s c) = [] \<Longrightarrow>
       run (cls_write_frame c f) s = (Some (Inr ()), upd_transport c (accept_bytes data) s)"
    and write_heartbeat_sends:
      "t_writes (transport_at s c) = [] \<Longrightarrow>
       run (cls_write_heartbeat c) s = (Some (Inr ()), upd_transport c (accept_bytes [NEWLINE]) s)"
    and close_closes:
      "run (cls_close c) s = (r, s') \<Longrightarrow> r \<noteq> None \<and> s' = upd_transport c (\<lambda>t. t\<lparr>t_open := False\<rparr>) s"
    and read_chunk:
      "t_in (transport_at s c) = Chunk chunk # rest \<Longrightarrow> chunk \<noteq> [] \<Longrightarrow>
       run (cls_read c) s = (Some (Inr chunk), upd_transport c (\<lambda>t. t\<lparr>t_in := tl (t_in t)\<rparr>) s)"
    and read_waits:
      "t_in (transport_at s c) = [] \<Longrightarrow> t_open (transport_at s c) \<Longrightarrow> run (cls_read c) s = (None, s)"
begin

lemma cls_write_all:
  assumes "\<forall>f \<in> set fs. f = HeartbeatFrame \<or> dump_frame f = Inr (wire f)"
    and "c < length (n_transports s)" "t_writes (transport_at s c) = []" "t_open (transport_at s c)"
  shows "run (for_each (\<lambda>f. if f = HeartbeatFrame then cls_write_heartbeat c else cls_write_frame c f) fs) s =
     (Some (Inr ()), upd_transport c (\<lambda>t. t\<lparr>t_out := t_out t @ map wire fs\<rparr>) s)"
  using assms
proof (induction fs arbitrary: s)
  case Nil
  then show ?case by (simp add: upd_transport_id)
next
  case (Cons f fs)
  let ?w = "\<lambda>f. if f = HeartbeatFrame then cls_write_heartbeat c else cls_write_frame c f"
  let ?s = "upd_transport c (accept_bytes (wire f)) s"
  have acc: "accept_bytes (wire f) (transport_at s c) =
      (transport_at s c)\<lparr>t_out := t_out (transport_at s c) @ [wire f]\<rparr>"
    using Cons.prems by (simp add: accept_bytes_def next_write_def)
  then have "run (for_each ?w fs) ?s =
     (Some (Inr ()), upd_transport c (\<lambda>t. t\<lparr>t_out := t_out t @ map wire fs\<rparr>) ?s)"
    using Cons.prems by (intro Cons.IH) simp_all
  moreover have "upd_transport c (\<lambda>t. t\<lparr>t_out := t_out t @ map wire fs\<rparr>) ?s =
      upd_transport c (\<lambda>t. t\<lparr>t_out := t_out t @ map wire (f # fs)\<rparr>) s"
    unfolding upd_transport_upd by (rule upd_transport_cong) (simp add: acc)
  moreover have "run (?w f) s = (Some (Inr ()), ?s)"
    using write_frame_sends [of f "wire f" s c] write_heartbeat_sends [of s c] Cons.prems
    by (auto simp: wire_heartbeat)
  ultimately show ?case by (simp add: run_simps)
qed

text \<open>Reading chunks: their frames are delivered in order, the time of the last one is noted, and
  the loop goes on with what comes after them.\<close>

lemma cls_read_chunks:
  fixes s :: "'z net_scheme" and body :: "frame \<Rightarrow> ('z net_scheme, 'r option) coro"
  assumes "feed parse_byte p (concat chunks) = (fs, Inr p')"
    and "t_in (transport_at s c) = map Chunk chunks @ rest" and "[] \<notin> set chunks"
    and "c < length (n_transports s)" "l < length (n_lists s)" "length chunks \<le> n"
    and "only_collects l (set fs) body"
  shows "\<exists>s'. run (read_frames_loop (cls_read c) c n p body) s =
               run (read_frames_loop (cls_read c) c (n - length chunks) p' body) s' \<and>
     n_lists s' = (n_lists s)[l := n_lists s ! l @ fs] \<and> n_time s' = n_time s \<and>
     length (n_transports s') = length (n_transports s) \<and> same_but_net s s' \<and>
     transport_at s' c = (transport_at s c)\<lparr>t_in := rest,
       t_last_read_time := (if chunks = [] then t_last_read_time (transport_at s c)
                            else Some (n_time s))\<rparr>"
  using assms
proof (induction chunks arbitrary: s n p fs)
  case Nil
  then show ?case
    by (intro exI [of _ s]) (auto simp: same_but_net_def)
next
  case (Cons chunk chunks)
  then obtain m where n: "n = Suc m" "length chunks \<le> m" by (cases n) auto
  from Cons.prems(1) obtain gs p1 hs where
    f1: "feed parse_byte p chunk = (gs, Inr p1)" and
    f2: "feed parse_byte p1 (concat chunks) = (hs, Inr p')" "fs = gs @ hs"
    by (auto simp: feed_append split: prod.splits sum.splits)
  let ?s1 = "upd_transport c (\<lambda>t. t\<lparr>t_in := tl (t_in t)\<rparr>) s"
  let ?s2 = "upd_transport c (\<lambda>t. t\<lparr>t_last_read_time := Some (n_time ?s1)\<rparr>) ?s1"
  let ?s3 = "?s2\<lparr>n_lists := (n_lists s)[l := n_lists s ! l @ gs]\<rparr>"
  have skips: "only_collects l (set hs) body"
    using Cons.prems(7) f2(2) by (auto intro: only_collects_mono)
  have "run (cls_read c) s = (Some (Inr chunk), ?s1)"
    using Cons.prems by (intro read_chunk) auto
  moreover have "run (deliver body gs) ?s2 = (Some (Inr None), ?s3)"
    using only_collectsD [OF Cons.prems(7), of gs ?s2] Cons.prems(5) f2(2) by simp
  ultimately have "run (read_frames_loop (cls_read c) c n p body) s =
      run (read_frames_loop (cls_read c) c m p1 body) ?s3"
    using n f1 by (simp add: run_simps parse_frames_from_chunk_def)
  moreover obtain s' where "run (read_frames_loop (cls_read c) c m p1 body) ?s3 =
        run (read_frames_loop (cls_read c) c (m - length chunks) p' body) s'"
      "n_lists s' = (n_lists ?s3)[l := n_lists ?s3 ! l @ hs]" "n_time s' = n_time ?s3"
      "length (n_transports s') = length (n_transports ?s3)" "same_but_net ?s3 s'"
      "transport_at s' c = (transport_at ?s3 c)\<lparr>t_in := rest,
         t_last_read_time := (if chunks = [] then t_last_read_time (transport_at ?s3 c)
                              else Some (n_time ?s3))\<rparr>"
    using Cons.IH [OF f2(1) _ _ _ _ _ skips, of ?s3 m] Cons.prems(2-5) n by auto
  moreover have "same_but_net s ?s3"
    by (simp add: same_but_net_def upd_transport_def)
  ultimately show ?case
    using Cons.prems n f2(2) same_but_net_trans by (intro exI [of _ s']) auto
qed

text \<open>With nothing after them, the reader waits.\<close>

lemma cls_read_all:
  fixes s :: "'z net_scheme"
  assumes "feed parse_byte FrameParser_init (concat chunks) = (fs, Inr p')"
    and "t_in (transport_at s c) = map Chunk chunks" and "[] \<notin> set chunks"
    and "c < length (n_transports s)" "t_open (transport_at s c)" and "l < length (n_lists s)"
  shows "\<exists>s'. run (read_frames_with cls_read c
                 (collect l :: frame \<Rightarrow> ('z net_scheme, 'r option) coro)) s = (None, s') \<and>
     n_lists s' = (n_lists s)[l := n_lists s ! l @ fs]"
proof -
  let ?body = "collect l :: frame \<Rightarrow> ('z net_scheme, 'r option) coro"
  obtain s' where "run (read_frames_loop (cls_read c) c (Suc (length chunks)) FrameParser_init ?body) s =
        run (read_frames_loop (cls_read c) c 1 p' ?body) s'"
      "n_lists s' = (n_lists s)[l := n_lists s ! l @ fs]"
      "t_in (transport_at s' c) = []" "t_open (transport_at s' c)"
    using cls_read_chunks [OF assms(1) _ _ _ _ _ only_collects_collect, of s c "[]" l
        "Suc (length chunks)", where 'r = 'r] assms
    by (auto simp del: read_frames_loop.simps)
  with read_waits [of s' c] assms(2) show ?thesis
    by (auto simp: read_frames_with_def run_simps simp del: read_frames_loop.simps(2)
        intro!: exI [of _ s']) (simp add: run_simps)
qed

end

lemmas class_defs =
  Connection_close_def Connection_write_heartbeat_def Connection_write_frame_def
  Connection_read_def read_non_empty_bytes_def
  WebSocketConnection_close_def WebSocketConnection_write_heartbeat_def
  WebSocketConnection_write_frame_def WebSocketConnection_read_def websocket_recv_def
  websocket_send_def

interpretation stream: abstract_connection
  Connection_close Connection_write_heartbeat Connection_write_frame Connection_read
  by unfold_locales (simp_all add: connection_guarantee.safe_Connection,
    auto simp: class_defs dumped_def next_write_def run_simps
      split: option.splits if_splits)

interpretation websocket: abstract_connection
  WebSocketConnection_close WebSocketConnection_write_heartbeat WebSocketConnection_write_frame
  WebSocketConnection_read
  by unfold_locales (simp_all add: connection_guarantee.safe_WebSocketConnection,
    auto simp: class_defs dumped_def next_write_def
      run_simps split: option.splits if_splits)

text \<open>A connection object dispatches on its class, and so implements the interface too.\<close>

lemmas method_defs = close_def write_heartbeat_def write_frame_def

lemma safe_methods:
  assumes "connection_guarantee R G c"
  shows "safe R G (close c)" "safe R G (write_heartbeat c)" "safe R G (write_frame c f)"
    "safe R G (dispatch c (Connection_read c) (WebSocketConnection_read c))"
  using assms
  by (simp_all add: method_defs connection_guarantee.safe_dispatch
      connection_guarantee.safe_Connection connection_guarantee.safe_WebSocketConnection)

lemma safe_read_frames:
  assumes "connection_guarantee R G c" and "\<And>f. safe R G (body f)"
  shows "safe R G (read_frames c body)"
  unfolding read_frames_def Connection_read_frames_def WebSocketConnection_read_frames_def
  by (intro connection_guarantee.safe_dispatch connection_guarantee.safe_read_frames_with
      connection_guarantee.safe_Connection connection_guarantee.safe_WebSocketConnection assms)

interpretation any: abstract_connection close write_heartbeat write_frame
  "\<lambda>c. dispatch c (Connection_read c) (WebSocketConnection_read c)"
  by unfold_locales (simp_all add: safe_methods,
    auto simp: method_defs run_simps stream.write_frame_sends websocket.write_frame_sends
      stream.write_heartbeat_sends websocket.write_heartbeat_sends
      stream.read_chunk websocket.read_chunk stream.read_waits websocket.read_waits
      dest: stream.close_closes websocket.close_closes
      split: connection_class.splits)

lemma read_frames_all:
  fixes s :: "'z net_scheme"
  assumes "feed parse_byte FrameParser_init (concat chunks) = (fs, Inr p')"
    and "t_in (transport_at s c) = map Chunk chunks" and "[] \<notin> set chunks"
    and "c < length (n_transports s)" "t_open (transport_at s c)" and "l < length (n_lists s)"
  shows "\<exists>s'. run (read_frames c (collect l :: frame \<Rightarrow> ('z net_scheme, 'r option) coro)) s = (None, s') \<and>
     n_lists s' = (n_lists s)[l := n_lists s ! l @ fs]"
  using stream.cls_read_all [where 'r = 'r, OF assms] websocket.cls_read_all [where 'r = 'r, OF assms]
  by (simp add: read_frames_def Connection_read_frames_def WebSocketConnection_read_frames_def
      run_simps split: connection_class.splits)

section \<open>The whole network\<close>

text \<open>Connections evolve, new ones are added, time moves on.\<close>

definition net_evolves :: "'z net_scheme \<Rightarrow> 'z net_scheme \<Rightarrow> bool" where
  "net_evolves s s' \<longleftrightarrow>
     length (n_transports s) \<le> length (n_transports s') \<and> n_time s \<le> n_time s' \<and>
     (\<forall>c < length (n_transports s). evolves (transport_at s c) (transport_at s' c))"

lemma net_evolves_upd: "(\<And>t. evolves t (f t)) \<Longrightarrow> net_evolves s (upd_transport c f s)"
  by (simp add: net_evolves_def)

lemma n_current_upd [simp]: "n_current (upd_transport c f s) = n_current s"
  by (simp add: upd_transport_def)

lemma net_more_upd [simp]: "net.more (upd_transport c f s) = net.more s"
  by (simp add: upd_transport_def)

text \<open>The relations that allow every step on the network that leaves the rest of the state alone.\<close>

locale net_guarantee = guarantee R G
  for R G :: "'z net_scheme \<Rightarrow> 'z net_scheme \<Rightarrow> bool" +
  assumes G_net: "G s s \<Longrightarrow> net_evolves s s' \<Longrightarrow> n_current s' = n_current s \<Longrightarrow> net.more s' = net.more s \<Longrightarrow> G s s'"
begin

lemma connection: "connection_guarantee R G c"
  by unfold_locales (simp add: G_net net_evolves_upd)

lemma safe_Act_net:
  assumes "\<And>s. net_evolves s (u s) \<and> n_current (u s) = n_current s \<and> net.more (u s) = net.more s"
    and "\<And>s. safe R G (k s)"
  shows "safe R G (Act u k)"
  by (rule safe_Act) (simp_all add: G_net assms)

lemma safe_modify_net:
  "(\<And>s. net_evolves s (u s) \<and> n_current (u s) = n_current s \<and> net.more (u s) = net.more s) \<Longrightarrow>
   safe R G (modify u)"
  unfolding modify_def by (intro safe_Act_net safe_Done)

lemma safe_logger: "safe R G (logger level message)"
  unfolding logger_def by (rule safe_modify_net) (simp add: net_evolves_def transport_at_def)

lemma safe_uuid4: "safe R G uuid4"
  unfolding uuid4_def
  by (rule safe_Act_net) (simp_all add: safe_Done net_evolves_def transport_at_def)

lemma safe_sleep: "safe R G (sleep seconds)"
  unfolding sleep_def
  by (intro safe_bind safe_await safe_modify_net) (simp add: net_evolves_def transport_at_def)

lemma safe_new_list: "safe R G new_list"
  unfolding new_list_def
  by (rule safe_Act_net) (simp_all add: safe_Done net_evolves_def transport_at_def)

lemma safe_list_append: "safe R G (list_append l f)"
  unfolding list_append_def
  by (rule safe_modify_net) (simp add: net_evolves_def transport_at_def)

lemma safe_open_transport: "safe R G (open_transport cls address ssl n event)"
proof (cases event)
  case (Opened p)
  then show ?thesis
    unfolding open_transport_def
    by (auto intro!: safe_bind safe_await safe_Act_net safe_Done
        simp: net_evolves_def transport_at_def nth_append)
qed (simp add: open_transport_def safe_bind safe_await safe_Done)

lemma safe_none_on: "safe R G m \<Longrightarrow> safe R G (none_on causes m)"
  unfolding none_on_def by (auto intro!: safe_handle safe_bind safe_Done split: exn.splits)

lemma safe_connect: "safe R G (connect cls h p n ssl path event)"
  unfolding connect_def
  by (cases cls) (auto simp: Connection_connect_def WebSocketConnection_connect_def
      intro!: safe_none_on safe_Done safe_open_transport split: sum.splits)

lemmas net_intros = safe_logger safe_uuid4 safe_sleep safe_new_list safe_list_append safe_connect
  safe_methods [OF connection] safe_read_frames [OF connection]

end

interpretation net_evolves: net_guarantee "\<lambda>_ _. True" net_evolves
  by unfold_locales (auto simp: net_evolves_def intro: evolves_trans)

text \<open>Tasks that act on the network only can be interleaved.\<close>

definition resume_task :: "nat \<Rightarrow> 'z net_scheme \<Rightarrow> 'z net_scheme" where
  "resume_task i s = s\<lparr>n_current := i\<rparr>"

definition time_passes :: "'z net_scheme \<Rightarrow> 'z net_scheme \<Rightarrow> bool" where
  "time_passes s s' \<longleftrightarrow> (\<exists>t \<ge> n_time s. s' = s\<lparr>n_time := t\<rparr>)"

lemma transport_at_other [simp]:
  "transport_at (s\<lparr>n_current := i\<rparr>) c = transport_at s c"
  "transport_at (s\<lparr>n_time := t\<rparr>) c = transport_at s c"
  by (simp_all add: transport_at_def)

interpretation net_pool: interleaving resume_task "\<lambda>_ _ _. True" "\<lambda>_. net_evolves"
  time_passes net_evolves
  by unfold_locales
    (auto simp: net_evolves_def resume_task_def time_passes_def intro: evolves_trans)

section \<open>Properties\<close>

text \<open>What a sender does: frames by \<open>write_frame\<close>, heart-beats by \<open>write_heartbeat\<close>.\<close>

definition transmit :: "nat \<Rightarrow> frame \<Rightarrow> ('z net_scheme, unit) coro" where
  "transmit c f = (if f = HeartbeatFrame then write_heartbeat c else write_frame c f)"

lemma transmit_all:
  assumes "\<forall>f \<in> set fs. f = HeartbeatFrame \<or> dumpable f"
    and "c < length (n_transports s)" "t_writes (transport_at s c) = []" "t_open (transport_at s c)"
  shows "run (for_each (transmit c) fs) s =
     (Some (Inr ()), upd_transport c (\<lambda>t. t\<lparr>t_out := t_out t @ map wire fs\<rparr>) s)"
proof -
  have "dump_frame f = Inr (wire f)" if "dumpable f" for f
    using feed_dump_frame [OF idle_init that] by (auto simp: wire_def)
  with any.cls_write_all [of fs c s] assms show ?thesis
    by (auto simp: transmit_def [abs_def])
qed

text \<open>C32. End to end over two connections of either class: the frames and heart-beats that one
  side writes, delivered to the other side in non-empty chunks cut anywhere, are yielded there
  by \<open>read_frames\<close> in order, each equal to the one written, and then the reader waits.\<close>

theorem connection_end_to_end:
  fixes s :: "'z net_scheme"
  assumes "\<forall>f \<in> set fs. f = HeartbeatFrame \<or> dumpable f"
    and "c < length (n_transports s)" "t_open (transport_at s c)" "t_writes (transport_at s c) = []"
  shows "\<exists>s' sent. run (for_each (transmit c) fs) s = (Some (Inr ()), s') \<and>
     t_out (transport_at s' c) = t_out (transport_at s c) @ sent \<and>
     (\<forall>s2 d l chunks. concat chunks = concat sent \<and> [] \<notin> set chunks \<and>
        t_in (transport_at (s2 :: 'y net_scheme) d) = map Chunk chunks \<and>
        d < length (n_transports s2) \<and> t_open (transport_at s2 d) \<and> l < length (n_lists s2) \<longrightarrow>
        (\<exists>s2' gs. run (read_frames d (collect l :: frame \<Rightarrow> ('y net_scheme, unit option) coro)) s2 = (None, s2') \<and>
           n_lists s2' ! l = n_lists s2 ! l @ gs \<and> list_all2 frame_eq fs gs))"
proof -
  let ?s = "upd_transport c (\<lambda>t. t\<lparr>t_out := t_out t @ map wire fs\<rparr>) s"
  obtain p where p: "feed parse_byte FrameParser_init (concat (map wire fs)) =
      (map sorted_frame fs, Inr p)"
    using feed_wires [OF idle_init assms(1)] by blast
  have eq: "list_all2 frame_eq fs (map sorted_frame fs)"
    by (rule sorted_frames_eq [OF assms(1)])
  have "\<exists>s2' gs. run (read_frames d (collect l :: frame \<Rightarrow> ('y net_scheme, unit option) coro)) s2 = (None, s2') \<and>
           n_lists s2' ! l = n_lists s2 ! l @ gs \<and> list_all2 frame_eq fs gs"
    if "concat chunks = concat (map wire fs)" "[] \<notin> set chunks"
      "t_in (transport_at s2 d) = map Chunk chunks"
      "d < length (n_transports s2)" "t_open (transport_at s2 d)" "l < length (n_lists s2)"
    for s2 :: "'y net_scheme" and d l chunks
    using read_frames_all [where 'r = unit, of chunks _ p s2 d l] p that eq by fastforce
  moreover have "run (for_each (transmit c) fs) s = (Some (Inr ()), ?s)"
    using transmit_all [of fs c s] assms by simp
  moreover have "t_out (transport_at ?s c) = t_out (transport_at s c) @ map wire fs"
    using assms(2) by simp
  ultimately show ?thesis by blast
qed

text \<open>\<open>write_frame\<close> on every branch: a frame that cannot be encoded raises and sends
  nothing; otherwise its bytes are handed over in one piece if the connection is open and the
  write is accepted, and a failure becomes \<open>ConnectionLostError\<close> exactly for the classes
  that the connection class names: \<open>RuntimeError\<close> on writing and \<open>ConnectionError\<close> on draining
  for the stream, and \<open>RuntimeError\<close>, \<open>OSError\<close> and \<open>WebSocketException\<close> for the WebSocket.\<close>

theorem write_frame_outcome:
  "run (write_frame c f) s =
     (let t = transport_at s c in
      case dump_frame f of
        Inl e \<Rightarrow> (Some (Inl (Raised e)), s)
      | Inr data \<Rightarrow>
          (Some (case (next_write t, t_class t) of
                   (WriteOk, _) \<Rightarrow> Inr ()
                 | (WriteFails e, Connection) \<Rightarrow> Inl (lost_if [C_RuntimeError] e)
                 | (DrainFails e, Connection) \<Rightarrow> Inl (lost_if [C_ConnectionError] e)
                 | (WriteFails e, WebSocketConnection) \<Rightarrow>
                     Inl (lost_if [C_RuntimeError, C_OSError, C_WebSocketException] e)
                 | (DrainFails e, WebSocketConnection) \<Rightarrow>
                     Inl (lost_if [C_RuntimeError, C_OSError, C_WebSocketException] e)),
           upd_transport c (accept_bytes data) s))"
proof -
  have "lost_if causes e = Raised e" if "dump_frame f = Inl e" "C_TimeoutError \<notin> set causes" for e causes
    using dump_frame_error [OF that(1)] that(2) by (auto simp: lost_if_def isinstance_any_def list_ex_iff elim: isinstance.elims)
  then show ?thesis
    by (auto simp: write_frame_def class_defs dumped_def run_simps Let_def
        split: sum.splits write_event.splits connection_class.splits)
qed

text \<open>A network with one open connection, for concrete instances.\<close>

definition quiet_peer :: peer where
  "quiet_peer = \<lparr>peer_reads = [], peer_writes = [], peer_close = None, peer_closed_recv = WebSocketException\<rparr>"

definition sample_net :: "connection_class \<Rightarrow> peer \<Rightarrow> net" where
  "sample_net cls p =
     \<lparr>n_time = 0, n_rounds = [], n_transports = [new_transport cls (Uri []) None 1024 p],
      n_lists = [[]], n_log = [], n_uuid = (\<lambda>n. str_nat n), n_uuid_count = 0, n_current = 0\<rparr>"

lemmas sample_simps = sample_net_def quiet_peer_def new_transport_def transport_at_def

theorem connection_end_to_end_witness:
  "\<exists>s' sent. run (for_each (transmit 0) [HeartbeatFrame, AckFrame [(lit ''id'', lit ''7'')]])
       (sample_net Connection quiet_peer) = (Some (Inr ()), s') \<and>
     t_out (transport_at s' 0) = [] @ sent \<and>
     (\<forall>s2 d l chunks. concat chunks = concat sent \<and> [] \<notin> set chunks \<and>
        t_in (transport_at (s2 :: net) d) = map Chunk chunks \<and>
        d < length (n_transports s2) \<and> t_open (transport_at s2 d) \<and> l < length (n_lists s2) \<longrightarrow>
        (\<exists>s2' gs. run (read_frames d (collect l :: frame \<Rightarrow> (net, unit option) coro)) s2 = (None, s2') \<and>
           n_lists s2' ! l = n_lists s2 ! l @ gs \<and>
           list_all2 frame_eq [HeartbeatFrame, AckFrame [(lit ''id'', lit ''7'')]] gs))"
proof -
  let ?fs = "[HeartbeatFrame, AckFrame [(lit ''id'', lit ''7'')]]"
  have "\<not> is_content_length (lit ''id'')"
    by (simp add: is_content_length_def ascii_lower_def lit_def)
  then have "\<forall>f \<in> set ?fs. f = HeartbeatFrame \<or> dumpable f"
    by (simp add: dumpable_def delimited_def announce_def clean_evals)
  moreover have "t_out (transport_at (sample_net Connection quiet_peer) 0) = []"
    by (simp add: sample_simps)
  ultimately show ?thesis
    using connection_end_to_end [where 'y = unit, of ?fs 0 "sample_net Connection quiet_peer"]
    by (simp add: sample_simps del: for_each.simps)
qed

text \<open>The read events that end a connection, with the reason that is reported.\<close>

fun lost_by :: "connection_class \<Rightarrow> read_event \<Rightarrow> lost_reason option" where
  "lost_by Connection (Chunk chunk) = (if chunk = [] then Some (Reason_text ''eof'') else None)"
| "lost_by Connection (ReadFails e) =
     (if e = ConnectionError then Some (Reason_exception e) else None)"
| "lost_by WebSocketConnection (Chunk chunk) = None"
| "lost_by WebSocketConnection (ReadFails e) =
     (if isinstance_any e [C_RuntimeError, C_OSError, C_WebSocketException]
      then Some (Reason_exception e) else None)"

lemma read_lost:
  assumes "t_in (transport_at s c) = e # rest" "lost_by (t_class (transport_at s c)) e = Some r"
  shows "\<exists>s'. run (case t_class (transport_at s c) of
        Connection \<Rightarrow> Connection_read c | WebSocketConnection \<Rightarrow> WebSocketConnection_read c) s =
      (Some (Inl (ConnectionLostError r)), s') \<and> n_lists s' = n_lists s \<and>
      t_last_read_time (transport_at s' c) = t_last_read_time (transport_at s c)"
  using assms
  by (cases e; cases "t_class (transport_at s c)")
    (auto simp: class_defs run_simps lost_if_def isinstance_any_def split: if_splits)

text \<open>When the peer goes away, \<open>read_frames\<close> first yields every frame that arrived complete,
  however the bytes were cut, and then raises \<open>ConnectionLostError\<close>; an unfinished frame is
  dropped. The time of the last read is that of the last chunk.\<close>

lemma read_frames_until_lost:
  fixes s :: "'z net_scheme"
  assumes "t_in (transport_at s c) = map Chunk chunks @ e # rest" and "[] \<notin> set chunks"
    and "lost_by (t_class (transport_at s c)) e = Some r"
    and "c < length (n_transports s)" and "l < length (n_lists s)"
  shows "\<exists>s'. run (read_frames c (collect l :: frame \<Rightarrow> ('z net_scheme, 'r option) coro)) s =
        (Some (Inl (ConnectionLostError r)), s') \<and>
      n_lists s' ! l = n_lists s ! l @ fst (feed parse_byte FrameParser_init (concat chunks)) \<and>
      (chunks \<noteq> [] \<longrightarrow> t_last_read_time (transport_at s' c) = Some (n_time s))"
proof -
  obtain fs p' where p': "feed parse_byte FrameParser_init (concat chunks) = (fs, Inr p')"
    using parser.feed_total [OF parser_inv_init] by blast
  let ?n = "length (map Chunk chunks @ e # rest)"
  let ?read = "\<lambda>c. case t_class (transport_at s c) of
      Connection \<Rightarrow> Connection_read c | WebSocketConnection \<Rightarrow> WebSocketConnection_read c"
  let ?body = "collect l :: frame \<Rightarrow> ('z net_scheme, 'r option) coro"
  obtain s1 where s1: "run (read_frames_loop (?read c) c (Suc ?n) FrameParser_init ?body) s =
        run (read_frames_loop (?read c) c (Suc ?n - length chunks) p' ?body) s1"
      "n_lists s1 = (n_lists s)[l := n_lists s ! l @ fs]"
      "transport_at s1 c = (transport_at s c)\<lparr>t_in := e # rest,
       t_last_read_time := (if chunks = [] then t_last_read_time (transport_at s c)
                            else Some (n_time s))\<rparr>"
    using stream.cls_read_chunks [OF p' assms(1,2,4,5) _ only_collects_collect, of "Suc ?n", where 'r = 'r]
      websocket.cls_read_chunks [OF p' assms(1,2,4,5) _ only_collects_collect, of "Suc ?n", where 'r = 'r]
    by (cases "t_class (transport_at s c)") (auto simp del: read_frames_loop.simps)
  moreover obtain s2 where "run (?read c) s1 = (Some (Inl (ConnectionLostError r)), s2)"
      "n_lists s2 = n_lists s1" "t_last_read_time (transport_at s2 c) = t_last_read_time (transport_at s1 c)"
    using read_lost [of s1 c e rest r] s1 assms(3) by auto
  moreover have "run (read_frames c ?body) s =
      run (read_frames_loop (?read c) c (Suc ?n) FrameParser_init ?body) s"
    using assms(1)
    by (simp add: read_frames_def Connection_read_frames_def WebSocketConnection_read_frames_def
        read_frames_with_def run_simps del: read_frames_loop.simps split: connection_class.splits)
  ultimately show ?thesis
    using assms(5) p' by (auto simp: run_simps Suc_diff_le)
qed

text \<open>A heart-beat over a stream reports a failing write as a lost connection (when the
  transport raises \<open>RuntimeError\<close>); over a WebSocket it never raises, whatever happens to the
  bytes, so that a dead WebSocket is not noticed by the heart-beats.\<close>

theorem heartbeat_failures:
  "fst (run (WebSocketConnection_write_heartbeat c) s) = Some (Inr ()) \<and>
   fst (run (Connection_write_heartbeat c) s) =
     Some (case next_write (transport_at s c) of
             WriteFails e \<Rightarrow> Inl (lost_if [C_RuntimeError] e)
           | _ \<Rightarrow> Inr ())"
  by (auto simp: class_defs run_simps split: write_event.splits)

text \<open>All calls that the library makes on connection objects, with any arguments.\<close>

definition connection_calls :: "('z net_scheme, unit) coro set" where
  "connection_calls =
     {m. \<exists>c f cls h p n ssl path event l.
        m \<in> {close c, write_heartbeat c, write_frame c f, read_frames c (collect l),
             bind (connect cls h p n ssl path event) (\<lambda>_. ret ())}}"

text \<open>However any number of tasks that connect, write, read and close are interleaved and
  cancelled, on every connection the output only grows, a closed connection stays closed, and
  nothing is sent on it any more.\<close>

lemma connections_evolve:
  assumes "(pool_step resume_task connection_calls time_passes)\<^sup>*\<^sup>* (s, []) (s', ts)"
    and "c < length (n_transports s)"
  shows "prefix (t_out (transport_at s c)) (t_out (transport_at s' c)) \<and>
    (\<not> t_open (transport_at s c) \<longrightarrow>
       \<not> t_open (transport_at s' c) \<and> t_out (transport_at s' c) = t_out (transport_at s c))"
proof -
  have "safe (\<lambda>_ _. True) net_evolves m" if "m \<in> connection_calls" for m :: "('z net_scheme, unit) coro"
    using that
    by (auto simp: connection_calls_def collect_def
        intro!: net_evolves.net_intros net_evolves.safe_bind net_evolves.safe_Done)
  from net_pool.pool_run [OF assms(1) net_pool.pool_ok_empty this] have "net_evolves s s'" by blast
  with assms(2) show ?thesis by (auto simp: net_evolves_def evolves_def)
qed

end
