(* ===== verification/Connection_Manager.thy ===== *)
theory Connection_Manager
  imports Connection_Laws
begin

text \<open>
  \<open>stompman/connection_manager.py\<close>: keeps one active connection, reconnects when it is lost,
  and writes and reads through it.

  The configuration of the manager is a record that every operation takes (\<open>self\<close>); what
  changes is the state \<open>manager\<close>, an extension of the network. The lifespan objects that the
  factory makes appear as the functions \<open>enter\<close> and \<open>exit\<close> of a connection and its
  parameters, as in the code, where the manager knows only their interface.
\<close>

section \<open>State\<close>

record ActiveConnectionState =
  acs_connection :: nat
  acs_parameters :: ConnectionParameters
  acs_server_heartbeat :: Heartbeat
  acs_connected_at :: rat

text \<open>The fields that the constructor sets. Intervals are in seconds.\<close>

record ConnectionManager =
  cm_servers :: "ConnectionParameters list"
  cm_connection_class :: connection_class
  cm_connect_retry_attempts :: int
  cm_connect_retry_interval :: int
  cm_connect_timeout :: int
  cm_ssl :: "nat option"
  cm_read_max_chunk_size :: int
  cm_write_retry_attempts :: int
  cm_check_server_alive_interval_factor :: int
  cm_no_message_restart_interval :: "rat option"
  cm_keep_alive_on_connection_failure :: bool

text \<open>The background tasks that the manager creates: what they run, and whether \<open>cancel\<close> was
  called on them.\<close>

datatype background = SleepZero | SendHeartbeatsForever int | MonitorNoMessageTimeout rat

text \<open>
  The changing fields. Tasks are referred to by their position in \<open>m_tasks\<close>. \<open>m_abandoned\<close>
  holds the connection attempts that are still running although nobody waits for them.
\<close>

record manager = net +
  active_connection_state :: "ActiveConnectionState option"
  reconnect_lock :: "nat option"
  m_tasks :: "(background \<times> bool) list"
  send_heartbeat_task :: nat
  monitor_no_message_task :: "nat option"
  reconnection_count :: nat
  last_message_received_time :: rat
  m_abandoned :: "(ConnectionParameters \<times> open_event) list"

type_synonym 'z lifespan_enter =
  "nat \<Rightarrow> ConnectionParameters \<Rightarrow> ('z manager_scheme, Heartbeat + connection_issue) coro"

type_synonym 'z lifespan_exit =
  "nat \<Rightarrow> ConnectionParameters \<Rightarrow> ('z manager_scheme, unit) coro"

text \<open>\<open>ActiveConnectionState.is_alive\<close>.\<close>

definition acs_is_alive :: "ActiveConnectionState \<Rightarrow> int \<Rightarrow> 'z net_scheme \<Rightarrow> bool" where
  "acs_is_alive st factor s =
     (let threshold_seconds =
            of_int (will_send_interval_ms (acs_server_heartbeat st)) / 1000 * of_int factor;
          now = n_time s
      in case t_last_read_time (transport_at s (acs_connection st)) of
           None \<Rightarrow> now - acs_connected_at st < threshold_seconds
         | Some last_read_time \<Rightarrow> now - last_read_time < threshold_seconds)"

definition log_dropped_frame :: "frame \<Rightarrow> string \<Rightarrow> ('z net_scheme, unit) coro" where
  "log_dropped_frame frame reason =
     (case frame of
        NackFrame _ \<Rightarrow> logger Error (''dropping NACK: '' @ reason)
      | AckFrame _ \<Rightarrow> logger Warning (''dropping ACK: '' @ reason)
      | _ \<Rightarrow> logger Info (''dropping frame: '' @ reason))"

section \<open>Background tasks\<close>

definition create_task :: "background \<Rightarrow> ('z manager_scheme, nat) coro" where
  "create_task b =
     Act (\<lambda>s. s\<lparr>m_tasks := m_tasks s @ [(b, False)]\<rparr>) (\<lambda>s. ret (length (m_tasks s)))"

definition cancel_task :: "nat \<Rightarrow> ('z manager_scheme, unit) coro" where
  "cancel_task i =
     modify (\<lambda>s. s\<lparr>m_tasks := (m_tasks s)[i := (fst (m_tasks s ! i), True)]\<rparr>)"

definition restart_background_tasks :: "Heartbeat \<Rightarrow> ('z manager_scheme, unit) coro" where
  "restart_background_tasks server_heartbeat =
     seq (bind (get send_heartbeat_task) cancel_task)
       (bind (create_task (SendHeartbeatsForever (want_to_receive_interval_ms server_heartbeat)))
          (\<lambda>i. modify (\<lambda>s. s\<lparr>send_heartbeat_task := i\<rparr>)))"

definition restart_no_message_monitor :: "ConnectionManager \<Rightarrow> ('z manager_scheme, unit) coro" where
  "restart_no_message_monitor self =
     seq (bind (get monitor_no_message_task)
            (\<lambda>task. case task of None \<Rightarrow> ret () | Some i \<Rightarrow> cancel_task i))
       (case cm_no_message_restart_interval self of
          None \<Rightarrow> ret ()
        | Some interval \<Rightarrow>
            bind (create_task (MonitorNoMessageTimeout interval))
              (\<lambda>i. modify (\<lambda>s. s\<lparr>monitor_no_message_task := Some i\<rparr>)))"

section \<open>Connecting\<close>

definition create_connection_to_one_server ::
  "ConnectionManager \<Rightarrow> ConnectionParameters \<Rightarrow> open_event
     \<Rightarrow> ('z net_scheme, (nat \<times> ConnectionParameters) option) coro" where
  "create_connection_to_one_server self server event =
     bind (connect (cm_connection_class self) (cp_host server) (cp_port server)
             (cm_read_max_chunk_size self) (cm_ssl self) (cp_ws_uri_path server) event)
       (\<lambda>connection. case connection of None \<Rightarrow> ret None | Some c \<Rightarrow> ret (Some (c, server)))"

text \<open>
  \<open>asyncio.as_completed\<close>: the attempts end in an order that the environment chooses, given by
  the next round of its script. A server that the round does not mention does not answer, and
  its attempt ends last, with the timeout of \<open>connect\<close>.
\<close>

definition completions :: "'a list \<Rightarrow> (nat \<times> open_event) list \<Rightarrow> ('a \<times> open_event) list" where
  "completions servers outcomes =
     (let listed = AList.clearjunk (filter (\<lambda>(i, _). i < length servers) outcomes);
          silent = filter (\<lambda>i. i \<notin> fst ` set listed) [0..<length servers]
      in map (\<lambda>(i, event). (servers ! i, event)) listed
         @ map (\<lambda>i. (servers ! i, OpenFails TimeoutError)) silent)"

definition next_round :: "('z net_scheme, (nat \<times> open_event) list) coro" where
  "next_round =
     Act (\<lambda>s. s\<lparr>n_rounds := tl (n_rounds s)\<rparr>)
       (\<lambda>s. ret (case n_rounds s of [] \<Rightarrow> [] | r # _ \<Rightarrow> r))"

text \<open>The loop leaves the attempts that have not completed running when it ends, by returning
  or by an exception.\<close>

definition abandon ::
  "(ConnectionParameters \<times> open_event) list \<Rightarrow> ('z manager_scheme, unit) coro" where
  "abandon pending = modify (\<lambda>s. s\<lparr>m_abandoned := m_abandoned s @ pending\<rparr>)"

fun first_connection ::
  "ConnectionManager \<Rightarrow> (ConnectionParameters \<times> open_event) list
     \<Rightarrow> ('z manager_scheme, (nat \<times> ConnectionParameters) option) coro" where
  "first_connection self [] = ret None"
| "first_connection self ((server, event) # pending) =
     bind (attempt (create_connection_to_one_server self server event)) (\<lambda>r.
       case r of
         Inl e \<Rightarrow> seq (abandon pending) (raise e)
       | Inr (Some connection_and_server) \<Rightarrow>
           seq (abandon pending) (ret (Some connection_and_server))
       | Inr None \<Rightarrow> first_connection self pending)"

definition create_connection_to_any_server ::
  "ConnectionManager \<Rightarrow> ('z manager_scheme, (nat \<times> ConnectionParameters) option) coro" where
  "create_connection_to_any_server self =
     bind next_round (\<lambda>outcomes. first_connection self (completions (cm_servers self) outcomes))"

text \<open>What becomes of an abandoned attempt when it completes: its result is dropped.\<close>

definition finish_abandoned :: "ConnectionManager \<Rightarrow> ('z manager_scheme, unit) coro" where
  "finish_abandoned self =
     bind (Act (\<lambda>s. s\<lparr>m_abandoned := tl (m_abandoned s)\<rparr>) (\<lambda>s. ret (m_abandoned s)))
       (\<lambda>pending. case pending of
           [] \<Rightarrow> ret ()
         | (server, event) # _ \<Rightarrow>
             bind (attempt (create_connection_to_one_server self server event)) (\<lambda>_. ret ()))"

text \<open>Entering the lifespan of a new connection, with the loss of the connection as an issue.\<close>

definition enter_connection ::
  "'z lifespan_enter \<Rightarrow> nat \<Rightarrow> ConnectionParameters
     \<Rightarrow> ('z manager_scheme, ActiveConnectionState + connection_issue) coro" where
  "enter_connection enter connection connection_parameters =
     except_lost
       (bind (enter connection connection_parameters) (\<lambda>connection_result.
          case connection_result of
            Inl server_heartbeat \<Rightarrow>
              bind (get n_time) (\<lambda>now.
                ret (Inl \<lparr>acs_connection = connection, acs_parameters = connection_parameters,
                          acs_server_heartbeat = server_heartbeat, acs_connected_at = now\<rparr>))
          | Inr issue \<Rightarrow> ret (Inr issue)))
       (\<lambda>_. ret (Inr ConnectionLostOnLifespanEnter))"

text \<open>A result other than the active state, an exception and a cancellation included, closes the
  new connection.\<close>

definition connect_to_any_server ::
  "ConnectionManager \<Rightarrow> 'z lifespan_enter
     \<Rightarrow> ('z manager_scheme, ActiveConnectionState + connection_issue) coro" where
  "connect_to_any_server self enter =
     bind (create_connection_to_any_server self) (\<lambda>connection_and_server.
       case connection_and_server of
         None \<Rightarrow> ret (Inr (AllServersUnavailable (cm_servers self) (cm_connect_timeout self)))
       | Some (connection, connection_parameters) \<Rightarrow>
           bind (attempt (enter_connection enter connection connection_parameters))
             (\<lambda>r. case r of
                 Inr (Inl _) \<Rightarrow> Done r
               | _ \<Rightarrow> seq (close connection) (Done r)))"

text \<open>\<open>async with self._reconnect_lock\<close>: an uncontended lock is taken without suspending, and it
  is released however the body ends. The model notes the task that holds the lock.\<close>

definition with_reconnect_lock :: "('z manager_scheme, 'a) coro \<Rightarrow> ('z manager_scheme, 'a) coro" where
  "with_reconnect_lock m =
     seq (bind (get reconnect_lock)
            (\<lambda>holder. if holder \<noteq> None then await (\<lambda>s. reconnect_lock s = None) else ret ()))
       (seq (modify (\<lambda>s. s\<lparr>reconnect_lock := Some (n_current s)\<rparr>))
          (finally_do m (modify (\<lambda>s. s\<lparr>reconnect_lock := None\<rparr>))))"

definition activate ::
  "ConnectionManager \<Rightarrow> bool \<Rightarrow> ActiveConnectionState \<Rightarrow> ('z manager_scheme, ActiveConnectionState) coro" where
  "activate self is_initial_call connection_result =
     seq (modify (\<lambda>s. s\<lparr>active_connection_state := Some connection_result,
                         last_message_received_time := n_time s\<rparr>))
       (seq (restart_no_message_monitor self)
          (seq (if is_initial_call then ret ()
                else logger Warning ''reconnected after connection failure'')
             (ret connection_result)))"

text \<open>The attempts left, the number of the current one, and the issues so far.\<close>

fun connect_attempts ::
  "ConnectionManager \<Rightarrow> 'z lifespan_enter \<Rightarrow> bool \<Rightarrow> nat \<Rightarrow> int \<Rightarrow> connection_issue list
     \<Rightarrow> ('z manager_scheme, ActiveConnectionState) coro" where
  "connect_attempts self enter is_initial_call 0 attempt_number connection_issues =
     raise (FailedAllConnectAttemptsError (cm_connect_retry_attempts self) connection_issues)"
| "connect_attempts self enter is_initial_call (Suc n) attempt_number connection_issues =
     bind (connect_to_any_server self enter) (\<lambda>connection_result.
       case connection_result of
         Inl st \<Rightarrow> activate self is_initial_call st
       | Inr issue \<Rightarrow>
           seq (sleep (of_int (cm_connect_retry_interval self * (attempt_number + 1))))
             (connect_attempts self enter is_initial_call n (attempt_number + 1)
                (connection_issues @ [issue])))"

definition get_active_connection_state ::
  "ConnectionManager \<Rightarrow> 'z lifespan_enter \<Rightarrow> bool \<Rightarrow> ('z manager_scheme, ActiveConnectionState) coro" where
  "get_active_connection_state self enter is_initial_call =
     bind (get active_connection_state) (\<lambda>active.
       case active of
         Some st \<Rightarrow> ret st
       | None \<Rightarrow>
           with_reconnect_lock
             (bind (get active_connection_state) (\<lambda>active.
                case active of
                  Some st \<Rightarrow> ret st
                | None \<Rightarrow>
                    connect_attempts self enter is_initial_call
                      (nat (cm_connect_retry_attempts self)) 0 [])))"

section \<open>Losing the connection\<close>

text \<open>\<open>self._active_connection_state is connection_state\<close>: a state object belongs to exactly one
  connection object.\<close>

definition is_active :: "ActiveConnectionState \<Rightarrow> 'z manager_scheme \<Rightarrow> bool" where
  "is_active st s \<longleftrightarrow>
     map_option acs_connection (active_connection_state s) = Some (acs_connection st)"

definition discard_failed_connection_state ::
  "ActiveConnectionState \<Rightarrow> lost_reason \<Rightarrow> ('z manager_scheme, unit) coro" where
  "discard_failed_connection_state connection_state error_reason =
     bind (get (is_active connection_state)) (\<lambda>same.
       if \<not> same then ret ()
       else
         seq (logger Warning ''connection lost'')
           (seq (modify (\<lambda>s. s\<lparr>active_connection_state := None\<rparr>))
              (seq (modify (\<lambda>s. s\<lparr>reconnection_count := reconnection_count s + 1\<rparr>))
                 (close (acs_connection connection_state)))))"

section \<open>Writing\<close>

fun write_attempts ::
  "ConnectionManager \<Rightarrow> 'z lifespan_enter \<Rightarrow> (nat \<Rightarrow> ('z manager_scheme, unit) coro) \<Rightarrow> nat
     \<Rightarrow> ('z manager_scheme, unit) coro" where
  "write_attempts self enter op 0 =
     raise (FailedAllWriteAttemptsError (cm_write_retry_attempts self))"
| "write_attempts self enter op (Suc n) =
     bind (get_active_connection_state self enter False) (\<lambda>connection_state.
       except_lost (op (acs_connection connection_state))
         (\<lambda>error. seq (discard_failed_connection_state connection_state error)
                    (write_attempts self enter op n)))"

definition write_heartbeat_reconnecting ::
  "ConnectionManager \<Rightarrow> 'z lifespan_enter \<Rightarrow> ('z manager_scheme, unit) coro" where
  "write_heartbeat_reconnecting self enter =
     write_attempts self enter write_heartbeat (nat (cm_write_retry_attempts self))"

definition write_frame_reconnecting ::
  "ConnectionManager \<Rightarrow> 'z lifespan_enter \<Rightarrow> frame \<Rightarrow> ('z manager_scheme, unit) coro" where
  "write_frame_reconnecting self enter frame =
     write_attempts self enter (\<lambda>c. write_frame c frame) (nat (cm_write_retry_attempts self))"

definition maybe_write_frame :: "frame \<Rightarrow> ('z manager_scheme, bool) coro" where
  "maybe_write_frame frame =
     bind (get active_connection_state) (\<lambda>active.
       case active of
         None \<Rightarrow> seq (log_dropped_frame frame ''no active connection'') (ret False)
       | Some connection_state \<Rightarrow>
           except_lost (seq (write_frame (acs_connection connection_state) frame) (ret True))
             (\<lambda>error.
               seq (log_dropped_frame frame ''connection lost mid-write'')
                 (seq (discard_failed_connection_state connection_state error) (ret False))))"

section \<open>Reading\<close>

text \<open>
  \<open>async for frame, epoch in read_frames_reconnecting(): body(frame, epoch)\<close>. The consumer runs
  outside the generator, so that its exceptions are not seen by the \<open>except\<close> clauses of the
  generator: they are carried through as a value and raised again at the end. The number bounds
  the rounds of \<open>while True\<close>; a coroutine that has used them up stays suspended.
\<close>

definition consume ::
  "(frame \<Rightarrow> nat \<Rightarrow> ('s, unit) coro) \<Rightarrow> nat \<Rightarrow> frame \<Rightarrow> ('s, exn option) coro" where
  "consume body epoch frame =
     bind (attempt (body frame epoch)) (\<lambda>r. ret (case r of Inl e \<Rightarrow> Some e | Inr _ \<Rightarrow> None))"

fun read_frames_reconnecting ::
  "ConnectionManager \<Rightarrow> 'z lifespan_enter \<Rightarrow> (frame \<Rightarrow> nat \<Rightarrow> ('z manager_scheme, unit) coro)
     \<Rightarrow> nat \<Rightarrow> ('z manager_scheme, unit) coro" where
  "read_frames_reconnecting self enter body 0 = never"
| "read_frames_reconnecting self enter body (Suc n) =
     bind (attempt (get_active_connection_state self enter False)) (\<lambda>r.
       case r of
         Inl (FailedAllConnectAttemptsError attempts issues) \<Rightarrow>
           if \<not> cm_keep_alive_on_connection_failure self
           then raise (FailedAllConnectAttemptsError attempts issues)
           else
             seq (logger Warning ''background read recovery exhausted; keeping client alive'')
               (seq (sleep (of_int (cm_connect_retry_interval self)))
                  (read_frames_reconnecting self enter body n))
       | Inl e \<Rightarrow> raise e
       | Inr connection_state \<Rightarrow>
           bind (get reconnection_count) (\<lambda>epoch.
             bind (except_lost
                     (bind (read_frames (acs_connection connection_state) (consume body epoch))
                        (\<lambda>e. ret (Some e)))
                     (\<lambda>error. seq (discard_failed_connection_state connection_state error)
                                 (ret None)))
               (\<lambda>end_value. case end_value of
                   Some e \<Rightarrow> raise e
                 | None \<Rightarrow> read_frames_reconnecting self enter body n)))"

section \<open>The background coroutines\<close>

fun send_heartbeats_forever ::
  "ConnectionManager \<Rightarrow> 'z lifespan_enter \<Rightarrow> int \<Rightarrow> nat \<Rightarrow> ('z manager_scheme, unit) coro" where
  "send_heartbeats_forever self enter send_heartbeat_interval_ms 0 = never"
| "send_heartbeats_forever self enter send_heartbeat_interval_ms (Suc n) =
     bind (attempt (write_heartbeat_reconnecting self enter)) (\<lambda>r.
       seq (case r of
              Inl e \<Rightarrow>
                (case e of
                   FailedAllConnectAttemptsError _ _ \<Rightarrow>
                     if cm_keep_alive_on_connection_failure self
                     then seq (logger Warning ''background heartbeat recovery exhausted; keeping client alive'')
                            (sleep (of_int (cm_connect_retry_interval self)))
                     else raise e
                 | FailedAllWriteAttemptsError _ \<Rightarrow>
                     if cm_keep_alive_on_connection_failure self
                     then seq (logger Warning ''background heartbeat recovery exhausted; keeping client alive'')
                            (sleep (of_int (cm_connect_retry_interval self)))
                     else raise e
                 | _ \<Rightarrow> raise e)
            | Inr _ \<Rightarrow> sleep (of_int send_heartbeat_interval_ms / 1000))
         (send_heartbeats_forever self enter send_heartbeat_interval_ms n))"

fun monitor_no_message_timeout ::
  "rat \<Rightarrow> nat \<Rightarrow> ('z manager_scheme, unit) coro" where
  "monitor_no_message_timeout interval_seconds 0 = never"
| "monitor_no_message_timeout interval_seconds (Suc n) =
     bind (get (\<lambda>s. n_time s - last_message_received_time s)) (\<lambda>elapsed.
       seq (let remaining = interval_seconds - elapsed in
            if remaining > 0 then sleep remaining
            else
              seq (bind (get active_connection_state) (\<lambda>active.
                     case active of
                       None \<Rightarrow> ret ()
                     | Some connection_state \<Rightarrow>
                         seq (logger Warning ''no messages received, forcing reconnect'')
                           (discard_failed_connection_state connection_state
                              (Reason_text ''no messages received within timeout''))))
                (sleep interval_seconds))
         (monitor_no_message_timeout interval_seconds n))"

section \<open>Entering and leaving\<close>

definition close_active_connection_state ::
  "'z lifespan_exit \<Rightarrow> ('z manager_scheme, unit) coro" where
  "close_active_connection_state exit =
     bind (get active_connection_state) (\<lambda>active.
       case active of
         None \<Rightarrow> ret ()
       | Some connection_state \<Rightarrow>
           finally_do
             (except_lost (exit (acs_connection connection_state) (acs_parameters connection_state))
                (\<lambda>_. ret ()))
             (seq (modify (\<lambda>s. if is_active connection_state s
                               then s\<lparr>active_connection_state := None\<rparr> else s))
                (close (acs_connection connection_state))))"

definition manager_aenter ::
  "ConnectionManager \<Rightarrow> 'z lifespan_enter \<Rightarrow> ('z manager_scheme, unit) coro" where
  "manager_aenter self enter =
     seq (bind (create_task SleepZero) (\<lambda>i. modify (\<lambda>s. s\<lparr>send_heartbeat_task := i\<rparr>)))
       (bind (get_active_connection_state self enter True)
          (\<lambda>st. modify (\<lambda>s. s\<lparr>active_connection_state := Some st\<rparr>)))"

text \<open>\<open>group_failure\<close> is the exception with which the task group ends, if one of the background
  tasks failed.\<close>

definition manager_aexit ::
  "'z lifespan_exit \<Rightarrow> exn option \<Rightarrow> ('z manager_scheme, unit) coro" where
  "manager_aexit exit group_failure =
     seq (bind (get send_heartbeat_task) cancel_task)
       (seq (bind (get monitor_no_message_task)
               (\<lambda>task. case task of None \<Rightarrow> ret () | Some i \<Rightarrow> cancel_task i))
          (seq suspend
             (finally_do (seq suspend (case group_failure of None \<Rightarrow> ret () | Some e \<Rightarrow> raise e))
                (close_active_connection_state exit))))"

end
