(* ===== verification/Manager_Safety.thy ===== *)
theory Manager_Safety
  imports Connection_Manager
begin

text \<open>
  Safety of the connection manager under every interleaving and cancellation of its tasks: the
  reconnect lock is respected, and the reconnection count identifies the active connection.
\<close>

section \<open>Relations\<close>

text \<open>
  What the steps of all tasks have in common: the count never decreases, and the active
  connection state is replaced only together with an increase of the count.
\<close>

definition epoch_rel :: "'z manager_scheme \<Rightarrow> 'z manager_scheme \<Rightarrow> bool" where
  "epoch_rel s s' \<longleftrightarrow>
     net_evolves s s' \<and> reconnection_count s \<le> reconnection_count s' \<and>
     (\<forall>st. active_connection_state s = Some st \<longrightarrow>
        active_connection_state s' = Some st \<or> reconnection_count s < reconnection_count s')"

text \<open>The sections of task \<open>i\<close>: while another task holds the reconnect lock, it keeps it, and no
  connection is made active.\<close>

definition manager_section :: "nat \<Rightarrow> 'z manager_scheme \<Rightarrow> 'z manager_scheme \<Rightarrow> bool" where
  "manager_section i s s' \<longleftrightarrow>
     n_current s = i \<and> n_current s' = i \<and> epoch_rel s s' \<and>
     (\<forall>j. reconnect_lock s = Some j \<and> j \<noteq> i \<longrightarrow>
        reconnect_lock s' = Some j \<and>
        (active_connection_state s = None \<longrightarrow> active_connection_state s' = None))"

text \<open>What task \<open>i\<close> relies on between suspension and resumption: what it holds, it keeps.\<close>

definition manager_rely :: "nat \<Rightarrow> 'z manager_scheme \<Rightarrow> 'z manager_scheme \<Rightarrow> bool" where
  "manager_rely i s s' \<longleftrightarrow>
     n_current s' = i \<and> epoch_rel s s' \<and>
     (reconnect_lock s = Some i \<longrightarrow>
        reconnect_lock s' = Some i \<and>
        (active_connection_state s = None \<longrightarrow> active_connection_state s' = None))"

text \<open>Sections that leave the manager's lock, active state and count alone.\<close>

definition quiet :: "nat \<Rightarrow> 'z manager_scheme \<Rightarrow> 'z manager_scheme \<Rightarrow> bool" where
  "quiet i s s' \<longleftrightarrow>
     n_current s = i \<and> n_current s' = i \<and> net_evolves s s' \<and>
     active_connection_state s' = active_connection_state s \<and>
     reconnect_lock s' = reconnect_lock s \<and> reconnection_count s' = reconnection_count s"

lemmas rel_defs = epoch_rel_def manager_section_def manager_rely_def quiet_def

lemma net_evolves_refl [simp]: "net_evolves s s"
  by (simp add: net_evolves_def)

lemma net_evolves_trans: "net_evolves s s' \<Longrightarrow> net_evolves s' s'' \<Longrightarrow> net_evolves s s''"
  by (rule net_evolves.G_trans)

lemma epoch_rel_refl [simp]: "epoch_rel s s"
  by (simp add: epoch_rel_def)

lemma epoch_rel_trans: "epoch_rel s s' \<Longrightarrow> epoch_rel s' s'' \<Longrightarrow> epoch_rel s s''"
  unfolding epoch_rel_def by (meson net_evolves_trans le_trans le_less_trans less_le_trans)

lemma manager_section_trans:
  "manager_section i s s' \<Longrightarrow> manager_section i s' s'' \<Longrightarrow> manager_section i s s''"
  unfolding manager_section_def using epoch_rel_trans by metis

lemma quiet_section: "quiet i s s' \<Longrightarrow> manager_section i s s'"
  by (simp add: rel_defs)

text \<open>The fields of the manager are in the part of the state that the network does not touch.\<close>

lemma manager_more_eq:
  fixes s s' :: "'z manager_scheme"
  assumes "net.more s' = net.more s"
  shows "active_connection_state s' = active_connection_state s" "reconnect_lock s' = reconnect_lock s"
    "reconnection_count s' = reconnection_count s" "m_tasks s' = m_tasks s"
    "send_heartbeat_task s' = send_heartbeat_task s"
    "monitor_no_message_task s' = monitor_no_message_task s"
  using assms by (cases s; cases s'; simp)+

interpretation quiet: net_guarantee "manager_rely i" "quiet i" for i
proof unfold_locales
  fix s s' :: "'z manager_scheme"
  assume "quiet i s s" "net_evolves s s'" "n_current s' = n_current s" "net.more s' = net.more s"
  with manager_more_eq [of s' s] show "quiet i s s'"
    by (simp add: quiet_def)
qed (auto simp: quiet_def manager_rely_def intro: net_evolves_trans)

interpretation mgr: net_guarantee "manager_rely i" "manager_section i" for i
proof unfold_locales
  fix s s' :: "'z manager_scheme"
  assume "manager_section i s s" "net_evolves s s'" "n_current s' = n_current s" "net.more s' = net.more s"
  with manager_more_eq [of s' s] show "manager_section i s s'"
    by (simp add: manager_section_def epoch_rel_def)
next
  fix s s' s'' :: "'z manager_scheme"
  show "manager_section i s s' \<Longrightarrow> manager_section i s' s'' \<Longrightarrow> manager_section i s s''"
    by (rule manager_section_trans)
qed (simp_all add: manager_section_def manager_rely_def)

lemma epoch_rel_resume [simp]: "epoch_rel (resume_task i s) s' = epoch_rel s s'"
    "epoch_rel s (resume_task i s') = epoch_rel s s'"
  by (simp_all add: epoch_rel_def net_evolves_def resume_task_def)

lemma epoch_rel_time: "time_passes s s' \<Longrightarrow> epoch_rel s s'"
  by (auto simp: epoch_rel_def net_evolves_def time_passes_def)

interpretation manager_pool: interleaving resume_task manager_rely manager_section time_passes epoch_rel
proof unfold_locales
  fix i j and s s' s'' :: "'z manager_scheme"
  show "manager_section i (resume_task i s) (resume_task i s)"
    by (simp add: manager_section_def resume_task_def)
  show "manager_rely i s (resume_task i s)"
    by (simp add: manager_rely_def resume_task_def epoch_rel_def net_evolves_def)
  show "manager_rely i s s''" if "time_passes s s'" "manager_rely i s' s''"
    using that epoch_rel_trans [OF epoch_rel_time [OF that(1)]]
    by (auto simp: manager_rely_def time_passes_def)
  show "manager_rely i s s''"
    if "i \<noteq> j" "manager_section j (resume_task j s) s'" "manager_rely i s' s''"
    using that epoch_rel_trans [of s s' s'']
    by (auto simp: manager_rely_def manager_section_def) (auto simp: resume_task_def)
qed (auto simp: manager_section_def intro: epoch_rel_trans epoch_rel_time)

lemma quiet_safe:
  fixes m :: "('z manager_scheme, 'a) coro"
  assumes "safe (manager_rely i) (quiet i) m"
  shows "safe (manager_rely i) (manager_section i) m"
proof (rule safeI)
  fix s0 s :: "'z manager_scheme"
  assume sec: "manager_section i s0 s"
  have "rg (manager_rely i) (manager_section i) m
      (\<lambda>r s0 s. manager_section i s0 s \<and> n_current s = i) s0 s"
  proof (rule rg_frame [where H = "quiet i" and b = s])
    show "rg (manager_rely i) (quiet i) m (\<lambda>_. quiet i) s s"
      by (rule safeD [OF assms]) (use sec in \<open>simp add: quiet_def manager_section_def\<close>)
    show "n_current s' = i \<and> manager_section i s s'" if "quiet i s s'" for s s'
      using quiet_section [OF that] that by (simp add: quiet_def)
  qed (use sec in \<open>auto simp: manager_section_def manager_rely_def intro: epoch_rel_trans\<close>)
  then show "rg (manager_rely i) (manager_section i) m (\<lambda>_. manager_section i) s0 s"
    by (rule rg_mono) simp
qed

section \<open>Operations that leave the lock and the active state alone\<close>

lemmas quiet_simps = quiet_def net_evolves_def transport_at_def

lemma quiet_create_task: "safe (manager_rely i) (quiet i) (create_task b)"
  unfolding create_task_def by (rule quiet.safe_Act) (simp_all add: quiet_simps quiet.safe_Done)

lemma quiet_cancel_task: "safe (manager_rely i) (quiet i) (cancel_task k)"
  unfolding cancel_task_def by (rule quiet.safe_modify) (simp add: quiet_simps)

lemma quiet_restart_background_tasks:
  "safe (manager_rely i) (quiet i) (restart_background_tasks hb)"
  unfolding restart_background_tasks_def
  by (intro quiet.safe_bind quiet.safe_get quiet_create_task quiet_cancel_task quiet.safe_modify)
    (simp add: quiet_simps)

lemma quiet_first_connection: "safe (manager_rely i) (quiet i) (first_connection self pending)"
proof (induction pending)
  case (Cons se pending)
  have "safe (manager_rely i) (quiet i) (abandon pending)"
    unfolding abandon_def by (rule quiet.safe_modify) (simp add: quiet_simps)
  with Cons show ?case
    by (cases se) (auto simp: create_connection_to_one_server_def split: sum.splits option.splits
        intro!: quiet.safe_bind quiet.safe_attempt quiet.safe_connect quiet.safe_Done)
qed (simp add: quiet.safe_Done)

lemma quiet_create_connection:
  "safe (manager_rely i) (quiet i) (create_connection_to_any_server self)"
  unfolding create_connection_to_any_server_def next_round_def
  by (intro quiet.safe_bind quiet.safe_Act quiet_first_connection quiet.safe_Done)
    (simp add: quiet_simps)

lemma safe_discard:
  "safe (manager_rely i) (manager_section i) (discard_failed_connection_state st r)"
proof (rule safeI)
  fix s0 s :: "'z manager_scheme"
  assume sec: "manager_section i s0 s"
  let ?s = "s\<lparr>n_log := n_log s @ [(Warning, ''connection lost'')], active_connection_state := None,
      reconnection_count := reconnection_count s + 1\<rparr>"
  have "manager_section i s ?s"
    using sec by (auto simp: manager_section_def epoch_rel_def net_evolves_def transport_at_def)
  with sec have "manager_section i s0 ?s" by (rule manager_section_trans)
  moreover have "safe (manager_rely i) (manager_section i) (close (acs_connection st))"
    by (rule mgr.net_intros)
  ultimately have "rg (manager_rely i) (manager_section i) (close (acs_connection st))
      (\<lambda>_. manager_section i) s0 ?s"
    by (rule safeD [rotated])
  with sec show "rg (manager_rely i) (manager_section i) (discard_failed_connection_state st r)
      (\<lambda>_. manager_section i) s0 s"
    by (simp add: discard_failed_connection_state_def rg_simps logger_def)
qed

lemma safe_log_dropped_frame:
  "safe (manager_rely i) (manager_section i) (log_dropped_frame f reason)"
  unfolding log_dropped_frame_def by (cases f) (simp_all add: mgr.safe_logger)

lemma safe_maybe_write_frame: "safe (manager_rely i) (manager_section i) (maybe_write_frame f)"
  unfolding maybe_write_frame_def
  by (auto intro!: mgr.safe_bind mgr.safe_get mgr.safe_Done mgr.safe_except_lost mgr.net_intros
      safe_discard safe_log_dropped_frame split: option.splits)

text \<open>The interface of a lifespan, as far as the manager's state is concerned: entering it leaves
  the lock, the active state and the count alone.\<close>

locale lifespan_interface =
  fixes enter :: "'z lifespan_enter"
  assumes enter_quiet: "safe (manager_rely i) (quiet i) (enter c p)"
begin

lemma quiet_connect_to_any_server:
  "safe (manager_rely i) (quiet i) (connect_to_any_server self enter)"
  unfolding connect_to_any_server_def enter_connection_def
  by (auto intro!: quiet.safe_bind quiet_create_connection quiet.safe_Done quiet.safe_attempt
      quiet.safe_except_lost enter_quiet quiet.safe_get quiet.net_intros
      split: option.splits sum.splits prod.splits)

text \<open>While task \<open>i\<close> holds the lock and nothing is active, that stays so.\<close>

definition holds_lock :: "nat \<Rightarrow> 'z manager_scheme \<Rightarrow> bool" where
  "holds_lock i s \<longleftrightarrow>
     n_current s = i \<and> reconnect_lock s = Some i \<and> active_connection_state s = None"

lemma rg_holding:
  assumes "safe (manager_rely i) (quiet i) m" "manager_section i s0 s" "holds_lock i s"
  shows "rg (manager_rely i) (manager_section i) m
     (\<lambda>r s0 s. manager_section i s0 s \<and> holds_lock i s) s0 s"
proof (rule rg_frame [where H = "quiet i" and b = s])
  have "quiet i s s" using assms(3) by (simp add: quiet_def holds_lock_def)
  with assms(1) show "rg (manager_rely i) (quiet i) m (\<lambda>_. quiet i) s s" by (rule safeD)
  show "holds_lock i s' \<and> manager_section i s' s'" if "holds_lock i s" "manager_rely i s s'" for s s'
    using that by (simp add: holds_lock_def manager_rely_def manager_section_def)
  show "holds_lock i s' \<and> manager_section i s s'" if "holds_lock i s" "quiet i s s'" for s s'
    using that quiet_section [OF that(2)] by (simp add: holds_lock_def quiet_def)
qed (use assms in \<open>blast intro: manager_section_trans\<close>)+

text \<open>What an attempt to get the active connection guarantees at its end.\<close>

definition got_active :: "nat \<Rightarrow> exn + ActiveConnectionState \<Rightarrow> 'z manager_scheme \<Rightarrow> 'z manager_scheme \<Rightarrow> bool" where
  "got_active i r s0 s \<longleftrightarrow>
     manager_section i s0 s \<and> (\<forall>st. r = Inr st \<longrightarrow> active_connection_state s = Some st)"

lemma got_active_now:
  "manager_section i s0 s \<Longrightarrow> active_connection_state s = Some st \<Longrightarrow> got_active i (Inr st) s0 s"
  by (simp add: got_active_def)

lemma rg_activate:
  assumes "manager_section i s0 s" "holds_lock i s"
  shows "rg (manager_rely i) (manager_section i) (activate self initial st)
     (\<lambda>r s0 s. got_active i r s0 s \<and> reconnect_lock s = Some i) s0 s"
  using assms
  by (auto simp: activate_def restart_no_message_monitor_def create_task_def cancel_task_def
      logger_def rg_simps got_active_def holds_lock_def split: option.splits
      elim!: manager_section_trans)
    (auto simp: rel_defs net_evolves_def transport_at_def)

lemma rg_connect_attempts:
  assumes "manager_section i s0 s" "holds_lock i s"
  shows "rg (manager_rely i) (manager_section i)
     (connect_attempts self enter initial n k issues)
     (\<lambda>r s0 s. got_active i r s0 s \<and> reconnect_lock s = Some i) s0 s"
  using assms
proof (induction n arbitrary: s0 s k issues)
  case 0
  then show ?case by (simp add: got_active_def holds_lock_def)
next
  case (Suc n)
  have slept: "rg (manager_rely i) (manager_section i) (seq (sleep t) (connect_attempts self enter initial n k' issues'))
     (\<lambda>r s0 s. got_active i r s0 s \<and> reconnect_lock s = Some i) s0 s"
    if "manager_section i s0 s" "holds_lock i s" for t k' issues' s0 s
    unfolding rg_bind
    by (rule rg_mono [OF rg_holding [OF quiet.safe_sleep that]])
      (use Suc.IH in \<open>auto simp: got_active_def holds_lock_def split: sum.splits\<close>)
  show ?case
    unfolding connect_attempts.simps rg_bind
    by (rule rg_mono [OF rg_holding [OF quiet_connect_to_any_server Suc.prems]])
      (use slept rg_activate in \<open>auto simp: got_active_def holds_lock_def split: sum.splits\<close>)
qed

lemma rg_with_lock:
  assumes "manager_section i s0 s"
    and body: "\<And>s0 s. manager_section i s0 s \<Longrightarrow> n_current s = i \<Longrightarrow> reconnect_lock s = Some i \<Longrightarrow>
       rg (manager_rely i) (manager_section i) m (\<lambda>r s0 s. got_active i r s0 s \<and> reconnect_lock s = Some i) s0 s"
  shows "rg (manager_rely i) (manager_section i) (with_reconnect_lock m) (got_active i) s0 s"
proof -
  have release: "got_active i r s0 (s\<lparr>reconnect_lock := None\<rparr>)"
    if "got_active i r s0 s" "reconnect_lock s = Some i" for r s0 s
    using that
    by (auto simp: got_active_def manager_section_def epoch_rel_def net_evolves_def transport_at_def)
  have locked: "rg (manager_rely i) (manager_section i)
      (seq (modify (\<lambda>s. s\<lparr>reconnect_lock := Some (n_current s)\<rparr>))
          (finally_do m (modify (\<lambda>s. s\<lparr>reconnect_lock := None\<rparr>)))) (got_active i) s0 s"
    if "manager_section i s0 s" "reconnect_lock s = None" for s0 s
  proof -
    let ?s = "s\<lparr>reconnect_lock := Some (n_current s)\<rparr>"
    from that have "manager_section i s0 ?s" "n_current ?s = i" "reconnect_lock ?s = Some i"
      by (auto simp: manager_section_def epoch_rel_def net_evolves_def transport_at_def)
    from rg_mono [OF body [OF this]] release show ?thesis
      by (auto simp: rg_simps finally_do_def split: sum.splits)
  qed
  show ?thesis
    using assms(1) locked
    by (auto simp: with_reconnect_lock_def rg_simps await_def got_active_def manager_rely_def manager_section_def)
qed

lemma rg_get_active:
  assumes "manager_section i s0 s"
  shows "rg (manager_rely i) (manager_section i) (get_active_connection_state self enter initial)
     (got_active i) s0 s"
proof (cases "active_connection_state s")
  case None
  then show ?thesis
    unfolding get_active_connection_state_def
    by (auto simp: rg_simps holds_lock_def got_active_now intro!: rg_with_lock assms rg_connect_attempts
        split: option.splits)
qed (use assms in \<open>simp add: get_active_connection_state_def rg_simps got_active_def\<close>)

lemma safe_get_active:
  "safe (manager_rely i) (manager_section i) (get_active_connection_state self enter initial)"
  by (rule safeI, rule rg_mono [OF rg_get_active]) (simp_all add: got_active_def)

lemma safe_write_attempts:
  assumes "\<And>c. safe (manager_rely i) (manager_section i) (op c)"
  shows "safe (manager_rely i) (manager_section i) (write_attempts self enter op n)"
  by (induction n) (auto intro!: mgr.safe_Done mgr.safe_bind mgr.safe_except_lost safe_get_active
      safe_discard assms)

lemma safe_write_reconnecting:
  "safe (manager_rely i) (manager_section i) (write_frame_reconnecting self enter f)"
  "safe (manager_rely i) (manager_section i) (write_heartbeat_reconnecting self enter)"
  unfolding write_frame_reconnecting_def write_heartbeat_reconnecting_def
  by (intro safe_write_attempts mgr.net_intros)+

lemma safe_read_frames_reconnecting:
  assumes "\<And>f e. safe (manager_rely i) (manager_section i) (body f e)"
  shows "safe (manager_rely i) (manager_section i) (read_frames_reconnecting self enter body n)"
proof (induction n)
  case (Suc n)
  have "safe (manager_rely i) (manager_section i) (consume body e f)" for e f
    unfolding consume_def by (intro mgr.safe_bind mgr.safe_attempt assms mgr.safe_Done)
  with Suc show ?case
    by (auto intro!: mgr.safe_Done mgr.safe_bind mgr.safe_attempt mgr.safe_except_lost mgr.safe_get
        safe_get_active safe_discard mgr.net_intros split: sum.splits exn.splits option.splits)
qed (simp add: mgr.safe_never)

lemma safe_send_heartbeats_forever:
  "safe (manager_rely i) (manager_section i) (send_heartbeats_forever self enter ms n)"
proof (induction n)
  case (Suc n)
  then show ?case
    by (auto intro!: mgr.safe_Done mgr.safe_bind mgr.safe_attempt mgr.net_intros
        safe_write_reconnecting split: sum.splits exn.splits)
qed (simp add: mgr.safe_never)

lemma active_same: "active_connection_state s = x \<Longrightarrow> s\<lparr>active_connection_state := x\<rparr> = s"
  by auto

lemma safe_manager_aenter: "safe (manager_rely i) (manager_section i) (manager_aenter self enter)"
proof -
  have "safe (manager_rely i) (manager_section i)
      (bind (get_active_connection_state self enter True)
          (\<lambda>st. modify (\<lambda>s. s\<lparr>active_connection_state := Some st\<rparr>)))"
    by (rule safeI, unfold rg_bind, rule rg_mono [OF rg_get_active])
      (auto simp: got_active_def rg_simps active_same split: sum.splits)
  moreover have "safe (manager_rely i) (manager_section i)
      (bind (create_task SleepZero) (\<lambda>i. modify (\<lambda>s. s\<lparr>send_heartbeat_task := i\<rparr>)))"
    by (intro quiet_safe quiet.safe_bind quiet_create_task quiet.safe_modify) (simp add: quiet_simps)
  ultimately show ?thesis
    unfolding manager_aenter_def by (rule mgr.safe_bind [rotated])
qed

end

lemma safe_monitor: "safe (manager_rely i) (manager_section i) (monitor_no_message_timeout t n)"
proof (induction n)
  case (Suc n)
  then show ?case
    by (auto simp: Let_def intro!: mgr.safe_Done mgr.safe_bind mgr.safe_get mgr.net_intros safe_discard
        split: option.splits)
qed (simp add: mgr.safe_never)

lemma safe_finish_abandoned: "safe (manager_rely i) (manager_section i) (finish_abandoned self)"
proof -
  have "safe (manager_rely i) (manager_section i)
      (Act (\<lambda>s. s\<lparr>m_abandoned := tl (m_abandoned s)\<rparr>) (\<lambda>s. ret (m_abandoned s)))"
    by (rule mgr.safe_Act)
      (auto simp: mgr.safe_Done manager_section_def epoch_rel_def net_evolves_def transport_at_def)
  then show ?thesis
    unfolding finish_abandoned_def create_connection_to_one_server_def
    by (rule mgr.safe_bind)
      (auto intro!: mgr.safe_bind mgr.safe_Done mgr.safe_attempt mgr.net_intros
        split: option.splits list.splits)
qed

end
