(* ===== verification/Completion.thy ===== *)
theory Completion
  imports Coroutines
begin

text \<open>
  Coroutines that end: total correctness of a coroutine that is run alone, and properties of
  the tree of a coroutine from which it follows that it ends, or with which exceptions.
\<close>

section \<open>Total correctness\<close>

definition ends :: "('s, 'a) coro \<Rightarrow> 's \<Rightarrow> (exn + 'a \<Rightarrow> 's \<Rightarrow> bool) \<Rightarrow> bool" where
  "ends m s Q \<longleftrightarrow> (\<exists>r s'. run m s = (Some r, s') \<and> Q r s')"

named_theorems ends_simps "total correctness of the coroutine combinators"

lemma ends_Done [ends_simps]: "ends (Done r) s Q = Q r s"
  by (simp add: ends_def)

lemma ends_Act [ends_simps]: "ends (Act u k) s Q = ends (k s) (u s) Q"
  by (simp add: ends_def)

lemma ends_get [ends_simps]: "ends (get f) s Q = Q (Inr (f s)) s"
  by (simp add: ends_def run_simps)

lemma ends_modify [ends_simps]: "ends (modify f) s Q = Q (Inr ()) (f s)"
  by (simp add: ends_def run_simps)

lemma ends_await [ends_simps]: "ends (await g) s Q \<longleftrightarrow> g s \<and> Q (Inr ()) s"
  by (simp add: ends_def run_simps)

lemma ends_bind [ends_simps]:
  "ends (bind m f) s Q =
     ends m s (\<lambda>r s'. case r of Inl e \<Rightarrow> Q (Inl e) s' | Inr x \<Rightarrow> ends (f x) s' Q)"
  by (cases "run m s") (auto simp: ends_def run_simps split: option.splits sum.splits)

lemma ends_attempt [ends_simps]: "ends (attempt m) s Q = ends m s (\<lambda>r. Q (Inr r))"
  by (cases "run m s") (auto simp: ends_def run_simps split: option.splits)

lemma ends_handle [ends_simps]:
  "ends (handle m h) s Q =
     ends m s (\<lambda>r s'. case r of Inl e \<Rightarrow> ends (h e) s' Q | Inr x \<Rightarrow> Q (Inr x) s')"
  by (cases "run m s") (auto simp: ends_def run_simps split: option.splits sum.splits)

lemma ends_except_lost [ends_simps]:
  "ends (except_lost m h) s Q =
     ends m s (\<lambda>r s'. case r of Inl (ConnectionLostError e) \<Rightarrow> ends (h e) s' Q | _ \<Rightarrow> Q r s')"
  by (cases "run m s") (auto simp: ends_def run_simps split: option.splits sum.splits exn.splits)

lemma ends_finally [ends_simps]:
  "ends (finally_do m c) s Q =
     ends m s (\<lambda>r s'. ends c s' (\<lambda>r' s''. case r' of Inl e \<Rightarrow> Q (Inl e) s'' | Inr _ \<Rightarrow> Q r s''))"
  by (cases "run m s") (auto simp: ends_def run_simps split: prod.splits option.splits sum.splits)

lemma ends_mono: "ends m s Q \<Longrightarrow> (\<And>r s'. Q r s' \<Longrightarrow> Q' r s') \<Longrightarrow> ends m s Q'"
  by (auto simp: ends_def)

lemma ends_conj: "ends m s Q \<Longrightarrow> ends m s Q' \<Longrightarrow> ends m s (\<lambda>r s'. Q r s' \<and> Q' r s')"
  by (auto simp: ends_def)

lemma endsE:
  assumes "ends m s Q" obtains r s' where "run m s = (Some r, s')" "Q r s'"
  using assms by (auto simp: ends_def)

section \<open>Coroutines that never wait for others\<close>

text \<open>All suspensions can be resumed at once.\<close>

primrec prompt :: "('s, 'a) coro \<Rightarrow> bool" where
  "prompt (Done r) = True"
| "prompt (Act u k) = (\<forall>s. prompt (k s))"
| "prompt (Await g c x) = ((\<forall>s. g s) \<and> prompt c)"

lemma prompt_ends: "prompt m \<Longrightarrow> ends m s (\<lambda>_ _. True)"
  by (induction m arbitrary: s) (auto simp: ends_def)

lemma prompt_Done: "prompt (Done r)"
  by simp

lemma prompt_bind: "prompt m \<Longrightarrow> (\<And>x. prompt (f x)) \<Longrightarrow> prompt (bind m f)"
  by (induction m) (auto split: sum.splits)

lemma prompt_attempt: "prompt m \<Longrightarrow> prompt (attempt m)"
  by (induction m) auto

lemma prompt_get: "prompt (get f)"
  by (simp add: get_def)

lemma prompt_modify: "prompt (modify f)"
  by (simp add: modify_def)

lemma prompt_suspend: "prompt suspend"
  by (simp add: await_def)

lemma prompt_handle: "prompt m \<Longrightarrow> (\<And>e. prompt (h e)) \<Longrightarrow> prompt (handle m h)"
  unfolding handle_def by (intro prompt_bind prompt_attempt) (auto split: sum.splits)

lemma prompt_except_lost: "prompt m \<Longrightarrow> (\<And>e. prompt (h e)) \<Longrightarrow> prompt (except_lost m h)"
  unfolding except_lost_def by (intro prompt_handle) (auto split: exn.splits)

lemma prompt_for_each: "(\<And>x. prompt (f x)) \<Longrightarrow> prompt (for_each f xs)"
  by (induction xs) (auto intro: prompt_bind)

text \<open>A coroutine that lets itself be cancelled does not wait for ever under \<open>wait_for\<close>.\<close>

lemma prompt_wait_for: "cancellable m \<Longrightarrow> prompt (wait_for m)"
  by (induction m) auto

lemmas prompt_intros = prompt_Done prompt_bind prompt_attempt prompt_get prompt_modify
  prompt_suspend prompt_handle prompt_except_lost prompt_for_each prompt_wait_for

section \<open>The exceptions of a coroutine\<close>

primrec raises_only :: "(exn \<Rightarrow> bool) \<Rightarrow> ('s, 'a) coro \<Rightarrow> bool" where
  "raises_only P (Done r) = (case r of Inl e \<Rightarrow> P e | Inr _ \<Rightarrow> True)"
| "raises_only P (Act u k) = (\<forall>s. raises_only P (k s))"
| "raises_only P (Await g c x) = (raises_only P c \<and> raises_only P x)"

lemma raises_only_ends:
  "raises_only P m \<Longrightarrow> ends m s Q \<Longrightarrow> ends m s (\<lambda>r s'. Q r s' \<and> (\<forall>e. r = Inl e \<longrightarrow> P e))"
  by (induction m arbitrary: s) (auto simp: ends_simps ends_def split: sum.splits if_splits)

lemma raises_only_bind:
  "raises_only P m \<Longrightarrow> (\<And>x. raises_only P (f x)) \<Longrightarrow> raises_only P (bind m f)"
  by (induction m) (auto split: sum.splits)

lemma raises_only_attempt: "raises_only P (attempt m)"
  by (induction m) auto

lemma raises_only_get: "raises_only P (get f)"
  by (simp add: get_def)

lemma raises_only_modify: "raises_only P (modify f)"
  by (simp add: modify_def)

lemma raises_only_await: "P (Raised CancelledError) \<Longrightarrow> raises_only P (await g)"
  by (simp add: await_def)

lemma raises_only_handle:
  "raises_only P m \<Longrightarrow> (\<And>e. P e \<Longrightarrow> raises_only P (h e)) \<Longrightarrow> raises_only P (handle m h)"
  unfolding handle_def by (induction m) (auto split: sum.splits)

lemma raises_only_attempt_bind:
  "raises_only P m \<Longrightarrow> (\<And>e. P e \<Longrightarrow> raises_only P (f (Inl e))) \<Longrightarrow> (\<And>x. raises_only P (f (Inr x))) \<Longrightarrow>
   raises_only P (bind (attempt m) f)"
  by (induction m) (auto split: sum.splits)

lemma raises_only_except_lost:
  "raises_only P m \<Longrightarrow> (\<And>e. raises_only P (h e)) \<Longrightarrow> raises_only P (except_lost m h)"
  unfolding except_lost_def by (intro raises_only_handle) (auto split: exn.splits)

lemma raises_only_for_each: "(\<And>x. raises_only P (f x)) \<Longrightarrow> raises_only P (for_each f xs)"
  by (induction xs) (auto intro: raises_only_bind)

lemma raises_only_timed_out:
  "raises_only P m \<Longrightarrow> P (Raised TimeoutError) \<Longrightarrow>
   raises_only P (bind (attempt m) (\<lambda>r. Done (timed_out r)))"
  by (induction m) (auto simp: timed_out_def split: sum.splits)

lemma raises_only_wait_for:
  "raises_only P m \<Longrightarrow> P (Raised TimeoutError) \<Longrightarrow> raises_only P (wait_for m)"
  by (induction m) (auto intro: raises_only_timed_out)

lemmas raises_only_intros = raises_only_bind raises_only_attempt raises_only_get raises_only_modify
  raises_only_await raises_only_handle raises_only_except_lost raises_only_for_each
  raises_only_wait_for

lemma raises_only_mono: "raises_only P m \<Longrightarrow> (\<And>e. P e \<Longrightarrow> Q e) \<Longrightarrow> raises_only Q m"
  by (induction m) (auto split: sum.splits)

lemma raises_only_catch:
  "raises_only P m \<Longrightarrow> (\<And>e. P e \<Longrightarrow> raises_only Q (f (Inl e))) \<Longrightarrow> (\<And>x. raises_only Q (f (Inr x))) \<Longrightarrow>
   raises_only Q (bind (attempt m) f)"
  by (induction m) (auto split: sum.splits)

lemma raises_only_finally: "raises_only P m \<Longrightarrow> raises_only P c \<Longrightarrow> raises_only P (finally_do m c)"
  unfolding finally_do_def by (intro raises_only_attempt_bind raises_only_bind) simp_all

text \<open>What a coroutine can return, whatever the state in which it is resumed.\<close>

primrec returns_only :: "('a \<Rightarrow> bool) \<Rightarrow> ('s, 'a) coro \<Rightarrow> bool" where
  "returns_only V (Done r) = (case r of Inl _ \<Rightarrow> True | Inr x \<Rightarrow> V x)"
| "returns_only V (Act u k) = (\<forall>s. returns_only V (k s))"
| "returns_only V (Await g c x) = (returns_only V c \<and> returns_only V x)"

lemma returns_only_any: "returns_only (\<lambda>_. True) m"
  by (induction m) (auto split: sum.splits)

lemma returns_only_bind:
  "returns_only U m \<Longrightarrow> (\<And>x. U x \<Longrightarrow> returns_only V (f x)) \<Longrightarrow> returns_only V (bind m f)"
  by (induction m) (auto split: sum.splits)

lemma returns_only_then: "(\<And>x. returns_only V (f x)) \<Longrightarrow> returns_only V (bind m f)"
  by (rule returns_only_bind [OF returns_only_any])

lemma raises_only_returned:
  "raises_only P m \<Longrightarrow> returns_only V m \<Longrightarrow> (\<And>x. V x \<Longrightarrow> raises_only P (f x)) \<Longrightarrow> raises_only P (bind m f)"
  by (induction m) (auto split: sum.splits)

lemma returns_only_except_lost:
  "returns_only V m \<Longrightarrow> (\<And>r. returns_only V (h r)) \<Longrightarrow> returns_only V (except_lost m h)"
  unfolding except_lost_def handle_def by (induction m) (auto split: sum.splits exn.splits)

section \<open>Runs and guarantees\<close>

text \<open>Running alone is one of the interleavings: what holds at the end of all of them holds at the
  end of the run, and the sections of the run compose.\<close>

lemma rg_run:
  assumes "rg R G m (\<lambda>_. G) s0 s" "run m s = (Some r, s')"
    and "\<And>a b. G a b \<Longrightarrow> R b b" "\<And>a b c. G a b \<Longrightarrow> G b c \<Longrightarrow> G a c"
  shows "G s0 s'"
  using assms(1,2)
proof (induction m arbitrary: s0 s)
  case (Await g c x)
  then have 1: "G s0 s" "g s" "run c s = (Some r, s')" by (auto split: if_splits)
  with Await.prems(1) assms(3) have "rg R G c (\<lambda>_. G) s s" by auto
  with Await.IH(1) 1(3) have "G s s'" by blast
  with 1(1) show ?case by (rule assms(4))
next
  case (Act u k)
  from Act.IH [OF rangeI] Act.prems show ?case by simp
qed auto

lemma safe_ends:
  assumes "safe R G m" "ends m s Q" "G s s"
    and "\<And>a b. G a b \<Longrightarrow> R b b" "\<And>a b c. G a b \<Longrightarrow> G b c \<Longrightarrow> G a c"
  shows "ends m s (\<lambda>r s'. Q r s' \<and> G s s')"
  using assms(2) rg_run [OF safeD [OF assms(1,3)] _ assms(4,5)] by (auto simp: ends_def)

end
