(* ===== verification/Reconnecting.thy ===== *)
theory Reconnecting
  imports Manager_Safety Completion
begin

text \<open>
  Total correctness of connecting, discarding and writing: for every lifespan that ends, the
  retry loops of the connection manager end too, in one of the ways that their outcome relations
  say.
\<close>

section \<open>Operations on connections end\<close>

text \<open>The exceptions of operations on a connection, and those that have nothing to do with its
  loss.\<close>

definition plain :: "exn \<Rightarrow> bool" where
  "plain e \<longleftrightarrow> (case e of Raised _ \<Rightarrow> True | _ \<Rightarrow> False)"

definition from_connection :: "exn \<Rightarrow> bool" where
  "from_connection e \<longleftrightarrow> (case e of Raised _ \<Rightarrow> True | ConnectionLostError _ \<Rightarrow> True | _ \<Rightarrow> False)"

lemma plain_simps [simp]: "plain (Raised e)" "from_connection (Raised e)"
    "from_connection (ConnectionLostError r)" "\<not> from_connection (FailedAllWriteAttemptsError n)"
    "\<not> from_connection (FailedAllConnectAttemptsError n issues)"
  by (simp_all add: plain_def from_connection_def)

lemma prompt_reraise: "prompt m \<Longrightarrow> prompt (reraise_connection_lost causes m)"
  unfolding reraise_connection_lost_def by (intro prompt_handle) (auto split: exn.splits)

lemma prompt_suppress: "prompt m \<Longrightarrow> prompt (suppress causes m)"
  unfolding suppress_def by (intro prompt_handle) (auto split: exn.splits)

lemma prompt_none_on: "prompt m \<Longrightarrow> prompt (none_on causes m)"
  unfolding none_on_def by (intro prompt_handle prompt_bind) (auto split: exn.splits)

lemma prompt_dumped: "(\<And>d. prompt (k d)) \<Longrightarrow> prompt (dumped f k)"
  by (simp add: dumped_def split: sum.splits)

lemma prompt_writer: "prompt (writer_write c data)" "prompt (drain event)"
  by (auto simp: writer_write_def drain_def intro!: prompt_intros split: write_event.splits)

lemma prompt_dispatch: "prompt m \<Longrightarrow> prompt m' \<Longrightarrow> prompt (dispatch c m m')"
  by (auto simp: dispatch_def intro!: prompt_intros split: connection_class.splits)

lemma prompt_methods: "prompt (close c)" "prompt (write_heartbeat c)" "prompt (write_frame c f)"
  unfolding method_defs class_defs
  by (auto intro!: prompt_dispatch prompt_reraise prompt_suppress prompt_intros prompt_dumped
      prompt_writer split: option.splits)

lemma prompt_net: "prompt (logger level msg)" "prompt uuid4" "prompt (sleep t)" "prompt new_list"
    "prompt (list_append l f)"
  by (auto simp: logger_def uuid4_def sleep_def new_list_def list_append_def intro!: prompt_intros)

lemma prompt_connect: "prompt (connect cls h p n ssl path event)"
  by (auto simp: connect_def Connection_connect_def WebSocketConnection_connect_def open_transport_def
      intro!: prompt_none_on prompt_intros split: connection_class.splits open_event.splits sum.splits)

lemma prompt_first_connection: "prompt (first_connection self pending)"
  by (induction self pending rule: first_connection.induct)
    (auto simp: create_connection_to_one_server_def abandon_def intro!: prompt_intros prompt_connect
      split: sum.splits option.splits)

lemma prompt_create_connection: "prompt (create_connection_to_any_server self)"
  by (auto simp: create_connection_to_any_server_def next_round_def intro!: prompt_intros prompt_first_connection)

lemma raises_plain_reraise:
  "raises_only from_connection m \<Longrightarrow> raises_only from_connection (reraise_connection_lost causes m)"
  unfolding reraise_connection_lost_def by (intro raises_only_handle) (auto split: exn.splits)

lemma raises_only_suppress:
  "raises_only P m \<Longrightarrow> raises_only P (suppress causes m)"
  unfolding suppress_def by (intro raises_only_handle) (auto split: exn.splits)

lemma raises_only_none_on:
  "raises_only P m \<Longrightarrow> raises_only P (none_on causes m)"
  unfolding none_on_def by (intro raises_only_handle raises_only_bind) (auto split: exn.splits)

lemma raises_only_dumped:
  "(\<And>e. P (Raised e)) \<Longrightarrow> (\<And>d. raises_only P (k d)) \<Longrightarrow> raises_only P (dumped f k)"
  by (simp add: dumped_def split: sum.splits)

lemma raises_only_writer:
  assumes "\<And>e. P (Raised e)"
  shows "raises_only P (writer_write c data)" "raises_only P (drain event)" "raises_only P (read_event c)"
  using assms by (auto simp: writer_write_def drain_def read_event_def intro!: raises_only_intros split: write_event.splits)

lemma raises_only_dispatch:
  "raises_only P m \<Longrightarrow> raises_only P m' \<Longrightarrow> raises_only P (dispatch c m m')"
  by (auto simp: dispatch_def intro!: raises_only_intros split: connection_class.splits)

lemma raises_only_methods: "raises_only plain (close c)" "raises_only from_connection (write_heartbeat c)"
    "raises_only from_connection (write_frame c f)"
  unfolding method_defs class_defs
  by (auto intro!: raises_only_dispatch raises_plain_reraise raises_only_suppress raises_only_intros
      raises_only_dumped raises_only_writer split: option.splits)

lemma raises_only_connect: "raises_only plain (connect cls h p n ssl path event)"
  by (auto simp: connect_def Connection_connect_def WebSocketConnection_connect_def open_transport_def
      intro!: raises_only_none_on raises_only_intros
      split: connection_class.splits open_event.splits sum.splits)

lemma raises_only_first_connection: "raises_only plain (first_connection self pending)"
proof (induction self pending rule: first_connection.induct)
  case (2 self server event pending)
  have "raises_only plain (create_connection_to_one_server self server event)"
    by (auto simp: create_connection_to_one_server_def intro!: raises_only_intros raises_only_connect
        split: option.splits)
  with 2 show ?case
    unfolding first_connection.simps
    by (intro raises_only_attempt_bind) (auto simp: abandon_def modify_def split: option.splits)
qed simp

lemma raises_only_create_connection: "raises_only plain (create_connection_to_any_server self)"
  by (auto simp: create_connection_to_any_server_def next_round_def
      intro!: raises_only_intros raises_only_first_connection)

section \<open>What a coroutine leaves alone\<close>

text \<open>Nothing but the network is changed, and nothing but the network and the manager.\<close>

definition net_only :: "'z net_scheme \<Rightarrow> 'z net_scheme \<Rightarrow> bool" where
  "net_only s s' \<longleftrightarrow> net.more s' = net.more s \<and> n_current s' = n_current s \<and> net_evolves s s'"

definition manager_only :: "'z manager_scheme \<Rightarrow> 'z manager_scheme \<Rightarrow> bool" where
  "manager_only s s' \<longleftrightarrow> manager.more s' = manager.more s"

interpretation net_only: net_guarantee "\<lambda>_ _. True" net_only
  by unfold_locales (auto simp: net_only_def intro: net_evolves_trans)

interpretation manager_only: net_guarantee "\<lambda>_ _. True" manager_only
proof unfold_locales
  fix s s' :: "'z manager_scheme"
  assume "net.more s' = net.more s"
  then show "manager_only s s'" by (cases s; cases s') (simp add: manager_only_def)
qed (auto simp: manager_only_def)

lemma prompt_safe_ends:
  assumes "prompt m" "raises_only P m" "safe R G m" "G s s" "\<And>a b. G a b \<Longrightarrow> R b b"
    "\<And>a b c. G a b \<Longrightarrow> G b c \<Longrightarrow> G a c"
  shows "ends m s (\<lambda>r s'. G s s' \<and> (\<forall>e. r = Inl e \<longrightarrow> P e))"
  using raises_only_ends [OF assms(2) safe_ends [OF assms(3) prompt_ends [OF assms(1)] assms(4-6)]]
  by (rule ends_mono) auto

lemma net_only_refl: "net_only s s" and manager_only_refl: "manager_only s' s'"
  by (simp_all add: net_only_def manager_only_def)

lemma net_only_ends:
  "prompt m \<Longrightarrow> raises_only P m \<Longrightarrow> safe (\<lambda>_ _. True) net_only m \<Longrightarrow>
   ends m s (\<lambda>r s'. net_only s s' \<and> (\<forall>e. r = Inl e \<longrightarrow> P e))"
  by (rule prompt_safe_ends [OF _ _ _ net_only_refl TrueI net_only.G_trans])

lemma manager_only_ends:
  "prompt m \<Longrightarrow> raises_only P m \<Longrightarrow> safe (\<lambda>_ _. True) manager_only m \<Longrightarrow>
   ends m s (\<lambda>r s'. manager_only s s' \<and> (\<forall>e. r = Inl e \<longrightarrow> P e))"
  by (rule prompt_safe_ends [OF _ _ _ manager_only_refl TrueI manager_only.G_trans])

lemma quiet_ends:
  assumes "safe (manager_rely (n_current s)) (quiet (n_current s)) m" "ends m s Q"
  shows "ends m s (\<lambda>r s'. Q r s' \<and> quiet (n_current s) s s')"
  using assms by (rule safe_ends) (auto simp: quiet_def manager_rely_def intro: net_evolves_trans)

lemma net_only_manager: "net_only s s' \<Longrightarrow> manager_only s s' \<and> quiet (n_current s) s s'"
  for s s' :: "'z manager_scheme"
  using manager_more_eq [of s' s] by (cases s; cases s') (simp add: net_only_def manager_only_def quiet_def)

lemma manager_only_modify: "(\<And>s. manager.more (f s) = manager.more s) \<Longrightarrow> safe (\<lambda>_ _. True) manager_only (modify f)"
  by (rule manager_only.safe_modify) (simp add: manager_only_def)

lemma manager_only_first_connection: "safe (\<lambda>_ _. True) manager_only (first_connection self pending)"
  by (induction self pending rule: first_connection.induct)
    (auto simp: create_connection_to_one_server_def abandon_def
      intro!: manager_only.safe_bind manager_only.safe_attempt manager_only.net_intros
        manager_only_modify manager_only.safe_Done split: sum.splits option.splits)

lemma manager_only_create_connection: "safe (\<lambda>_ _. True) manager_only (create_connection_to_any_server self)"
  unfolding create_connection_to_any_server_def next_round_def
  by (intro manager_only.safe_bind manager_only_first_connection manager_only.safe_Act manager_only.safe_Done)
    (simp add: manager_only_def)

section \<open>Connecting ends\<close>

text \<open>The shortest time that the pauses after \<open>n\<close> failed attempts, from number \<open>k\<close> on, can take.\<close>

definition pauses :: "ConnectionManager \<Rightarrow> int \<Rightarrow> nat \<Rightarrow> rat" where
  "pauses self k n =
     sum_list (map (\<lambda>j. max 0 (of_int (cm_connect_retry_interval self * (k + int j + 1)))) [0..<n])"

lemma pauses_simps: "pauses self k 0 = 0"
    "pauses self k (Suc n) = max 0 (of_int (cm_connect_retry_interval self * (k + 1))) + pauses self (k + 1) n"
  by (simp_all add: pauses_def upt_conv_Cons map_Suc_upt [symmetric] comp_def algebra_simps del: upt_Suc)

text \<open>How a series of \<open>n\<close> attempts ends, from attempt \<open>k\<close> on and after \<open>i\<close> issues: with the active
  connection; with all attempts failed, each with its issue, and no less time gone than the pauses
  take; or with another exception.\<close>

definition connect_outcome ::
  "ConnectionManager \<Rightarrow> int \<Rightarrow> nat \<Rightarrow> nat \<Rightarrow> exn + ActiveConnectionState
     \<Rightarrow> 'z manager_scheme \<Rightarrow> 'z manager_scheme \<Rightarrow> bool" where
  "connect_outcome self k n i r s s' \<longleftrightarrow>
     (case r of
        Inr st \<Rightarrow> active_connection_state s' = Some st
      | Inl (FailedAllConnectAttemptsError attempts issues) \<Rightarrow>
          active_connection_state s' = None \<and> attempts = cm_connect_retry_attempts self \<and>
          length issues = i + n \<and> n_time s + pauses self k n \<le> n_time s'
      | Inl (Raised _) \<Rightarrow> active_connection_state s' = None
      | _ \<Rightarrow> False)"

lemma connect_outcome_Suc:
  assumes "connect_outcome self (k + 1) n (Suc i) r s2 s'"
    and "n_time s + max 0 (of_int (cm_connect_retry_interval self * (k + 1))) \<le> n_time s2"
  shows "connect_outcome self k (Suc n) i r s s'"
  using assms by (auto simp: connect_outcome_def pauses_simps split: sum.splits exn.splits)

lemma connect_outcome_plain:
  "plain e \<Longrightarrow> active_connection_state s' = None \<Longrightarrow> connect_outcome self k n i (Inl e) s s'"
  by (simp add: connect_outcome_def plain_def split: exn.splits)

text \<open>The part of the manager's state that connecting leaves alone.\<close>

definition kept :: "'z manager_scheme \<Rightarrow> 'z manager_scheme \<Rightarrow> bool" where
  "kept s s' \<longleftrightarrow>
     reconnect_lock s' = reconnect_lock s \<and> reconnection_count s' = reconnection_count s \<and>
     n_current s' = n_current s \<and> net_evolves s s'"

lemma kept_trans: "kept s s' \<Longrightarrow> kept s' s'' \<Longrightarrow> kept s s''"
  by (auto simp: kept_def intro: net_evolves_trans)

lemma kept_quiet: "quiet i s s' \<Longrightarrow> kept s s' \<and> active_connection_state s' = active_connection_state s"
  by (simp add: kept_def quiet_def)

lemma activate_ends:
  "ends (activate self initial st) s
     (\<lambda>r s'. r = Inr st \<and> active_connection_state s' = Some st \<and> kept s s' \<and> manager_only s s')"
  by (auto simp: activate_def restart_no_message_monitor_def create_task_def cancel_task_def
      logger_def ends_simps kept_def manager_only_def net_evolves_def transport_at_def split: option.splits)

lemma sleep_ends:
  "ends (sleep t) s (\<lambda>r s'. r = Inr () \<and> s' = s\<lparr>n_time := n_time s + max 0 t\<rparr>)"
  by (simp add: sleep_def ends_simps)

text \<open>How a write with \<open>n\<close> attempts ends. \<open>W c s\<close> says what a successful write on \<open>c\<close> leaves behind.
  Every connection that was lost on the way is counted.\<close>

definition write_outcome ::
  "ConnectionManager \<Rightarrow> (nat \<Rightarrow> 'z manager_scheme \<Rightarrow> bool) \<Rightarrow> nat \<Rightarrow> exn + unit
     \<Rightarrow> 'z manager_scheme \<Rightarrow> 'z manager_scheme \<Rightarrow> bool" where
  "write_outcome self W n r s s' \<longleftrightarrow>
     reconnection_count s \<le> reconnection_count s' \<and>
     (case r of
        Inr _ \<Rightarrow>
          reconnection_count s' < reconnection_count s + n \<and>
          (\<exists>st. active_connection_state s' = Some st \<and> W (acs_connection st) s')
      | Inl (FailedAllWriteAttemptsError attempts) \<Rightarrow>
          attempts = cm_write_retry_attempts self \<and>
          reconnection_count s' = reconnection_count s + n
      | Inl (FailedAllConnectAttemptsError attempts issues) \<Rightarrow>
          attempts = cm_connect_retry_attempts self \<and> length issues = nat attempts \<and>
          active_connection_state s' = None \<and> reconnection_count s' < reconnection_count s + n
      | Inl (ConnectionLostError _) \<Rightarrow> False
      | Inl (Raised _) \<Rightarrow> reconnection_count s' \<le> reconnection_count s + n)"

lemma write_outcome_Suc:
  "write_outcome self W n r s1 s' \<Longrightarrow> reconnection_count s1 = Suc (reconnection_count s) \<Longrightarrow>
   write_outcome self W (Suc n) r s s'"
  by (auto simp: write_outcome_def split: sum.splits exn.splits)

lemma write_outcome_plain:
  "plain e \<Longrightarrow> reconnection_count s \<le> reconnection_count s' \<Longrightarrow>
   reconnection_count s' \<le> Suc (reconnection_count s) \<Longrightarrow> write_outcome self W (Suc n) (Inl e) s s'"
  by (simp add: write_outcome_def plain_def split: exn.splits)

lemma write_outcome_written:
  "active_connection_state s' = Some st \<Longrightarrow> W (acs_connection st) s' \<Longrightarrow>
   reconnection_count s' = reconnection_count s \<Longrightarrow> write_outcome self W (Suc n) (Inr ()) s s'"
  by (simp add: write_outcome_def)

lemma write_outcome_connect:
  "connect_outcome self 0 (nat (cm_connect_retry_attempts self)) 0 (Inl e) s s' \<Longrightarrow>
   reconnection_count s' = reconnection_count s \<Longrightarrow> write_outcome self W (Suc n) (Inl e) s s'"
  by (auto simp: write_outcome_def connect_outcome_def split: exn.splits)

text \<open>A lifespan that ends: from every state with property \<open>I\<close>, which is about what the manager does
  not know of, entering it ends in such a state, with the exceptions of a connection at most.\<close>

locale live_lifespan = lifespan_interface enter for enter :: "'z lifespan_enter" +
  fixes I :: "'z manager_scheme \<Rightarrow> bool"
  assumes I_more: "I s \<Longrightarrow> manager_only s s' \<Longrightarrow> I s'"
    and enter_ends: "I s \<Longrightarrow> ends (enter c p) s (\<lambda>r s'. I s' \<and> (\<forall>e. r = Inl e \<longrightarrow> from_connection e))"
begin

lemma close_ends: "I s \<Longrightarrow> ends (close c) s (\<lambda>r s'. I s' \<and> (\<forall>e. r = Inl e \<longrightarrow> plain e))"
  by (rule ends_mono [OF net_only_ends [OF prompt_methods(1) raises_only_methods(1) net_only.net_intros(7)]])
    (auto dest: net_only_manager intro: I_more)

lemma enter_connection_ends:
  assumes "I s"
  shows "ends (enter_connection enter c p) s (\<lambda>r s'. I s' \<and> (\<forall>e. r = Inl e \<longrightarrow> plain e))"
  unfolding enter_connection_def ends_except_lost ends_bind
  by (rule ends_mono [OF enter_ends [OF assms]])
    (auto simp: ends_simps from_connection_def split: sum.splits exn.splits)

lemma connect_to_any_server_ends:
  assumes "I s"
  shows "ends (connect_to_any_server self enter) s
    (\<lambda>r s'. (I s' \<and> (\<forall>e. r = Inl e \<longrightarrow> plain e)) \<and> quiet (n_current s) s s')"
proof (rule quiet_ends [OF quiet_connect_to_any_server])
  have closed: "ends (seq (close c) (Done r)) s' (\<lambda>r s'. I s' \<and> (\<forall>e. r = Inl e \<longrightarrow> plain e))"
    if "I s'" "\<forall>e. r = Inl e \<longrightarrow> plain e" for c s' and r :: "exn + (ActiveConnectionState + connection_issue)"
    unfolding ends_bind using that(2)
    by (intro ends_mono [OF close_ends [OF that(1)]]) (auto simp: ends_simps split: sum.splits)
  have entered: "ends (bind (attempt (enter_connection enter c p))
             (\<lambda>r. case r of Inr (Inl _) \<Rightarrow> Done r | _ \<Rightarrow> seq (close c) (Done r))) s'
          (\<lambda>r s'. I s' \<and> (\<forall>e. r = Inl e \<longrightarrow> plain e))" if "I s'" for c p s'
    unfolding ends_bind ends_attempt
    by (rule ends_mono [OF enter_connection_ends [OF that]])
      (auto simp: ends_Done intro: closed split: sum.splits)
  show "ends (connect_to_any_server self enter) s (\<lambda>r s'. I s' \<and> (\<forall>e. r = Inl e \<longrightarrow> plain e))"
    unfolding connect_to_any_server_def ends_bind
    by (rule ends_mono [OF manager_only_ends [OF prompt_create_connection raises_only_create_connection
          manager_only_create_connection]])
      (use assms entered in \<open>auto simp: ends_Done intro: I_more split: sum.splits option.splits\<close>)
qed

lemma connect_attempts_ends:
  assumes "I s" "active_connection_state s = None"
  shows "ends (connect_attempts self enter initial n k issues) s
    (\<lambda>r s'. I s' \<and> kept s s' \<and> connect_outcome self k n (length issues) r s s')"
  using assms
proof (induction n arbitrary: s k issues)
  case 0
  then show ?case
    by (simp add: ends_simps connect_outcome_def kept_def pauses_simps)
next
  case (Suc n)
  let ?pause = "of_int (cm_connect_retry_interval self * (k + 1))"
  have again: "ends (seq (sleep ?pause) (connect_attempts self enter initial n (k + 1) (issues @ [issue]))) s1
      (\<lambda>r s'. I s' \<and> kept s s' \<and> connect_outcome self k (Suc n) (length issues) r s s')"
    if s1: "I s1" "kept s s1" "active_connection_state s1 = None" for s1 issue
  proof -
    let ?s2 = "s1\<lparr>n_time := n_time s1 + max 0 ?pause\<rparr>"
    have "I ?s2" using s1(1) by (rule I_more) (simp add: manager_only_def)
    moreover have "kept s1 ?s2"
      by (simp add: kept_def net_evolves_def transport_at_def)
    ultimately have s2: "kept s ?s2" "ends (connect_attempts self enter initial n (k + 1) (issues @ [issue])) ?s2
        (\<lambda>r s'. I s' \<and> kept ?s2 s' \<and> connect_outcome self (k + 1) n (Suc (length issues)) r ?s2 s')"
      using Suc.IH [of ?s2 "k + 1" "issues @ [issue]"] s1(3) kept_trans [OF s1(2)] by simp_all
    have time: "n_time s + max 0 ?pause \<le> n_time ?s2"
      using s1(2) by (simp add: kept_def net_evolves_def)
    have "ends (connect_attempts self enter initial n (k + 1) (issues @ [issue])) ?s2
        (\<lambda>r s'. I s' \<and> kept s s' \<and> connect_outcome self k (Suc n) (length issues) r s s')"
      by (rule ends_mono [OF s2(2)]) (use connect_outcome_Suc [OF _ time] kept_trans [OF s2(1)] in blast)
    then show ?thesis
      unfolding ends_bind by (intro ends_mono [OF sleep_ends]) auto
  qed
  have activated: "ends (activate self initial st) s1
      (\<lambda>r s'. I s' \<and> kept s s' \<and> connect_outcome self k (Suc n) (length issues) r s s')"
    if "I s1" "kept s s1" for st s1
    by (rule ends_mono [OF activate_ends])
      (use that in \<open>auto simp: connect_outcome_def intro: I_more kept_trans\<close>)
  show ?case
    unfolding connect_attempts.simps ends_bind
    by (rule ends_mono [OF connect_to_any_server_ends [OF Suc.prems(1)]])
      (use Suc.prems(2) again activated connect_outcome_plain in
        \<open>auto dest!: kept_quiet simp del: of_int_mult split: sum.splits\<close>)
qed

lemma get_active_ends:
  assumes "I s" "reconnect_lock s = None"
  shows "ends (get_active_connection_state self enter initial) s
    (\<lambda>r s'. I s' \<and> kept s s' \<and> connect_outcome self 0 (nat (cm_connect_retry_attempts self)) 0 r s s')"
proof (cases "active_connection_state s")
  case None
  let ?s = "s\<lparr>reconnect_lock := Some (n_current s)\<rparr>"
  have unlock: "I (s'\<lparr>reconnect_lock := None\<rparr>) \<and> kept s (s'\<lparr>reconnect_lock := None\<rparr>) \<and>
      connect_outcome self 0 n 0 r s (s'\<lparr>reconnect_lock := None\<rparr>)"
    if "I s'" "kept ?s s'" "connect_outcome self 0 n 0 r ?s s'" for s' n r
    using that assms(2) I_more [OF that(1), of "s'\<lparr>reconnect_lock := None\<rparr>"]
    by (auto simp: manager_only_def kept_def net_evolves_def transport_at_def connect_outcome_def
        split: sum.splits exn.splits)
  have "I ?s" using assms(1) by (rule I_more) (simp add: manager_only_def)
  from connect_attempts_ends [OF this, of self initial "nat (cm_connect_retry_attempts self)" 0 "[]"] None
  show ?thesis
    using assms(2) unlock
    by (auto simp: get_active_connection_state_def with_reconnect_lock_def ends_simps elim!: ends_mono)
qed (use assms in \<open>simp add: get_active_connection_state_def ends_simps connect_outcome_def kept_def\<close>)

lemma discard_ends:
  assumes "I s" "active_connection_state s = Some st"
  shows "ends (discard_failed_connection_state st e) s
    (\<lambda>r s'. I s' \<and> active_connection_state s' = None \<and> reconnect_lock s' = reconnect_lock s \<and>
       reconnection_count s' = Suc (reconnection_count s) \<and> (\<forall>e. r = Inl e \<longrightarrow> plain e))"
proof -
  let ?s = "s\<lparr>n_log := n_log s @ [(Warning, ''connection lost'')], active_connection_state := None,
      reconnection_count := reconnection_count s + 1\<rparr>"
  have "I ?s" using assms(1) by (rule I_more) (simp add: manager_only_def)
  then have "ends (close (acs_connection st)) ?s
      (\<lambda>r s'. (I s' \<and> (\<forall>e. r = Inl e \<longrightarrow> plain e)) \<and> quiet (n_current ?s) ?s s')"
    by (intro quiet_ends quiet.net_intros close_ends)
  with assms(2) show ?thesis
    by (auto simp: discard_failed_connection_state_def is_active_def ends_simps logger_def quiet_def
        elim!: ends_mono)
qed

lemma write_attempts_ends:
  assumes op: "\<And>c s. ends (op c) s (\<lambda>r s'. net_only s s' \<and> (\<forall>e. r = Inl e \<longrightarrow> from_connection e) \<and>
      (r = Inr () \<longrightarrow> W c s'))"
    and "I s" "reconnect_lock s = None"
  shows "ends (write_attempts self enter op n) s
    (\<lambda>r s'. I s' \<and> reconnect_lock s' = None \<and> write_outcome self W n r s s')"
  using assms(2,3)
proof (induction n arbitrary: s)
  case 0
  then show ?case by (simp add: ends_simps write_outcome_def)
next
  case (Suc n)
  let ?Q = "\<lambda>r s'. I s' \<and> reconnect_lock s' = None \<and> write_outcome self W (Suc n) r s s'"
  have retry: "ends (write_attempts self enter op n) s1 ?Q"
    if "I s1" "reconnect_lock s1 = None" "reconnection_count s1 = Suc (reconnection_count s)" for s1
    by (rule ends_mono [OF Suc.IH [OF that(1,2)]]) (use that(3) write_outcome_Suc in blast)
  have again: "ends (seq (discard_failed_connection_state st e) (write_attempts self enter op n)) s1 ?Q"
    if "I s1" "reconnect_lock s1 = None" "reconnection_count s1 = reconnection_count s"
      "active_connection_state s1 = Some st" for s1 st e
    unfolding ends_bind
    by (rule ends_mono [OF discard_ends [OF that(1,4)]])
      (use that(2,3) in \<open>auto intro: retry write_outcome_plain split: sum.splits\<close>)
  have written: "ends (except_lost (op (acs_connection st))
      (\<lambda>e. seq (discard_failed_connection_state st e) (write_attempts self enter op n))) s1 ?Q"
    if s1: "I s1" "reconnect_lock s1 = None" "reconnection_count s1 = reconnection_count s"
      "active_connection_state s1 = Some st" for s1 st
    unfolding ends_except_lost
  proof (rule ends_mono [OF op])
    fix r s2
    assume r: "net_only s1 s2 \<and> (\<forall>e. r = Inl e \<longrightarrow> from_connection e) \<and> (r = Inr () \<longrightarrow> W (acs_connection st) s2)"
    with net_only_manager [of s1 s2] s1 have s2: "I s2" "reconnect_lock s2 = None"
        "reconnection_count s2 = reconnection_count s" "active_connection_state s2 = Some st"
      by (auto simp: quiet_def intro: I_more)
    show "case r of Inl (ConnectionLostError e) \<Rightarrow>
          ends (seq (discard_failed_connection_state st e) (write_attempts self enter op n)) s2 ?Q
        | _ \<Rightarrow> ?Q r s2"
      using r s2 again [OF s2]
      by (auto intro: write_outcome_plain write_outcome_written split: sum.splits exn.splits)
  qed
  show ?case
    unfolding write_attempts.simps ends_bind
    by (rule ends_mono [OF get_active_ends [OF Suc.prems]])
      (use Suc.prems in \<open>auto simp: kept_def intro: written write_outcome_connect split: sum.splits\<close>,
       auto simp: connect_outcome_def intro: written)
qed

end

end
