(* ===== verification/Subscription.thy ===== *)
theory Subscription
  imports Manager_Safety
begin

text \<open>
  \<open>stompman/subscription.py\<close>: the registry of active subscriptions, subscribing and
  unsubscribing, and the acknowledgement of messages.

  The handlers that the user passes are referred to by numbers; the code behind them is a
  parameter (\<open>user_code\<close>) of the operations that call them.
\<close>

section \<open>Subscriptions\<close>

text \<open>The two classes, with what each adds to \<open>BaseSubscription\<close>. The suppressed exception
  classes are the predicate \<open>isinstance(exception, suppressed_exception_classes)\<close>.\<close>

datatype subscription_kind =
    AutoAckSubscription nat nat "exn \<Rightarrow> bool"
  | ManualAckSubscription nat

record subscription =
  sub_id :: pystr
  sub_destination :: pystr
  sub_headers :: "headers option"
  sub_ack :: AckMode
  sub_kind :: subscription_kind

definition should_handle_ack_nack :: "subscription \<Rightarrow> bool" where
  "should_handle_ack_nack sub \<longleftrightarrow> sub_ack sub \<in> {Client, ClientIndividual}"

section \<open>The registry\<close>

record ActiveSubscriptions =
  as_subscriptions :: "(pystr, subscription) dict"
  as_event :: bool

definition ActiveSubscriptions_init :: ActiveSubscriptions where
  "ActiveSubscriptions_init = \<lparr>as_subscriptions = [], as_event = True\<rparr>"

definition get_by_id :: "ActiveSubscriptions \<Rightarrow> pystr \<Rightarrow> subscription option" where
  "get_by_id a i = map_of (as_subscriptions a) i"

definition get_all :: "ActiveSubscriptions \<Rightarrow> subscription list" where
  "get_all a = map snd (as_subscriptions a)"

definition get_ids :: "ActiveSubscriptions \<Rightarrow> pystr list" where
  "get_ids a = map fst (as_subscriptions a)"

definition contains_by_id :: "ActiveSubscriptions \<Rightarrow> pystr \<Rightarrow> bool" where
  "contains_by_id a i \<longleftrightarrow> i \<in> fst ` set (as_subscriptions a)"

definition delete_by_id :: "pystr \<Rightarrow> ActiveSubscriptions \<Rightarrow> ActiveSubscriptions" where
  "delete_by_id i a =
     (let a' = (if contains_by_id a i
                then a\<lparr>as_subscriptions := AList.delete i (as_subscriptions a)\<rparr> else a)
      in if as_subscriptions a' = [] then a'\<lparr>as_event := True\<rparr> else a')"

definition add :: "subscription \<Rightarrow> ActiveSubscriptions \<Rightarrow> ActiveSubscriptions" where
  "add sub a =
     a\<lparr>as_subscriptions := AList.update (sub_id sub) sub (as_subscriptions a), as_event := False\<rparr>"

section \<open>Subscribing and unsubscribing\<close>

record subs = manager +
  active_subscriptions :: ActiveSubscriptions

definition wait_until_empty :: "('z subs_scheme, unit) coro" where
  "wait_until_empty = await (\<lambda>s. as_event (active_subscriptions s))"

definition subscribe_frame :: "subscription \<Rightarrow> frame" where
  "subscribe_frame sub =
     SubscribeFrame_build (sub_id sub) (sub_destination sub) (sub_ack sub) (sub_headers sub)"

definition subscribe ::
  "ConnectionManager \<Rightarrow> ('z subs_ext) lifespan_enter \<Rightarrow> subscription \<Rightarrow> ('z subs_scheme, unit) coro" where
  "subscribe self enter sub =
     seq (write_frame_reconnecting self enter (subscribe_frame sub))
       (modify (\<lambda>s. s\<lparr>active_subscriptions := add sub (active_subscriptions s)\<rparr>))"

definition unsubscribe :: "subscription \<Rightarrow> ('z subs_scheme, unit) coro" where
  "unsubscribe sub =
     seq (modify (\<lambda>s. s\<lparr>active_subscriptions := delete_by_id (sub_id sub) (active_subscriptions s)\<rparr>))
       (bind (maybe_write_frame (UnsubscribeFrame [(lit ''id'', sub_id sub)])) (\<lambda>_. ret ()))"

section \<open>Acknowledging\<close>

text \<open>A log call whose arguments contain \<open>frame.headers["message-id"]\<close>.\<close>

definition log_message_id :: "log_level \<Rightarrow> string \<Rightarrow> headers \<Rightarrow> ('z subs_scheme, unit) coro" where
  "log_message_id level text h =
     (case map_of h (lit ''message-id'') of
        None \<Rightarrow> raise_py (KeyError (lit ''message-id''))
      | Some _ \<Rightarrow> logger level text)"

definition nack :: "subscription \<Rightarrow> headers \<Rightarrow> nat \<Rightarrow> ('z subs_scheme, unit) coro" where
  "nack sub h received_at_reconnection_count =
     bind (get (\<lambda>s. contains_by_id (active_subscriptions s) (sub_id sub))) (\<lambda>active.
       if \<not> active
       then log_message_id Warning ''failed to nack message frame: subscription is not active'' h
       else
         case map_of h (lit ''ack'') of
           None \<Rightarrow> log_message_id Warning ''failed to nack message frame: it has no ack header'' h
         | Some [] \<Rightarrow> log_message_id Warning ''failed to nack message frame: it has no ack header'' h
         | Some ack_id \<Rightarrow>
             bind (get reconnection_count) (\<lambda>current.
               if received_at_reconnection_count \<noteq> current
               then log_message_id Error ''skipping nack for message frame: connection changed since message was received'' h
               else
                 bind (maybe_write_frame
                         (NackFrame [(lit ''id'', ack_id), (lit ''subscription'', sub_id sub)]))
                   (\<lambda>_. ret ())))"

definition ack :: "subscription \<Rightarrow> headers \<Rightarrow> nat \<Rightarrow> ('z subs_scheme, unit) coro" where
  "ack sub h received_at_reconnection_count =
     bind (get (\<lambda>s. contains_by_id (active_subscriptions s) (sub_id sub))) (\<lambda>active.
       if \<not> active
       then log_message_id Warning ''failed to ack message frame: subscription is not active'' h
       else
         case map_of h (lit ''ack'') of
           None \<Rightarrow> log_message_id Warning ''failed to ack message frame: it has no ack header'' h
         | Some [] \<Rightarrow> log_message_id Warning ''failed to ack message frame: it has no ack header'' h
         | Some ack_id \<Rightarrow>
             bind (get reconnection_count) (\<lambda>current.
               if received_at_reconnection_count \<noteq> current
               then log_message_id Warning ''skipping ack for message frame: connection changed since message was received'' h
               else
                 bind (maybe_write_frame
                         (AckFrame [(lit ''id'', ack_id), (lit ''subscription'', sub_id sub)]))
                   (\<lambda>_. ret ())))"

section \<open>Handlers\<close>

record AckableMessageFrame =
  am_headers :: headers
  am_body :: bytes
  am_subscription :: subscription
  am_received_at_reconnection_count :: nat

definition ackable_ack :: "AckableMessageFrame \<Rightarrow> ('z subs_scheme, unit) coro" where
  "ackable_ack m = ack (am_subscription m) (am_headers m) (am_received_at_reconnection_count m)"

definition ackable_nack :: "AckableMessageFrame \<Rightarrow> ('z subs_scheme, unit) coro" where
  "ackable_nack m = nack (am_subscription m) (am_headers m) (am_received_at_reconnection_count m)"

text \<open>The user's functions: message handlers of both kinds, and the callbacks for suppressed
  exceptions and for error frames.\<close>

record 's user_code =
  uc_handler :: "nat \<Rightarrow> headers \<Rightarrow> bytes \<Rightarrow> ('s, unit) coro"
  uc_manual_handler :: "nat \<Rightarrow> AckableMessageFrame \<Rightarrow> ('s, unit) coro"
  uc_on_suppressed_exception :: "nat \<Rightarrow> exn \<Rightarrow> headers \<Rightarrow> bytes \<Rightarrow> ('s, unit) coro"
  uc_on_error_frame :: "(headers \<Rightarrow> bytes \<Rightarrow> ('s, unit) coro) option"

definition run_handler ::
  "'z subs_scheme user_code \<Rightarrow> subscription \<Rightarrow> nat \<Rightarrow> nat \<Rightarrow> (exn \<Rightarrow> bool) \<Rightarrow> headers \<Rightarrow> bytes \<Rightarrow> nat
     \<Rightarrow> ('z subs_scheme, unit) coro" where
  "run_handler user sub handler on_suppressed suppressed h body received_at_reconnection_count =
     bind (attempt (uc_handler user handler h body)) (\<lambda>r.
       case r of
         Inl e \<Rightarrow>
           if suppressed e
           then seq (if should_handle_ack_nack sub
                     then nack sub h received_at_reconnection_count else ret ())
                  (uc_on_suppressed_exception user on_suppressed e h body)
           else raise e
       | Inr _ \<Rightarrow>
           if should_handle_ack_nack sub
           then ack sub h received_at_reconnection_count else ret ())"

section \<open>All active subscriptions\<close>

definition resubscribe_to_active_subscriptions :: "nat \<Rightarrow> ('z subs_scheme, unit) coro" where
  "resubscribe_to_active_subscriptions c =
     bind (get (\<lambda>s. get_all (active_subscriptions s)))
       (\<lambda>all. for_each (\<lambda>sub. write_frame c (subscribe_frame sub)) all)"

definition unsubscribe_from_all_active_subscriptions :: "('z subs_scheme, unit) coro" where
  "unsubscribe_from_all_active_subscriptions =
     bind (get (\<lambda>s. get_all (active_subscriptions s))) (\<lambda>all. for_each unsubscribe all)"

section \<open>The registry implements a map\<close>

text \<open>The interface of a registry of objects with an identifier each, and a signal for emptiness.\<close>

locale registry =
  fixes empty :: 'r and insert :: "'v \<Rightarrow> 'r \<Rightarrow> 'r" and delete :: "'k \<Rightarrow> 'r \<Rightarrow> 'r"
    and lookup :: "'r \<Rightarrow> 'k \<Rightarrow> 'v option" and signal :: "'r \<Rightarrow> bool" and key :: "'v \<Rightarrow> 'k"
    and inv :: "'r \<Rightarrow> bool"
  assumes lookup_empty: "lookup empty = Map.empty"
    and lookup_insert: "inv r \<Longrightarrow> lookup (insert v r) = (lookup r)(key v \<mapsto> v)"
    and lookup_delete: "inv r \<Longrightarrow> lookup (delete k r) = (lookup r)(k := None)"
    and signal_iff: "inv r \<Longrightarrow> signal r \<longleftrightarrow> lookup r = Map.empty"
    and inv_empty: "inv empty"
    and inv_insert: "inv r \<Longrightarrow> inv (insert v r)"
    and inv_delete: "inv r \<Longrightarrow> inv (delete k r)"
begin

definition apply_op :: "'v + 'k \<Rightarrow> 'r \<Rightarrow> 'r" where
  "apply_op p = (case p of Inl v \<Rightarrow> insert v | Inr k \<Rightarrow> delete k)"

definition apply_spec :: "'v + 'k \<Rightarrow> ('k \<rightharpoonup> 'v) \<Rightarrow> ('k \<rightharpoonup> 'v)" where
  "apply_spec p m = (case p of Inl v \<Rightarrow> m(key v \<mapsto> v) | Inr k \<Rightarrow> m(k := None))"

lemma history:
  "inv r \<Longrightarrow> inv (fold apply_op ps r) \<and> lookup (fold apply_op ps r) = fold apply_spec ps (lookup r)"
  by (induction ps arbitrary: r)
    (auto simp: apply_op_def apply_spec_def inv_insert inv_delete lookup_insert lookup_delete
      split: sum.splits)

lemma history_empty:
  "lookup (fold apply_op ps empty) = fold apply_spec ps Map.empty"
  "signal (fold apply_op ps empty) \<longleftrightarrow> fold apply_spec ps Map.empty = Map.empty"
  using history [OF inv_empty, of ps] signal_iff by (auto simp: lookup_empty)

end

definition registry_inv :: "ActiveSubscriptions \<Rightarrow> bool" where
  "registry_inv a \<longleftrightarrow>
     dict_wf (as_subscriptions a) \<and> (as_event a \<longleftrightarrow> as_subscriptions a = []) \<and>
     (\<forall>(i, sub) \<in> set (as_subscriptions a). sub_id sub = i)"

lemma update_nonempty [simp]: "AList.update k v d \<noteq> []"
  by (cases d) auto

lemma set_update_subset: "set (AList.update k v d) \<subseteq> insert (k, v) (set d)"
  by (induction d) auto

lemma set_delete_subset: "set (AList.delete k d) \<subseteq> set d"
  by (induction d) auto

lemma as_subscriptions_delete [simp]:
  "as_subscriptions (delete_by_id i a) = AList.delete i (as_subscriptions a)"
  by (auto simp: delete_by_id_def Let_def contains_by_id_def delete_idem)

interpretation subscriptions: registry ActiveSubscriptions_init add delete_by_id get_by_id as_event
  sub_id registry_inv
proof unfold_locales
  fix a :: ActiveSubscriptions and sub :: subscription and i :: pystr
  assume inv: "registry_inv a"
  show "get_by_id (add sub a) = (get_by_id a)(sub_id sub \<mapsto> sub)"
    by (auto simp: get_by_id_def [abs_def] add_def dict_laws)
  show "get_by_id (delete_by_id i a) = (get_by_id a)(i := None)"
    by (simp add: get_by_id_def [abs_def] delete_conv')
  show "as_event a \<longleftrightarrow> get_by_id a = Map.empty"
    using inv by (auto simp: registry_inv_def get_by_id_def [abs_def] fun_eq_iff)
      (metis list.set_intros(1) map_of_eq_None_iff neq_Nil_conv option.distinct(1) image_eqI)
  show "registry_inv (add sub a)"
    using inv set_update_subset [of "sub_id sub" sub "as_subscriptions a"]
    by (auto simp: registry_inv_def add_def dict_laws)
  show "registry_inv (delete_by_id i a)"
  proof -
    have "as_event (delete_by_id i a) \<longleftrightarrow> AList.delete i (as_subscriptions a) = []"
      using inv by (auto simp: registry_inv_def delete_by_id_def Let_def contains_by_id_def)
    then show ?thesis
      using inv set_delete_subset [of i "as_subscriptions a"]
      by (auto simp: registry_inv_def delete_keys distinct_removeAll)
  qed
qed (auto simp: registry_inv_def ActiveSubscriptions_init_def get_by_id_def [abs_def])

section \<open>Properties\<close>

text \<open>A history of additions and deletions, on the registry and on the map.\<close>

definition registry_after :: "(subscription + pystr) list \<Rightarrow> ActiveSubscriptions" where
  "registry_after ps =
     fold (\<lambda>p. case p of Inl sub \<Rightarrow> add sub | Inr i \<Rightarrow> delete_by_id i) ps ActiveSubscriptions_init"

definition map_after :: "(subscription + pystr) list \<Rightarrow> (pystr \<rightharpoonup> subscription)" where
  "map_after ps =
     fold (\<lambda>p m. case p of Inl sub \<Rightarrow> m(sub_id sub \<mapsto> sub) | Inr i \<Rightarrow> m(i := None)) ps Map.empty"

text \<open>C33. The registry of active subscriptions refines a finite map from identifiers to
  subscriptions: after any sequence of additions and deletions, lookup, membership, the list
  of identifiers and the list of subscriptions are those of the map, and the event that
  \<open>wait_until_empty\<close> waits for is set exactly when the map is empty.\<close>

theorem subscriptions_refine_map:
  "let a = registry_after ps; m = map_after ps in
   get_by_id a = m \<and> (\<forall>i. contains_by_id a i \<longleftrightarrow> i \<in> dom m) \<and>
   set (get_ids a) = dom m \<and> set (get_all a) = ran m \<and> (as_event a \<longleftrightarrow> m = Map.empty)"
proof -
  define a where "a = registry_after ps"
  define m where "m = map_after ps"
  have a: "a = fold subscriptions.apply_op ps ActiveSubscriptions_init"
    by (simp add: a_def registry_after_def subscriptions.apply_op_def [abs_def])
  have m: "m = fold subscriptions.apply_spec ps Map.empty"
    by (simp add: m_def map_after_def subscriptions.apply_spec_def [abs_def])
  have lookup: "get_by_id a = m" and signal: "as_event a \<longleftrightarrow> m = Map.empty"
    using subscriptions.history_empty [of ps] by (simp_all add: a m)
  have "registry_inv a"
    using subscriptions.history [OF subscriptions.inv_empty, of ps] by (simp add: a)
  then have "ran (map_of (as_subscriptions a)) = set (get_all a)"
    by (simp add: get_all_def registry_inv_def ran_distinct)
  moreover have "dom m = fst ` set (as_subscriptions a)"
    using lookup dom_map_of_conv_image_fst [of "as_subscriptions a"]
    by (simp add: get_by_id_def [abs_def])
  ultimately show ?thesis
    using lookup signal
    by (auto simp: Let_def a_def [symmetric] m_def [symmetric] get_by_id_def [abs_def] get_ids_def
        contains_by_id_def)
qed

end
