(* ===== verification/Transaction.thy ===== *)
theory Transaction
  imports Subscription
begin

text \<open>
  \<open>stompman/transaction.py\<close>: transactions, the frames sent in them, and committing what is
  pending on a new connection.

  Transaction objects live in a heap, since the set of active transactions and the user share
  them; the headers of the frames they keep live in the heap of dictionaries.
\<close>

section \<open>State\<close>

record transaction =
  tr_id :: pystr
  tr_sent_frames :: "send_frame list"

text \<open>
  \<open>active_transactions\<close> is a Python \<open>set\<close>, whose iteration order is unspecified: it is a list of
  distinct references in some order, and the properties hold whatever the order.
\<close>

record trans = subs +
  dicts :: dict_heap
  transactions :: "transaction list"
  active_transactions :: "nat list"

definition transaction_at :: "'z trans_scheme \<Rightarrow> nat \<Rightarrow> transaction" where
  "transaction_at s t =
     (if t < length (transactions s) then transactions s ! t else \<lparr>tr_id = [], tr_sent_frames = []\<rparr>)"

section \<open>Operations\<close>

text \<open>The constructor: a fresh identifier and no frames.\<close>

definition new_transaction :: "('z trans_scheme, nat) coro" where
  "new_transaction =
     bind uuid4 (\<lambda>i.
       Act (\<lambda>s. s\<lparr>transactions := transactions s @ [\<lparr>tr_id = i, tr_sent_frames = []\<rparr>]\<rparr>)
         (\<lambda>s. ret (length (transactions s))))"

definition transaction_id :: "nat \<Rightarrow> ('z trans_scheme, pystr) coro" where
  "transaction_id t = get (\<lambda>s. tr_id (transaction_at s t))"

definition set_add :: "nat \<Rightarrow> nat list \<Rightarrow> nat list" where
  "set_add t ts = (if t \<in> set ts then ts else ts @ [t])"

text \<open>\<open>set.remove\<close>.\<close>

definition remove_active :: "nat \<Rightarrow> ('z trans_scheme, unit) coro" where
  "remove_active t =
     bind (get active_transactions) (\<lambda>ts.
       if t \<in> set ts then modify (\<lambda>s. s\<lparr>active_transactions := remove1 t (active_transactions s)\<rparr>)
       else bind (transaction_id t) (\<lambda>i. raise_py (KeyError i)))"

definition transaction_aenter ::
  "ConnectionManager \<Rightarrow> 'z trans_ext subs_ext lifespan_enter \<Rightarrow> nat \<Rightarrow> ('z trans_scheme, unit) coro" where
  "transaction_aenter self enter t =
     bind (transaction_id t) (\<lambda>i.
       seq (write_frame_reconnecting self enter (BeginFrame [(lit ''transaction'', i)]))
         (modify (\<lambda>s. s\<lparr>active_transactions := set_add t (active_transactions s)\<rparr>)))"

text \<open>\<open>failed\<close> is whether the body of the \<open>async with\<close> raised.\<close>

definition transaction_aexit :: "nat \<Rightarrow> bool \<Rightarrow> ('z trans_scheme, unit) coro" where
  "transaction_aexit t failed =
     bind (transaction_id t) (\<lambda>i.
       if failed then
         bind (maybe_write_frame (AbortFrame [(lit ''transaction'', i)])) (\<lambda>_. remove_active t)
       else
         bind (maybe_write_frame (CommitFrame [(lit ''transaction'', i)]))
           (\<lambda>committed. if committed then remove_active t else ret ()))"

text \<open>A \<open>SendFrame\<close> object is dumped when it is written, with the items that its dictionary has
  then.\<close>

definition write_send_frame :: "nat \<Rightarrow> send_frame \<Rightarrow> ('z trans_scheme, unit) coro" where
  "write_send_frame c sf = bind (get (\<lambda>s. send_frame_of (dicts s) sf)) (write_frame c)"

definition write_send_frame_reconnecting ::
  "ConnectionManager \<Rightarrow> 'z trans_ext subs_ext lifespan_enter \<Rightarrow> send_frame \<Rightarrow> ('z trans_scheme, unit) coro" where
  "write_send_frame_reconnecting self enter sf =
     write_attempts self enter (\<lambda>c. write_send_frame c sf) (nat (cm_write_retry_attempts self))"

definition build_send_frame ::
  "bytes \<Rightarrow> pystr \<Rightarrow> pystr option \<Rightarrow> pystr option \<Rightarrow> bool \<Rightarrow> ref option
     \<Rightarrow> ('z trans_scheme, send_frame) coro" where
  "build_send_frame body destination transaction content_type add_content_length headers =
     Act (\<lambda>s. s\<lparr>dicts := snd (SendFrame_build (dicts s) body destination transaction content_type
                              add_content_length headers)\<rparr>)
       (\<lambda>s. ret (fst (SendFrame_build (dicts s) body destination transaction content_type
                              add_content_length headers)))"

definition append_sent_frame :: "nat \<Rightarrow> send_frame \<Rightarrow> ('z trans_scheme, unit) coro" where
  "append_sent_frame t sf =
     modify (\<lambda>s. s\<lparr>transactions := (transactions s)
        [t := (transaction_at s t)\<lparr>tr_sent_frames := tr_sent_frames (transaction_at s t) @ [sf]\<rparr>]\<rparr>)"

definition transaction_send ::
  "ConnectionManager \<Rightarrow> 'z trans_ext subs_ext lifespan_enter \<Rightarrow> nat \<Rightarrow> bytes \<Rightarrow> pystr \<Rightarrow> pystr option
     \<Rightarrow> bool \<Rightarrow> ref option \<Rightarrow> ('z trans_scheme, unit) coro" where
  "transaction_send self enter t body destination content_type add_content_length headers =
     bind (transaction_id t) (\<lambda>i.
       bind (build_send_frame body destination (Some i) content_type add_content_length headers)
         (\<lambda>frame.
           seq (append_sent_frame t frame) (write_send_frame_reconnecting self enter frame)))"

section \<open>Committing what is pending\<close>

text \<open>
  Iterating over a list reads the next position each time round, so that frames appended while
  the loop is suspended are written too. The first number bounds the rounds.
\<close>

fun write_sent_frames :: "nat \<Rightarrow> nat \<Rightarrow> nat \<Rightarrow> nat \<Rightarrow> ('z trans_scheme, unit) coro" where
  "write_sent_frames 0 k c t = never"
| "write_sent_frames (Suc n) k c t =
     bind (get (\<lambda>s. tr_sent_frames (transaction_at s t))) (\<lambda>frames.
       if k < length frames
       then seq (write_send_frame c (frames ! k)) (write_sent_frames n (Suc k) c t)
       else ret ())"

text \<open>Iterating over a set whose size has changed raises \<open>RuntimeError\<close> at the next step, the last
  one included.\<close>

definition check_set_size :: "nat \<Rightarrow> ('z trans_scheme, unit) coro" where
  "check_set_size expected =
     bind (get active_transactions) (\<lambda>ts.
       if length ts = expected then ret ()
       else raise_py (RuntimeError ''Set changed size during iteration''))"

fun commit_each :: "nat \<Rightarrow> nat \<Rightarrow> nat \<Rightarrow> nat list \<Rightarrow> ('z trans_scheme, unit) coro" where
  "commit_each n expected c [] = check_set_size expected"
| "commit_each n expected c (t # ts) =
     seq (check_set_size expected)
       (seq (write_sent_frames n 0 c t)
          (seq (bind (transaction_id t) (\<lambda>i. write_frame c (CommitFrame [(lit ''transaction'', i)])))
             (commit_each n expected c ts)))"

definition commit_pending_transactions :: "nat \<Rightarrow> nat \<Rightarrow> ('z trans_scheme, unit) coro" where
  "commit_pending_transactions n c =
     seq (bind (get active_transactions) (\<lambda>ts. commit_each n (length ts) c ts))
       (modify (\<lambda>s. s\<lparr>active_transactions := []\<rparr>))"

end
