(* ===== verification/Connection_Lifespan.thy ===== *)
theory Connection_Lifespan
  imports Transaction
begin

text \<open>
  \<open>stompman/connection_lifespan.py\<close>: what happens on a connection when it is entered (the STOMP
  handshake, resubscribing, committing pending transactions) and when it is left
  (unsubscribing, \<open>DISCONNECT\<close> and its receipt).
\<close>

text \<open>The fields of the lifespan object that are the same for all connections. \<open>cl_rounds\<close> bounds
  the loop over the frames of a transaction.\<close>

record ConnectionLifespan =
  cl_protocol_version :: pystr
  cl_client_heartbeat :: Heartbeat
  cl_connection_confirmation_timeout :: int
  cl_disconnect_confirmation_timeout :: int
  cl_rounds :: nat

definition connect_headers ::
  "ConnectionLifespan \<Rightarrow> ConnectionParameters \<Rightarrow> pystr \<Rightarrow> headers" where
  "connect_headers self params heartbeat =
     dict_update (cp_connect_headers params)
       [(lit ''accept-version'', cl_protocol_version self),
        (lit ''heart-beat'', heartbeat),
        (lit ''host'', cp_host params),
        (lit ''login'', cp_login params),
        (lit ''passcode'', unescaped_passcode params)]"

text \<open>The body of the loop that looks for the \<open>CONNECTED\<close> frame.\<close>

definition take_connected_frame :: "nat \<Rightarrow> frame \<Rightarrow> ('z net_scheme, headers option) coro" where
  "take_connected_frame collected_frames f =
     (case f of
        ConnectedFrame h \<Rightarrow> ret (Some h)
      | _ \<Rightarrow> seq (list_append collected_frames f) (ret None))"

text \<open>\<open>headers[key]\<close>.\<close>

definition header_item :: "headers \<Rightarrow> string \<Rightarrow> ('s, pystr) coro" where
  "header_item h key =
     (case map_of h (lit key) of None \<Rightarrow> raise_py (KeyError (lit key)) | Some v \<Rightarrow> ret v)"

text \<open>A call of a function that returns or raises.\<close>

definition call :: "py_exn + 'a \<Rightarrow> ('s, 'a) coro" where
  "call r = (case r of Inl e \<Rightarrow> raise_py e | Inr x \<Rightarrow> ret x)"

definition check_connected ::
  "ConnectionLifespan \<Rightarrow> headers \<Rightarrow> ('z manager_scheme, Heartbeat + connection_issue) coro" where
  "check_connected self h =
     bind (header_item h ''version'') (\<lambda>version.
       if version \<noteq> cl_protocol_version self
       then ret (Inr (UnsupportedProtocolVersion version (cl_protocol_version self)))
       else
         bind (header_item h ''heart-beat'') (\<lambda>heartbeat.
           bind (call (from_header heartbeat)) (\<lambda>server_heartbeat.
             seq (restart_background_tasks server_heartbeat) (ret (Inl server_heartbeat)))))"

definition establish_connection ::
  "ConnectionLifespan \<Rightarrow> nat \<Rightarrow> ConnectionParameters
     \<Rightarrow> ('z manager_scheme, Heartbeat + connection_issue) coro" where
  "establish_connection self c params =
     bind (call (to_header (cl_client_heartbeat self))) (\<lambda>heartbeat.
       seq (write_frame c (ConnectFrame (connect_headers self params heartbeat)))
         (bind new_list (\<lambda>collected_frames.
            bind (attempt (wait_for (read_frames c (take_connected_frame collected_frames)))) (\<lambda>r.
              case r of
                Inl e \<Rightarrow>
                  if e = Raised TimeoutError
                  then bind (get (\<lambda>s. n_lists s ! collected_frames)) (\<lambda>frames.
                         ret (Inr (ConnectionConfirmationTimeout
                                     (cl_connection_confirmation_timeout self) frames)))
                  else raise e
              | Inr h \<Rightarrow> check_connected self h))))"

definition lifespan_enter ::
  "ConnectionLifespan \<Rightarrow> 'z trans_ext subs_ext lifespan_enter" where
  "lifespan_enter self c params =
     bind (establish_connection self c params) (\<lambda>connection_result.
       case connection_result of
         Inl server_heartbeat \<Rightarrow>
           seq (resubscribe_to_active_subscriptions c)
             (seq (commit_pending_transactions (cl_rounds self) c) (ret (Inl server_heartbeat)))
       | Inr issue \<Rightarrow> ret (Inr issue))"

definition take_receipt_frame :: "frame \<Rightarrow> ('s, unit option) coro" where
  "take_receipt_frame f = ret (case f of ReceiptFrame _ \<Rightarrow> Some () | _ \<Rightarrow> None)"

definition lifespan_exit :: "'z subs_ext lifespan_exit" where
  "lifespan_exit c params =
     seq unsubscribe_from_all_active_subscriptions
       (bind uuid4 (\<lambda>receipt.
          seq (write_frame c (DisconnectFrame [(lit ''receipt'', receipt)]))
            (suppress [C_TimeoutError] (wait_for (read_frames c take_receipt_frame)))))"

end
