(* ===== verification/Client.thy ===== *)
theory Client
  imports Connection_Lifespan
begin

text \<open>
  \<open>stompman/client.py\<close>: the client object, which puts the parts together: the manager with its
  lifespans, the task that reads and dispatches frames, the handlers it starts, and the
  operations of the user.
\<close>

section \<open>Configuration and state\<close>

record Client =
  clt_servers :: "ConnectionParameters list"
  clt_heartbeat :: Heartbeat
  clt_ssl :: "nat option"
  clt_connect_retry_attempts :: int
  clt_connect_retry_interval :: int
  clt_connect_timeout :: int
  clt_read_max_chunk_size :: int
  clt_write_retry_attempts :: int
  clt_connection_confirmation_timeout :: int
  clt_disconnect_confirmation_timeout :: int
  clt_check_server_alive_interval_factor :: int
  clt_no_message_restart_interval :: "rat option"
  clt_keep_alive_on_connection_failure :: bool
  clt_max_concurrent_handlers :: "nat option"
  clt_connection_class :: connection_class

definition PROTOCOL_VERSION :: pystr where
  "PROTOCOL_VERSION = lit ''1.2''"

text \<open>The defaults of the dataclass.\<close>

definition Client_defaults :: "ConnectionParameters list \<Rightarrow> Client" where
  "Client_defaults servers =
     \<lparr>clt_servers = servers,
      clt_heartbeat = \<lparr>will_send_interval_ms = 1000, want_to_receive_interval_ms = 1000\<rparr>,
      clt_ssl = None, clt_connect_retry_attempts = 3, clt_connect_retry_interval = 1,
      clt_connect_timeout = 2, clt_read_max_chunk_size = 1024 * 1024,
      clt_write_retry_attempts = 3, clt_connection_confirmation_timeout = 2,
      clt_disconnect_confirmation_timeout = 2, clt_check_server_alive_interval_factor = 3,
      clt_no_message_restart_interval = Some 3600,
      clt_keep_alive_on_connection_failure = False, clt_max_concurrent_handlers = Some 100,
      clt_connection_class = Connection\<rparr>"

text \<open>\<open>__post_init__\<close>: the manager and the lifespan factory. The number is the bound on the rounds of
  the loop over the frames of a transaction.\<close>

definition client_manager :: "Client \<Rightarrow> ConnectionManager" where
  "client_manager self =
     \<lparr>cm_servers = clt_servers self,
      cm_connection_class = clt_connection_class self,
      cm_connect_retry_attempts = clt_connect_retry_attempts self,
      cm_connect_retry_interval = clt_connect_retry_interval self,
      cm_connect_timeout = clt_connect_timeout self,
      cm_ssl = clt_ssl self,
      cm_read_max_chunk_size = clt_read_max_chunk_size self,
      cm_write_retry_attempts = clt_write_retry_attempts self,
      cm_check_server_alive_interval_factor = clt_check_server_alive_interval_factor self,
      cm_no_message_restart_interval = clt_no_message_restart_interval self,
      cm_keep_alive_on_connection_failure = clt_keep_alive_on_connection_failure self\<rparr>"

definition client_lifespan :: "Client \<Rightarrow> nat \<Rightarrow> ConnectionLifespan" where
  "client_lifespan self rounds =
     \<lparr>cl_protocol_version = PROTOCOL_VERSION,
      cl_client_heartbeat = clt_heartbeat self,
      cl_connection_confirmation_timeout = clt_connection_confirmation_timeout self,
      cl_disconnect_confirmation_timeout = clt_disconnect_confirmation_timeout self,
      cl_rounds = rounds\<rparr>"

text \<open>
  A handler task: the subscription, the message and the epoch in which it was received, and
  whether the task is done. \<open>handler_permits\<close> is the value of the semaphore.
\<close>

record handler_task =
  ht_subscription :: subscription
  ht_headers :: headers
  ht_body :: bytes
  ht_epoch :: nat
  ht_done :: bool

record client = trans +
  handler_permits :: "nat option"
  handler_tasks :: "handler_task list"
  listen_done :: bool

type_synonym 'z client_enter = "'z client_ext trans_ext subs_ext lifespan_enter"

abbreviation client_enter :: "Client \<Rightarrow> nat \<Rightarrow> 'z client_enter" where
  "client_enter self rounds \<equiv> lifespan_enter (client_lifespan self rounds)"

definition initial_permits :: "Client \<Rightarrow> nat option" where
  "initial_permits self = clt_max_concurrent_handlers self"

section \<open>Listening\<close>

definition run_handler_with_safety_net :: "('z net_scheme, unit) coro \<Rightarrow> ('z net_scheme, unit) coro" where
  "run_handler_with_safety_net coro =
     handle coro (\<lambda>e.
       if base_exception e then raise e
       else logger Exception ''unhandled exception in message handler'')"

definition handler_coro ::
  "'z client_scheme user_code \<Rightarrow> handler_task \<Rightarrow> ('z client_scheme, unit) coro" where
  "handler_coro user task =
     (case sub_kind (ht_subscription task) of
        AutoAckSubscription handler on_suppressed suppressed \<Rightarrow>
          run_handler user (ht_subscription task) handler on_suppressed suppressed
            (ht_headers task) (ht_body task) (ht_epoch task)
      | ManualAckSubscription handler \<Rightarrow>
          uc_manual_handler user handler
            \<lparr>am_headers = ht_headers task, am_body = ht_body task,
             am_subscription = ht_subscription task,
             am_received_at_reconnection_count = ht_epoch task\<rparr>)"

text \<open>The done callback, which runs however the task ends, releases the semaphore.\<close>

definition release_handler :: "nat \<Rightarrow> 'z client_scheme \<Rightarrow> 'z client_scheme" where
  "release_handler k s =
     s\<lparr>handler_tasks := (handler_tasks s)[k := (handler_tasks s ! k)\<lparr>ht_done := True\<rparr>],
       handler_permits := map_option Suc (handler_permits s)\<rparr>"

definition handler_task ::
  "'z client_scheme user_code \<Rightarrow> nat \<Rightarrow> handler_task \<Rightarrow> ('z client_scheme, unit) coro" where
  "handler_task user k task =
     finally_do (run_handler_with_safety_net (handler_coro user task)) (modify (release_handler k))"

definition acquire_permit :: "('z client_scheme, unit) coro" where
  "acquire_permit =
     bind (get handler_permits) (\<lambda>permits.
       case permits of
         None \<Rightarrow> ret ()
       | Some n \<Rightarrow>
           seq (if n = 0 then await (\<lambda>s. handler_permits s \<noteq> Some 0) else ret ())
             (modify (\<lambda>s. s\<lparr>handler_permits := map_option (\<lambda>n. n - 1) (handler_permits s)\<rparr>)))"

text \<open>\<open>task_group.create_task\<close>: the task is noted; it runs as \<open>handler_task\<close>.\<close>

definition start_handler :: "handler_task \<Rightarrow> ('z client_scheme, unit) coro" where
  "start_handler task = modify (\<lambda>s. s\<lparr>handler_tasks := handler_tasks s @ [task]\<rparr>)"

definition dispatch_frame ::
  "'z client_scheme user_code \<Rightarrow> frame \<Rightarrow> nat \<Rightarrow> ('z client_scheme, unit) coro" where
  "dispatch_frame user frame epoch =
     (case frame of
        MessageFrame h body \<Rightarrow>
          seq (modify (\<lambda>s. s\<lparr>last_message_received_time := n_time s\<rparr>))
            (bind (header_item h ''subscription'') (\<lambda>i.
               bind (get (\<lambda>s. get_by_id (active_subscriptions s) i)) (\<lambda>subscription.
                 case subscription of
                   None \<Rightarrow> ret ()
                 | Some sub \<Rightarrow>
                     seq acquire_permit
                       (start_handler
                          \<lparr>ht_subscription = sub, ht_headers = h, ht_body = body, ht_epoch = epoch,
                           ht_done = False\<rparr>))))
      | ErrorFrame h body \<Rightarrow>
          (case uc_on_error_frame user of None \<Rightarrow> ret () | Some f \<Rightarrow> f h body)
      | _ \<Rightarrow> ret ())"

text \<open>The default of \<open>on_error_frame\<close>.\<close>

definition default_on_error_frame :: "headers \<Rightarrow> bytes \<Rightarrow> ('z net_scheme, unit) coro" where
  "default_on_error_frame h body = logger Error ''received error frame''"

text \<open>\<open>_listen_to_frames\<close>, for the given number of connections.\<close>

definition listen_to_frames ::
  "Client \<Rightarrow> nat \<Rightarrow> 'z client_scheme user_code \<Rightarrow> nat \<Rightarrow> ('z client_scheme, unit) coro" where
  "listen_to_frames self rounds user n =
     finally_do
       (read_frames_reconnecting (client_manager self) (client_enter self rounds)
          (dispatch_frame user) n)
       (modify (\<lambda>s. s\<lparr>listen_done := True\<rparr>))"

section \<open>The operations of the user\<close>

definition client_send ::
  "Client \<Rightarrow> nat \<Rightarrow> bytes \<Rightarrow> pystr \<Rightarrow> pystr option \<Rightarrow> bool \<Rightarrow> ref option
     \<Rightarrow> ('z client_scheme, unit) coro" where
  "client_send self rounds body destination content_type add_content_length headers =
     bind (build_send_frame body destination None content_type add_content_length headers)
       (write_send_frame_reconnecting (client_manager self) (client_enter self rounds))"

text \<open>\<open>async with client.begin() as transaction: body(transaction)\<close>.\<close>

definition client_begin ::
  "Client \<Rightarrow> nat \<Rightarrow> (nat \<Rightarrow> ('z client_scheme, 'a) coro) \<Rightarrow> ('z client_scheme, 'a) coro" where
  "client_begin self rounds body =
     bind new_transaction (\<lambda>t.
       seq (transaction_aenter (client_manager self) (client_enter self rounds) t)
         (bind (attempt (body t)) (\<lambda>r.
            seq (transaction_aexit t (case r of Inl _ \<Rightarrow> True | Inr _ \<Rightarrow> False)) (Done r))))"

definition client_subscribe ::
  "Client \<Rightarrow> nat \<Rightarrow> pystr \<Rightarrow> headers option \<Rightarrow> AckMode \<Rightarrow> subscription_kind
     \<Rightarrow> ('z client_scheme, subscription) coro" where
  "client_subscribe self rounds destination headers mode kind =
     bind uuid4 (\<lambda>i.
       let sub = \<lparr>sub_id = i, sub_destination = destination, sub_headers = headers, sub_ack = mode,
                  sub_kind = kind\<rparr>
       in seq (subscribe (client_manager self) (client_enter self rounds) sub) (ret sub))"

definition client_is_alive :: "Client \<Rightarrow> 'z client_scheme \<Rightarrow> bool" where
  "client_is_alive self s =
     (if listen_done s then False
      else case active_connection_state s of
             None \<Rightarrow> False
           | Some st \<Rightarrow> acs_is_alive st (clt_check_server_alive_interval_factor self) s)"

section \<open>Entering and leaving\<close>

definition client_aenter :: "Client \<Rightarrow> nat \<Rightarrow> ('z client_scheme, unit) coro" where
  "client_aenter self rounds =
     seq (manager_aenter (client_manager self) (client_enter self rounds))
       (modify (\<lambda>s. s\<lparr>listen_done := False\<rparr>))"

text \<open>\<open>failed\<close> is whether the body raised; cancelling the listening task and waiting for it makes
  it done.\<close>

definition client_aexit :: "bool \<Rightarrow> exn option \<Rightarrow> ('z client_scheme, unit) coro" where
  "client_aexit failed group_failure =
     finally_do (if failed then ret () else wait_until_empty)
       (seq suspend
          (seq (modify (\<lambda>s. s\<lparr>listen_done := True\<rparr>))
             (manager_aexit lifespan_exit group_failure)))"

end
