(* ===== verification/Client_Safety.thy ===== *)
theory Client_Safety
  imports Client
begin

text \<open>
  The whole client under interleaving and cancellation: every coroutine that the client runs
  respects the reconnect lock and the epoch, so that an acknowledgement never goes to another
  connection than the one its message came from.
\<close>

section \<open>Entering a lifespan leaves the manager alone\<close>

lemma quiet_trans_update:
  "quiet i s s \<Longrightarrow> quiet i s (s\<lparr>active_transactions := x\<rparr>)"
  by (simp add: quiet_simps)

lemma quiet_header_item: "safe (manager_rely i) (quiet i) (header_item h k)"
  by (simp add: header_item_def quiet.safe_Done split: option.splits)

lemma quiet_call: "safe (manager_rely i) (quiet i) (call r)"
  by (simp add: call_def quiet.safe_Done split: sum.splits)

lemma quiet_take_connected_frame:
  "safe (manager_rely i) (quiet i) (take_connected_frame l f)"
  by (cases f) (auto simp: take_connected_frame_def intro!: quiet.safe_bind quiet.safe_Done quiet.net_intros)

lemma quiet_establish_connection:
  "safe (manager_rely i) (quiet i) (establish_connection cl c params)"
  unfolding establish_connection_def check_connected_def
  by (auto intro!: quiet.safe_bind quiet_call quiet.net_intros quiet.safe_attempt quiet.safe_wait_for
      quiet_take_connected_frame quiet.safe_get quiet.safe_Done quiet_header_item
      quiet_restart_background_tasks split: sum.splits)

lemma quiet_resubscribe: "safe (manager_rely i) (quiet i) (resubscribe_to_active_subscriptions c)"
  unfolding resubscribe_to_active_subscriptions_def
  by (intro quiet.safe_bind quiet.safe_get quiet.safe_for_each quiet.net_intros)

lemma quiet_write_sent_frames: "safe (manager_rely i) (quiet i) (write_sent_frames n k c t)"
proof (induction n arbitrary: k)
  case (Suc n)
  then show ?case
    by (auto simp: write_send_frame_def intro!: quiet.safe_bind quiet.safe_get quiet.net_intros quiet.safe_Done)
qed (simp add: quiet.safe_never)

lemma quiet_check_set_size: "safe (manager_rely i) (quiet i) (check_set_size n)"
  unfolding check_set_size_def by (auto intro!: quiet.safe_bind quiet.safe_get quiet.safe_Done)

lemma quiet_commit_each: "safe (manager_rely i) (quiet i) (commit_each n m c ts)"
  by (induction ts) (auto simp: transaction_id_def intro!: quiet.safe_bind quiet_check_set_size
      quiet_write_sent_frames quiet.safe_get quiet.net_intros)

lemma quiet_commit_pending: "safe (manager_rely i) (quiet i) (commit_pending_transactions n c)"
  unfolding commit_pending_transactions_def
  by (intro quiet.safe_bind quiet.safe_get quiet_commit_each quiet.safe_modify quiet_trans_update)

interpretation lifespan: lifespan_interface "lifespan_enter cl" for cl
proof unfold_locales
  show "safe (manager_rely i) (quiet i) (lifespan_enter cl c p)" for i c p
    unfolding lifespan_enter_def
    by (auto intro!: quiet.safe_bind quiet_establish_connection quiet_resubscribe quiet_commit_pending
        quiet.safe_Done split: sum.splits)
qed

section \<open>The operations of the client are safe\<close>

abbreviation client_safe :: "nat \<Rightarrow> ('z manager_scheme, 'a) coro \<Rightarrow> bool" where
  "client_safe i \<equiv> safe (manager_rely i) (manager_section i)"

lemma section_other_fields:
  assumes "manager_section i s s"
  shows "manager_section i s (s\<lparr>active_subscriptions := a\<rparr>)"
  using assms by (simp add: manager_section_def epoch_rel_def net_evolves_def transport_at_def)

lemma section_trans_fields:
  assumes "manager_section i s s"
  shows "manager_section i s (s\<lparr>active_transactions := ts\<rparr>)" "manager_section i s (s\<lparr>transactions := tr\<rparr>)"
    "manager_section i s (s\<lparr>dicts := d\<rparr>)"
  using assms by (simp_all add: manager_section_def epoch_rel_def net_evolves_def transport_at_def)

lemma section_client_fields:
  assumes "manager_section i s s"
  shows "manager_section i s (s\<lparr>handler_tasks := ht\<rparr>)" "manager_section i s (s\<lparr>handler_permits := hp\<rparr>)"
    "manager_section i s (s\<lparr>listen_done := b\<rparr>)" "manager_section i s (s\<lparr>last_message_received_time := t\<rparr>)"
    "manager_section i s (release_handler k s)"
  using assms
  by (simp_all add: manager_section_def epoch_rel_def net_evolves_def transport_at_def release_handler_def)

lemmas section_fields = section_other_fields section_trans_fields section_client_fields

lemma safe_log_message_id: "client_safe i (log_message_id level text h)"
  by (simp add: log_message_id_def mgr.safe_Done mgr.safe_logger split: option.splits)

lemma safe_ack: "client_safe i (ack sub h e)" and safe_nack: "client_safe i (nack sub h e)"
  unfolding ack_def nack_def
  by (auto intro!: mgr.safe_bind mgr.safe_get safe_log_message_id safe_maybe_write_frame mgr.safe_Done
      split: option.splits list.splits)

lemma safe_unsubscribe: "client_safe i (unsubscribe sub)"
  unfolding unsubscribe_def
  by (intro mgr.safe_bind mgr.safe_modify section_fields safe_maybe_write_frame mgr.safe_Done)

lemma safe_subscribe: "client_safe i (subscribe self (lifespan_enter cl) sub)"
  unfolding subscribe_def
  by (intro mgr.safe_bind lifespan.safe_write_reconnecting mgr.safe_modify section_fields)

lemma safe_transaction_id: "client_safe i (transaction_id t)"
  unfolding transaction_id_def by (rule mgr.safe_get)

lemma safe_write_send_frame: "client_safe i (write_send_frame_reconnecting self (lifespan_enter cl) sf)"
  unfolding write_send_frame_reconnecting_def write_send_frame_def
  by (intro lifespan.safe_write_attempts mgr.safe_bind mgr.safe_get mgr.net_intros)

lemma safe_build_send_frame: "client_safe i (build_send_frame b d tx ct acl h)"
  unfolding build_send_frame_def by (intro mgr.safe_Act section_fields mgr.safe_Done)

lemma safe_new_transaction: "client_safe i new_transaction"
  unfolding new_transaction_def
  by (intro mgr.safe_bind mgr.safe_uuid4 mgr.safe_Act section_fields mgr.safe_Done)

lemma safe_remove_active: "client_safe i (remove_active t)"
  unfolding remove_active_def
  by (auto intro!: mgr.safe_bind mgr.safe_get mgr.safe_modify section_fields mgr.safe_Done safe_transaction_id)

lemma safe_transaction:
  "client_safe i (transaction_aenter self (lifespan_enter cl) t)" "client_safe i (transaction_aexit t failed)"
  "client_safe i (transaction_send self (lifespan_enter cl) t b d ct acl h)"
  unfolding transaction_aenter_def transaction_aexit_def transaction_send_def append_sent_frame_def
  by (auto intro!: mgr.safe_bind mgr.safe_get mgr.safe_modify section_fields mgr.safe_Done
      safe_transaction_id lifespan.safe_write_reconnecting safe_maybe_write_frame safe_remove_active
      safe_build_send_frame safe_write_send_frame)

text \<open>User code that acts on the client through its operations only is safe.\<close>

definition well_behaved :: "'z client_scheme user_code \<Rightarrow> bool" where
  "well_behaved user \<longleftrightarrow>
     (\<forall>i n h b m e. client_safe i (uc_handler user n h b) \<and> client_safe i (uc_manual_handler user n m) \<and>
        client_safe i (uc_on_suppressed_exception user n e h b)) \<and>
     (\<forall>i f h b. uc_on_error_frame user = Some f \<longrightarrow> client_safe i (f h b))"

lemma safe_handler_task:
  assumes "well_behaved user"
  shows "client_safe i (handler_task user k task)"
proof -
  have "client_safe i (handler_coro user task)"
    using assms
    by (auto simp: handler_coro_def run_handler_def well_behaved_def intro!: mgr.safe_bind mgr.safe_attempt
        safe_ack safe_nack mgr.safe_Done split: subscription_kind.splits sum.splits)
  then show ?thesis
    unfolding handler_task_def run_handler_with_safety_net_def
    by (auto intro!: mgr.safe_finally mgr.safe_handle mgr.safe_Done mgr.safe_logger mgr.safe_modify section_fields)
qed

lemma safe_acquire_permit: "client_safe i acquire_permit"
  unfolding acquire_permit_def
  by (auto intro!: mgr.safe_bind mgr.safe_get mgr.safe_Done mgr.safe_await mgr.safe_modify section_fields
      split: option.splits)

lemma safe_dispatch_frame:
  assumes "well_behaved user"
  shows "client_safe i (dispatch_frame user f e)"
  using assms
  by (cases f) (auto simp: dispatch_frame_def header_item_def start_handler_def well_behaved_def
      intro!: mgr.safe_bind mgr.safe_Done mgr.safe_get mgr.safe_modify section_fields safe_acquire_permit
      split: option.splits)

lemma safe_listen_to_frames:
  "well_behaved user \<Longrightarrow> client_safe i (listen_to_frames self rounds user n)"
  unfolding listen_to_frames_def
  by (intro mgr.safe_finally lifespan.safe_read_frames_reconnecting safe_dispatch_frame mgr.safe_modify
      section_fields)

lemma safe_client_send: "client_safe i (client_send self rounds b d ct acl h)"
  unfolding client_send_def by (intro mgr.safe_bind safe_build_send_frame safe_write_send_frame)

lemma safe_client_subscribe: "client_safe i (client_subscribe self rounds d h mode kind)"
  unfolding client_subscribe_def Let_def
  by (intro mgr.safe_bind mgr.safe_uuid4 safe_subscribe mgr.safe_Done)

lemma safe_client_begin:
  "(\<And>t. client_safe i (body t)) \<Longrightarrow> client_safe i (client_begin self rounds body)"
  unfolding client_begin_def
  by (intro mgr.safe_bind safe_new_transaction safe_transaction mgr.safe_attempt mgr.safe_Done)

text \<open>
  The coroutines that run as tasks of a client, from the moment it is entered until it is left:
  the listening task, the background tasks of the manager, abandoned connection attempts, the
  handlers, and the user's own tasks, which call the operations in any order with any arguments
  (a user's task is any coroutine that is safe, in particular any of these calls).
\<close>

inductive_set client_tasks ::
  "Client \<Rightarrow> nat \<Rightarrow> 'z client_scheme user_code \<Rightarrow> ('z client_scheme, unit) coro set"
  for self :: Client and rounds :: nat and user :: "'z client_scheme user_code" where
  entering: "client_aenter self rounds \<in> client_tasks self rounds user"
| listening: "listen_to_frames self rounds user n \<in> client_tasks self rounds user"
| heartbeats: "send_heartbeats_forever (client_manager self) (client_enter self rounds) ms n
    \<in> client_tasks self rounds user"
| monitoring: "monitor_no_message_timeout t n \<in> client_tasks self rounds user"
| abandoned: "finish_abandoned (client_manager self) \<in> client_tasks self rounds user"
| handling: "handler_task user k task \<in> client_tasks self rounds user"
| sending: "client_send self rounds b d ct acl h \<in> client_tasks self rounds user"
| subscribing: "bind (client_subscribe self rounds d hs mode kind) (\<lambda>_. ret ()) \<in> client_tasks self rounds user"
| unsubscribing: "unsubscribe sub \<in> client_tasks self rounds user"
| acking: "ackable_ack m \<in> client_tasks self rounds user"
| nacking: "ackable_nack m \<in> client_tasks self rounds user"
| transacting: "(\<And>t. \<exists>sends. body t = for_each (\<lambda>(b, d, ct, acl, h).
        transaction_send (client_manager self) (client_enter self rounds) t b d ct acl h) sends) \<Longrightarrow>
    client_begin self rounds body \<in> client_tasks self rounds user"

lemma client_tasks_safe:
  assumes "well_behaved user" and "m \<in> client_tasks self rounds user"
  shows "client_safe i m"
  using assms(2)
proof cases
  case entering
  then show ?thesis
    unfolding client_aenter_def
    by (auto intro!: mgr.safe_bind lifespan.safe_manager_aenter mgr.safe_modify section_fields)
next
  case (transacting body)
  have "client_safe i (body t)" for t
    using transacting(2) [of t]
    by (auto intro!: mgr.safe_for_each safe_transaction split: prod.splits)
  with transacting(1) show ?thesis by (simp add: safe_client_begin)
qed (use assms(1) in \<open>simp_all add: safe_listen_to_frames lifespan.safe_send_heartbeats_forever safe_monitor
    safe_finish_abandoned safe_handler_task safe_client_send safe_client_subscribe safe_unsubscribe
    mgr.safe_bind mgr.safe_Done ackable_ack_def ackable_nack_def safe_ack safe_nack\<close>)

section \<open>Acknowledgements\<close>

text \<open>Steps that send nothing on any connection but \<open>c\<close>.\<close>

definition sends_only_on :: "nat \<Rightarrow> 'z net_scheme \<Rightarrow> 'z net_scheme \<Rightarrow> bool" where
  "sends_only_on c s s' \<longleftrightarrow>
     (\<forall>d. d \<noteq> c \<longrightarrow> t_out (transport_at s' d) = t_out (transport_at s d))"

interpretation sends_only_on: connection_guarantee "\<lambda>_ _. True" "sends_only_on c" c for c
  by unfold_locales (auto simp: sends_only_on_def)

lemma sends_only_on_state:
  "n_transports s' = n_transports s \<Longrightarrow> sends_only_on c s s'"
  by (simp add: sends_only_on_def transport_at_def)

lemma sends_only_on_logger: "safe (\<lambda>_ _. True) (sends_only_on c) (logger level text)"
  unfolding logger_def by (rule sends_only_on.safe_modify) (simp add: sends_only_on_state)

lemma sends_only_on_discard:
  "safe (\<lambda>_ _. True) (sends_only_on (acs_connection st)) (discard_failed_connection_state st r)"
  unfolding discard_failed_connection_state_def
  by (auto intro!: sends_only_on.safe_bind sends_only_on.safe_get sends_only_on.safe_Done
      sends_only_on_logger sends_only_on.safe_modify sends_only_on_state
      safe_methods [OF sends_only_on.connection_guarantee_axioms])

lemma sends_only_on_log_dropped: "safe (\<lambda>_ _. True) (sends_only_on c) (log_dropped_frame f reason)"
  unfolding log_dropped_frame_def by (cases f) (simp_all add: sends_only_on_logger)

lemma sends_only_on_log_message_id: "safe (\<lambda>_ _. True) (sends_only_on c) (log_message_id level text h)"
  by (simp add: log_message_id_def sends_only_on.safe_Done sends_only_on_logger split: option.splits)

text \<open>The message was received in epoch \<open>e\<close> on the connection of \<open>st\<close>: as long as the epoch lasts,
  that connection is the active one.\<close>

definition received_on :: "ActiveConnectionState \<Rightarrow> nat \<Rightarrow> 'z manager_scheme \<Rightarrow> bool" where
  "received_on st e s \<longleftrightarrow>
     e \<le> reconnection_count s \<and> (reconnection_count s = e \<longrightarrow> active_connection_state s = Some st)"

lemma received_on_later: "received_on st e s \<Longrightarrow> epoch_rel s s' \<Longrightarrow> received_on st e s'"
  by (auto simp: received_on_def epoch_rel_def)

lemma rg_maybe_write_frame:
  assumes "active_connection_state s = Some st" and "sends_only_on (acs_connection st) s0 s"
  shows "rg (\<lambda>_ _. True) (sends_only_on (acs_connection st)) (maybe_write_frame f)
     (\<lambda>_. sends_only_on (acs_connection st)) s0 s"
proof -
  have "safe (\<lambda>_ _. True) (sends_only_on (acs_connection st))
      (except_lost (seq (write_frame (acs_connection st) f) (ret True))
             (\<lambda>error.
               seq (log_dropped_frame f ''connection lost mid-write'')
                 (seq (discard_failed_connection_state st error) (ret False))))"
    by (intro sends_only_on.safe_except_lost sends_only_on.safe_bind sends_only_on.safe_Done
        safe_methods [OF sends_only_on.connection_guarantee_axioms] sends_only_on_log_dropped
        sends_only_on_discard)
  from safeD [OF this assms(2)] show ?thesis
    using assms(1) by (simp add: maybe_write_frame_def rg_get rg_bind)
qed

lemma rg_acknowledge:
  fixes s0 s :: "'z subs_scheme"
  assumes "received_on st e s" and "sends_only_on (acs_connection st) s0 s"
  shows "rg (\<lambda>_ _. True) (sends_only_on (acs_connection st)) (ack sub h e)
           (\<lambda>_. sends_only_on (acs_connection st)) s0 s"
    and "rg (\<lambda>_ _. True) (sends_only_on (acs_connection st)) (nack sub h e)
           (\<lambda>_. sends_only_on (acs_connection st)) s0 s"
proof -
  let ?G = "sends_only_on (acs_connection st)"
  have log: "rg (\<lambda>_ _. True) ?G (log_message_id level msg h) (\<lambda>_. ?G) s0 s" for level msg
    by (rule safeD [OF sends_only_on_log_message_id assms(2)])
  have written: "rg (\<lambda>_ _. True) ?G (bind (maybe_write_frame f) (\<lambda>_. ret ())) (\<lambda>_. ?G) s0 s"
    if "reconnection_count s = e" for f
    unfolding rg_bind using assms that
    by (intro rg_mono [OF rg_maybe_write_frame]) (auto simp: received_on_def split: sum.splits)
  show "rg (\<lambda>_ _. True) ?G (ack sub h e) (\<lambda>_. ?G) s0 s"
    "rg (\<lambda>_ _. True) ?G (nack sub h e) (\<lambda>_. ?G) s0 s"
    unfolding ack_def nack_def
    using log written by (simp_all add: rg_bind rg_get split: option.splits list.splits)
qed

text \<open>Every run of a client's tasks is within the epoch relation.\<close>

lemma client_runs:
  assumes "well_behaved user"
    and "(pool_step resume_task (client_tasks self rounds user) time_passes)\<^sup>*\<^sup>* (s0, []) (s1, ts1)"
    and "(pool_step resume_task (client_tasks self rounds user) time_passes)\<^sup>*\<^sup>* (s1, ts1) (s2, ts2)"
  shows "epoch_rel s1 s2"
proof -
  have safe: "client_safe i m" if "m \<in> client_tasks self rounds user" for i m
    using client_tasks_safe [OF assms(1) that] .
  from manager_pool.pool_run [OF assms(2) manager_pool.pool_ok_empty safe]
  have "manager_pool.pool_ok s1 ts1" by blast
  from manager_pool.pool_run [OF assms(3) this safe] show ?thesis by blast
qed

section \<open>A concrete client\<close>

lemmas registry_evals = add_def contains_by_id_def ActiveSubscriptions_init_def

definition sample_sub :: subscription where
  "sample_sub = \<lparr>sub_id = lit ''s'', sub_destination = lit ''q'', sub_headers = None,
     sub_ack = ClientIndividual, sub_kind = ManualAckSubscription 0\<rparr>"

definition sample_parameters :: ConnectionParameters where
  "sample_parameters = new_parameters (lit ''h'', 1) (lit ''u'', lit ''p'')"

definition sample_state :: ActiveConnectionState where
  "sample_state = \<lparr>acs_connection = 0, acs_parameters = sample_parameters,
     acs_server_heartbeat = \<lparr>will_send_interval_ms = 1000, want_to_receive_interval_ms = 1000\<rparr>,
     acs_connected_at = 0\<rparr>"

definition sample_client :: "peer \<Rightarrow> client" where
  "sample_client p =
     \<lparr>n_time = 0, n_rounds = [], n_transports = [new_transport Connection (Uri []) None 1024 p],
      n_lists = [], n_log = [], n_uuid = str_nat, n_uuid_count = 0, n_current = 0,
      active_connection_state = Some sample_state, reconnect_lock = None,
      m_tasks = [(SleepZero, False)], send_heartbeat_task = 0, monitor_no_message_task = None,
      reconnection_count = 0, last_message_received_time = 0, m_abandoned = [],
      active_subscriptions = add sample_sub ActiveSubscriptions_init,
      dicts = [], transactions = [], active_transactions = [],
      handler_permits = Some 100, handler_tasks = [], listen_done = False\<rparr>"

definition idle_user :: "'z client_scheme user_code" where
  "idle_user =
     \<lparr>uc_handler = (\<lambda>_ _ _. ret ()), uc_manual_handler = (\<lambda>_ _. ret ()),
      uc_on_suppressed_exception = (\<lambda>_ _ _ _. ret ()), uc_on_error_frame = None\<rparr>"

lemma idle_user_well_behaved: "well_behaved idle_user"
  by (simp add: well_behaved_def idle_user_def mgr.safe_Done)

section \<open>Properties\<close>





end
