(* ===== verification/Lifespan_Laws.thy ===== *)
theory Lifespan_Laws
  imports Client_Safety
begin

text \<open>
  What happens on a new connection: the handshake with all its outcomes, and the replay of
  subscriptions and transactions.
\<close>

section \<open>Writing on an undisturbed connection\<close>

definition writable :: "nat \<Rightarrow> 'z net_scheme \<Rightarrow> bool" where
  "writable c s \<longleftrightarrow>
     c < length (n_transports s) \<and> t_open (transport_at s c) \<and> t_writes (transport_at s c) = []"

definition sent :: "nat \<Rightarrow> frame list \<Rightarrow> 'z net_scheme \<Rightarrow> 'z net_scheme" where
  "sent c fs s = upd_transport c (\<lambda>t. t\<lparr>t_out := t_out t @ map wire fs\<rparr>) s"

definition encodes :: "frame \<Rightarrow> bool" where
  "encodes f \<longleftrightarrow> dump_frame f = Inr (wire f)"

lemma sent_Nil [simp]: "sent c [] s = s"
  by (simp add: sent_def upd_transport_id)

lemma sent_sent [simp]: "sent c gs (sent c fs s) = sent c (fs @ gs) s"
  by (simp add: sent_def comp_def)

lemma writable_sent [simp]: "writable c (sent c fs s) \<longleftrightarrow> writable c s"
  by (simp add: writable_def sent_def)

lemma transport_at_sent:
  "c < length (n_transports s) \<Longrightarrow> transport_at (sent c fs s) c =
     (transport_at s c)\<lparr>t_out := t_out (transport_at s c) @ map wire fs\<rparr>"
  by (simp add: sent_def)

lemma sent_subs_fields [simp]: "active_subscriptions (sent c fs s) = active_subscriptions s"
  by (simp add: sent_def upd_transport_def)

lemma sent_fields [simp]:
  "n_lists (sent c fs s) = n_lists s" "n_time (sent c fs s) = n_time s"
  by (simp_all add: sent_def upd_transport_def)

lemma sent_trans_fields [simp]:
  "active_transactions (sent c fs s) = active_transactions s"
  "transactions (sent c fs s) = transactions s" "dicts (sent c fs s) = dicts s"
  "transaction_at (sent c fs s) t = transaction_at s t"
  by (simp_all add: sent_def upd_transport_def transaction_at_def)

lemma run_write_frame:
  assumes "encodes f" "writable c s"
  shows "run (write_frame c f) s = (Some (Inr ()), sent c [f] s)"
proof -
  have "run (write_frame c f) s = (Some (Inr ()), upd_transport c (accept_bytes (wire f)) s)"
    using assms by (intro any.write_frame_sends) (simp_all add: encodes_def writable_def)
  moreover have "upd_transport c (accept_bytes (wire f)) s = sent c [f] s"
    unfolding sent_def
    by (rule upd_transport_cong) (use assms in \<open>simp add: accept_bytes_def next_write_def writable_def\<close>)
  ultimately show ?thesis by simp
qed

lemma run_write_frames:
  assumes "\<forall>x \<in> set xs. encodes (f x)" "writable c s"
  shows "run (for_each (\<lambda>x. write_frame c (f x)) xs) s = (Some (Inr ()), sent c (map f xs) s)"
  using assms by (induction xs arbitrary: s) (simp_all add: run_simps run_write_frame)

section \<open>Replaying\<close>

lemma run_resubscribe:
  assumes "\<forall>sub \<in> set (get_all (active_subscriptions s)). encodes (subscribe_frame sub)" "writable c s"
  shows "run (resubscribe_to_active_subscriptions c) s =
     (Some (Inr ()), sent c (map subscribe_frame (get_all (active_subscriptions s))) s)"
  using assms by (simp add: resubscribe_to_active_subscriptions_def run_simps run_write_frames)

text \<open>The frames of a transaction as they are in the given state, and its \<open>COMMIT\<close>.\<close>

definition replay_frames :: "'z trans_scheme \<Rightarrow> nat \<Rightarrow> frame list" where
  "replay_frames s t =
     map (send_frame_of (dicts s)) (tr_sent_frames (transaction_at s t)) @
     [CommitFrame [(lit ''transaction'', tr_id (transaction_at s t))]]"

lemma replay_frames_sent [simp]: "replay_frames (sent c fs s) = replay_frames s"
  by (simp add: replay_frames_def fun_eq_iff)

lemma run_write_sent_frames:
  assumes "\<forall>sf \<in> set (tr_sent_frames (transaction_at s t)). encodes (send_frame_of (dicts s) sf)"
    and "writable c s" "length (tr_sent_frames (transaction_at s t)) - k < n"
  shows "run (write_sent_frames n k c t) s =
     (Some (Inr ()), sent c (map (send_frame_of (dicts s)) (drop k (tr_sent_frames (transaction_at s t)))) s)"
  using assms
proof (induction n arbitrary: k s)
  case (Suc n)
  let ?fs = "tr_sent_frames (transaction_at s t)"
  show ?case
  proof (cases "k < length ?fs")
    case True
    then have "run (write_send_frame c (?fs ! k)) s = (Some (Inr ()), sent c [send_frame_of (dicts s) (?fs ! k)] s)"
      using Suc.prems by (simp add: write_send_frame_def run_simps run_write_frame)
    with True Suc show ?thesis
      by (simp add: run_simps Cons_nth_drop_Suc [symmetric])
  qed (use Suc.prems in \<open>simp add: run_simps\<close>)
qed simp

lemma run_commit_each:
  assumes "\<forall>t \<in> set ts. list_all encodes (replay_frames s t) \<and> length (replay_frames s t) \<le> n"
    and "writable c s" "length (active_transactions s) = m"
  shows "run (commit_each n m c ts) s = (Some (Inr ()), sent c (concat (map (replay_frames s) ts)) s)"
  using assms
proof (induction ts arbitrary: s)
  case Nil
  then show ?case by (simp add: check_set_size_def run_simps)
next
  case (Cons t ts)
  let ?fs = "map (send_frame_of (dicts s)) (tr_sent_frames (transaction_at s t))"
  have enc: "\<forall>sf \<in> set (tr_sent_frames (transaction_at s t)). encodes (send_frame_of (dicts s) sf)"
    using Cons.prems(1) by (auto simp: replay_frames_def list_all_iff)
  have "run (write_sent_frames n 0 c t) s = (Some (Inr ()), sent c ?fs s)"
    using run_write_sent_frames [OF enc, where c = c and n = n and k = 0] Cons.prems by (simp add: replay_frames_def)
  then show ?case
    using Cons.prems Cons.IH [of "sent c (replay_frames s t) s"]
    by (simp add: run_simps check_set_size_def transaction_id_def run_write_frame)
      (simp add: replay_frames_def run_simps run_write_frame)
qed

lemma run_commit_pending:
  assumes "\<forall>t \<in> set (active_transactions s). list_all encodes (replay_frames s t) \<and> length (replay_frames s t) \<le> n"
    and "writable c s"
  shows "run (commit_pending_transactions n c) s =
     (Some (Inr ()), (sent c (concat (map (replay_frames s) (active_transactions s))) s)
        \<lparr>active_transactions := []\<rparr>)"
  using run_commit_each [OF assms refl] by (simp add: commit_pending_transactions_def run_simps)

section \<open>The handshake\<close>

definition not_connected :: "frame \<Rightarrow> bool" where
  "not_connected f \<longleftrightarrow> type_of f \<noteq> TConnected"

lemma run_take_connected:
  "run (take_connected_frame l f) s =
     (case f of
        ConnectedFrame h \<Rightarrow> (Some (Inr (Some h)), s)
      | _ \<Rightarrow> (Some (Inr None), s\<lparr>n_lists := (n_lists s)[l := n_lists s ! l @ [f]]\<rparr>))"
  by (cases f) (simp_all add: take_connected_frame_def list_append_def run_simps)

lemma run_deliver_skip:
  assumes "list_all not_connected fs" "l < length (n_lists s)"
  shows "run (deliver (take_connected_frame l) (fs @ gs)) s =
     run (deliver (take_connected_frame l) gs) (s\<lparr>n_lists := (n_lists s)[l := n_lists s ! l @ fs]\<rparr>)"
  using assms
proof (induction fs arbitrary: s)
  case (Cons f fs)
  have "run (take_connected_frame l f) s =
      (Some (Inr None), s\<lparr>n_lists := (n_lists s)[l := n_lists s ! l @ [f]]\<rparr>)"
    using Cons.prems(1) by (cases f) (simp_all add: run_take_connected not_connected_def)
  with Cons show ?case by (simp add: run_simps)
qed simp

lemma only_collects_take_connected:
  "\<forall>f \<in> F. not_connected f \<Longrightarrow> only_collects l F (take_connected_frame l)"
  unfolding only_collects_def
  using run_deliver_skip [where gs = "[]"] by (fastforce simp: list_all_iff)

lemma same_but_net_fields:
  fixes s s' :: "'z trans_scheme"
  assumes "same_but_net s s'"
  shows "active_subscriptions s' = active_subscriptions s" "n_time s' = n_time s"
    "active_transactions s' = active_transactions s" "transactions s' = transactions s" "dicts s' = dicts s"
proof -
  obtain x y where "s' = s\<lparr>n_transports := x, n_lists := y\<rparr>"
    using assms unfolding same_but_net_def by blast
  then show "active_subscriptions s' = active_subscriptions s" "n_time s' = n_time s"
    "active_transactions s' = active_transactions s" "transactions s' = transactions s" "dicts s' = dicts s"
    by simp_all
qed

text \<open>
  The server answers on connection \<open>c\<close>: in the bytes to come, however they are cut, the frames
  \<open>collected\<close> are followed by a \<open>CONNECTED\<close> frame with headers \<open>h\<close>; \<open>rest\<close> are the read events
  after the chunk in which it is completed.
\<close>

definition answers :: "nat \<Rightarrow> 'z net_scheme \<Rightarrow> frame list \<Rightarrow> headers \<Rightarrow> read_event list \<Rightarrow> bool" where
  "answers c s collected h rest \<longleftrightarrow>
     (\<exists>chunks chunk fs p pre post.
        t_in (transport_at s c) = map Chunk chunks @ Chunk chunk # rest \<and>
        [] \<notin> set chunks \<and> chunk \<noteq> [] \<and>
        feed parse_byte FrameParser_init (concat chunks) = (fs, Inr p) \<and>
        fst (feed parse_byte p chunk) = pre @ ConnectedFrame h # post \<and>
        list_all not_connected (fs @ pre) \<and> collected = fs @ pre)"

lemma read_frames_class:
  "run (read_frames c body) s =
     run (read_frames_loop (case t_class (transport_at s c) of Connection \<Rightarrow> Connection_read c
            | WebSocketConnection \<Rightarrow> WebSocketConnection_read c) c
        (Suc (length (t_in (transport_at s c)))) FrameParser_init body) s"
  by (simp add: read_frames_def Connection_read_frames_def WebSocketConnection_read_frames_def
      read_frames_with_def run_simps del: read_frames_loop.simps split: connection_class.splits)

lemma run_read_connected:
  assumes "answers c s collected h rest" "c < length (n_transports s)" "l < length (n_lists s)"
  shows "\<exists>s'. run (read_frames c (take_connected_frame l)) s = (Some (Inr h), s') \<and>
    n_lists s' = (n_lists s)[l := n_lists s ! l @ collected] \<and> same_but_net s s' \<and>
    length (n_transports s') = length (n_transports s) \<and>
    transport_at s' c = (transport_at s c)\<lparr>t_in := rest, t_last_read_time := Some (n_time s)\<rparr>"
proof -
  from assms(1) obtain chunks chunk fs p pre post where
    t_in: "t_in (transport_at s c) = map Chunk chunks @ Chunk chunk # rest" and
    ne: "[] \<notin> set chunks" "chunk \<noteq> []" and
    f1: "feed parse_byte FrameParser_init (concat chunks) = (fs, Inr p)" and
    f2: "fst (feed parse_byte p chunk) = pre @ ConnectedFrame h # post" and
    nc: "list_all not_connected fs" "list_all not_connected pre" and col: "collected = fs @ pre"
    unfolding answers_def by fastforce
  let ?read = "\<lambda>c. case t_class (transport_at s c) of
      Connection \<Rightarrow> Connection_read c | WebSocketConnection \<Rightarrow> WebSocketConnection_read c"
  let ?n = "length (t_in (transport_at s c))"
  let ?body = "take_connected_frame l"
  have oc: "only_collects l (set fs) ?body"
    using nc(1) by (intro only_collects_take_connected) (simp add: list_all_iff)
  obtain s1 where s1: "run (read_frames_loop (?read c) c (Suc ?n) FrameParser_init ?body) s =
        run (read_frames_loop (?read c) c (Suc ?n - length chunks) p ?body) s1"
      "n_lists s1 = (n_lists s)[l := n_lists s ! l @ fs]" "n_time s1 = n_time s"
      "length (n_transports s1) = length (n_transports s)" "same_but_net s s1"
      "transport_at s1 c = (transport_at s c)\<lparr>t_in := Chunk chunk # rest,
       t_last_read_time := (if chunks = [] then t_last_read_time (transport_at s c)
                            else Some (n_time s))\<rparr>"
    using stream.cls_read_chunks [OF f1 t_in ne(1) assms(2,3) _ oc, of "Suc ?n"]
      websocket.cls_read_chunks [OF f1 t_in ne(1) assms(2,3) _ oc, of "Suc ?n"] t_in
    by (cases "t_class (transport_at s c)") (auto simp del: read_frames_loop.simps)
  let ?s2 = "upd_transport c (\<lambda>t. t\<lparr>t_in := tl (t_in t)\<rparr>) s1"
  let ?s3 = "upd_transport c (\<lambda>t. t\<lparr>t_last_read_time := Some (n_time ?s2)\<rparr>) ?s2"
  let ?s4 = "?s3\<lparr>n_lists := (n_lists s1)[l := n_lists s1 ! l @ pre]\<rparr>"
  have "run (?read c) s1 = (Some (Inr chunk), ?s2)"
    using stream.read_chunk [of s1 c chunk rest] websocket.read_chunk [of s1 c chunk rest] s1(6) ne(2)
    by (cases "t_class (transport_at s c)") simp_all
  moreover have "run (deliver ?body (pre @ ConnectedFrame h # post)) ?s3 = (Some (Inr (Some h)), ?s4)"
    using run_deliver_skip [OF nc(2), of l ?s3 "ConnectedFrame h # post"] s1(2) assms(3)
    by (simp add: run_simps run_take_connected)
  moreover have "Suc ?n - length chunks = Suc (Suc (length rest))"
    using t_in by simp
  ultimately have "run (read_frames c ?body) s = (Some (Inr h), ?s4)"
    unfolding read_frames_class using s1(1) f2
    by (auto simp: run_simps parse_frames_from_chunk_def split: prod.splits)
  moreover have "same_but_net s ?s4"
    by (rule same_but_net_trans [OF s1(5)]) (simp add: same_but_net_def upd_transport_def)
  ultimately show ?thesis
    using s1 assms(2,3) col by (intro exI [of _ ?s4]) simp
qed

lemma answers_cong:
  "t_in (transport_at s' c) = t_in (transport_at s c) \<Longrightarrow>
   answers c s' collected h rest = answers c s collected h rest"
  by (simp add: answers_def)

lemma run_establish_connection:
  assumes "to_header (cl_client_heartbeat cl) = Inr heartbeat"
    and "encodes (ConnectFrame (connect_headers cl params heartbeat))"
    and "writable c s" "answers c s collected h rest"
  shows "\<exists>s'. run (establish_connection cl c params) s = run (check_connected cl h) s' \<and>
    same_but_net s s' \<and> writable c s' \<and> t_in (transport_at s' c) = rest \<and>
    t_out (transport_at s' c) =
      t_out (transport_at s c) @ [wire (ConnectFrame (connect_headers cl params heartbeat))]"
proof -
  let ?f = "ConnectFrame (connect_headers cl params heartbeat)"
  let ?s1 = "sent c [?f] s"
  let ?s2 = "?s1\<lparr>n_lists := n_lists s @ [[]]\<rparr>"
  let ?l = "length (n_lists s)"
  have c: "c < length (n_transports s)" using assms(3) by (simp add: writable_def)
  then have t2: "transport_at ?s2 c = (transport_at s c)\<lparr>t_out := t_out (transport_at s c) @ [wire ?f]\<rparr>"
    by (simp add: transport_at_sent)
  then have "answers c ?s2 collected h rest"
    using assms(4) answers_cong [of ?s2 c s] by simp
  from run_read_connected [OF this, of ?l] c obtain s3 where
    s3: "run (read_frames c (take_connected_frame ?l)) ?s2 = (Some (Inr h), s3)"
      "same_but_net ?s2 s3" "length (n_transports s3) = length (n_transports s)"
      "transport_at s3 c = (transport_at ?s2 c)\<lparr>t_in := rest, t_last_read_time := Some (n_time ?s2)\<rparr>"
    by (auto simp: sent_def)
  have "run (establish_connection cl c params) s = run (check_connected cl h) s3"
    using assms(1) run_write_frame [OF assms(2,3)] run_wait_for_completed [OF s3(1)]
    by (simp add: establish_connection_def call_def run_simps new_list_def)
  moreover have "same_but_net s s3"
    by (rule same_but_net_trans [OF _ s3(2)]) (simp add: same_but_net_def sent_def upd_transport_def)
  ultimately show ?thesis
    using s3 t2 assms(3) by (intro exI [of _ s3]) (simp add: writable_def)
qed

text \<open>The state after the heart-beat task was restarted.\<close>

definition heartbeats_restarted :: "Heartbeat \<Rightarrow> 'z manager_scheme \<Rightarrow> 'z manager_scheme" where
  "heartbeats_restarted hb s =
     (let i = send_heartbeat_task s in
      s\<lparr>m_tasks := (m_tasks s)[i := (fst (m_tasks s ! i), True)] @
           [(SendHeartbeatsForever (want_to_receive_interval_ms hb), False)],
        send_heartbeat_task := length (m_tasks s)\<rparr>)"

lemma run_restart_background_tasks [run_simps]:
  "run (restart_background_tasks hb) s = (Some (Inr ()), heartbeats_restarted hb s)"
  by (simp add: restart_background_tasks_def cancel_task_def create_task_def run_simps
      heartbeats_restarted_def Let_def)

lemma run_check_connected:
  "run (check_connected cl h) s =
     (case map_of h (lit ''version'') of
        None \<Rightarrow> (Some (Inl (Raised (KeyError (lit ''version'')))), s)
      | Some version \<Rightarrow>
          if version \<noteq> cl_protocol_version cl
          then (Some (Inr (Inr (UnsupportedProtocolVersion version (cl_protocol_version cl)))), s)
          else
            (case map_of h (lit ''heart-beat'') of
               None \<Rightarrow> (Some (Inl (Raised (KeyError (lit ''heart-beat'')))), s)
             | Some v \<Rightarrow>
                 (case from_header v of
                    Inl e \<Rightarrow> (Some (Inl (Raised e)), s)
                  | Inr hb \<Rightarrow> (Some (Inr (Inl hb)), heartbeats_restarted hb s))))"
  by (auto simp: check_connected_def header_item_def call_def run_simps split: option.splits sum.splits)

lemma heartbeats_restarted_fields [simp]:
  "transport_at (heartbeats_restarted hb s) c = transport_at s c"
  "writable c (heartbeats_restarted hb s) = writable c s"
  by (simp_all add: heartbeats_restarted_def Let_def transport_at_def writable_def)

lemma heartbeats_restarted_trans_fields [simp]:
  "active_subscriptions (heartbeats_restarted hb s) = active_subscriptions s"
  "active_transactions (heartbeats_restarted hb s') = active_transactions s'"
  "replay_frames (heartbeats_restarted hb s') = replay_frames s'"
  by (simp_all add: heartbeats_restarted_def Let_def replay_frames_def transaction_at_def fun_eq_iff)

text \<open>Entering, when the server answers as it should: the state in which it ends.\<close>

lemma run_lifespan_enter:
  assumes "to_header (cl_client_heartbeat cl) = Inr heartbeat"
    and "encodes (ConnectFrame (connect_headers cl params heartbeat))"
    and "writable c s" "answers c s collected h rest"
    and "map_of h (lit ''version'') = Some (cl_protocol_version cl)"
    and "map_of h (lit ''heart-beat'') = Some v" "from_header v = Inr hb"
    and "\<forall>sub \<in> set (get_all (active_subscriptions s)). encodes (subscribe_frame sub)"
    and "\<forall>t \<in> set (active_transactions s).
           list_all encodes (replay_frames s t) \<and> length (replay_frames s t) \<le> cl_rounds cl"
  shows "\<exists>s1. same_but_net s s1 \<and> writable c s1 \<and> t_in (transport_at s1 c) = rest \<and>
    t_out (transport_at s1 c) =
      t_out (transport_at s c) @ [wire (ConnectFrame (connect_headers cl params heartbeat))] \<and>
    run (lifespan_enter cl c params) s = (Some (Inr (Inl hb)),
      (sent c (map subscribe_frame (get_all (active_subscriptions s)) @
               concat (map (replay_frames s) (active_transactions s)))
         (heartbeats_restarted hb s1))\<lparr>active_transactions := []\<rparr>)"
proof -
  obtain s1 where s1: "run (establish_connection cl c params) s = run (check_connected cl h) s1"
      "same_but_net s s1" "writable c s1" "t_in (transport_at s1 c) = rest"
      "t_out (transport_at s1 c) =
        t_out (transport_at s c) @ [wire (ConnectFrame (connect_headers cl params heartbeat))]"
    using run_establish_connection [OF assms(1-4)] by blast
  note same = same_but_net_fields [OF s1(2)]
  have replay: "replay_frames s1 = replay_frames s"
    by (simp add: replay_frames_def transaction_at_def same fun_eq_iff)
  let ?subs = "map subscribe_frame (get_all (active_subscriptions s))"
  let ?txs = "concat (map (replay_frames s) (active_transactions s))"
  let ?s2 = "heartbeats_restarted hb s1"
  have "run (establish_connection cl c params) s = (Some (Inr (Inl hb)), ?s2)"
    using s1(1) assms(5-7) by (simp add: run_check_connected)
  moreover have "run (resubscribe_to_active_subscriptions c) ?s2 = (Some (Inr ()), sent c ?subs ?s2)"
    using run_resubscribe [of ?s2 c] assms(8) s1(3) by (simp add: same)
  moreover have "run (commit_pending_transactions (cl_rounds cl) c) (sent c ?subs ?s2) =
      (Some (Inr ()), (sent c ?txs (sent c ?subs ?s2))\<lparr>active_transactions := []\<rparr>)"
    using run_commit_pending [of "sent c ?subs ?s2" "cl_rounds cl" c] assms(9) s1(3) by (simp add: same replay)
  ultimately show ?thesis
    using s1(2-5) by (intro exI [of _ s1]) (simp add: lifespan_enter_def run_simps)
qed

section \<open>Frames that can be encoded\<close>

lemma encodes_iff: "encodes f \<longleftrightarrow> (\<exists>b. dump_frame f = Inr b)"
  by (auto simp: encodes_def wire_def)

lemma encodes_dumpable: "dumpable f \<Longrightarrow> encodes f"
  using feed_dump_frame [OF idle_init] by (auto simp: encodes_iff)

lemma dump_headers_total:
  "\<forall>(k, v) \<in> set h. \<exists>b. dump k v = Inr b \<Longrightarrow> \<exists>b. dump_headers dump h = Inr b"
  by (induction h) (auto split: sum.splits)

lemma header_line_total: "encodable k \<Longrightarrow> encodable v \<Longrightarrow> \<exists>b. header_line k v = Inr b"
proof -
  assume "encodable k" "encodable v"
  then have "encodable (k @ [of_char COLON] @ v @ [of_char NEWLINE])"
    by (auto simp: encodable_def encodable_char_def surrogate_def byte_defs)
  then show ?thesis by (simp add: header_line_def encode_utf8_bytes del: append_Cons)
qed

lemma encodes_encodable:
  assumes "headers_of f = Some h" "\<forall>(k, v) \<in> set h. encodable k \<and> encodable v"
  shows "encodes f"
proof -
  let ?dump = "if type_of f = TConnect then header_line else dump_header"
  have "\<exists>b. ?dump k v = Inr b" if "(k, v) \<in> set h" for k v
    using that assms(2) by (auto simp: dump_header_def intro!: header_line_total encodable_escape)
  then have "\<exists>b. dump_headers ?dump (sort h) = Inr b"
    by (intro dump_headers_total) auto
  moreover obtain c where "map_of FRAMES_TO_COMMANDS (type_of f) = Some c"
    using assms(1) by (cases f) (simp_all add: FRAMES_TO_COMMANDS_def COMMANDS_TO_FRAMES_def)
  ultimately show ?thesis using assms(1) by (auto simp: encodes_iff dump_frame_def)
qed

lemma encodes_connect:
  "\<forall>(k, v) \<in> set h. encodable k \<and> encodable v \<Longrightarrow> encodes (ConnectFrame h)"
  by (rule encodes_encodable) simp_all

lemma answers_first:
  assumes "t_in (transport_at s c) = Chunk (wire (ConnectedFrame h)) # rest" "dumpable (ConnectedFrame h)" "sort h = h"
  shows "answers c s [] h rest"
proof -
  have sf: "sorted_frame (ConnectedFrame h) = ConnectedFrame h"
    using assms(3) by (simp add: sorted_frame_def)
  then obtain p where "feed parse_byte FrameParser_init (wire (ConnectedFrame h)) = ([ConnectedFrame h], Inr p)"
    using feed_wire [OF idle_init, of "ConnectedFrame h"] assms(2) by auto
  moreover from this have "wire (ConnectedFrame h) \<noteq> []" by auto
  ultimately show ?thesis
    unfolding answers_def using assms(1)
    by (intro exI [of _ "[]"] exI [of _ "wire (ConnectedFrame h)"] exI [of _ FrameParser_init]) auto
qed

definition sample_connected :: headers where
  "sample_connected = [(lit ''heart-beat'', lit ''1,2''), (lit ''version'', lit ''1.2'')]"

lemma sample_connected_sorted: "sort sample_connected = sample_connected"
  by (simp add: sample_connected_def lit_def)

lemma sample_connected_dumpable: "dumpable (ConnectedFrame sample_connected)"
  by (simp add: dumpable_def delimited_def sample_connected_sorted) (simp add: sample_connected_def
      announce_def clean_evals is_content_length_def ascii_lower_def)

lemma sample_parameters_fields:
  "cp_host sample_parameters = lit ''h''" "cp_login sample_parameters = lit ''u''"
  "unescaped_passcode sample_parameters = lit ''p''" "cp_connect_headers sample_parameters = []"
  by (simp_all add: sample_parameters_def new_parameters_def) code_simp

lemma sample_connect:
  fixes cl defines "cl \<equiv> client_lifespan (Client_defaults [sample_parameters]) 5"
  shows "to_header (cl_client_heartbeat cl) = Inr (lit ''1000,1000'')"
    "encodes (ConnectFrame (connect_headers cl sample_parameters (lit ''1000,1000'')))"
proof -
  show "to_header (cl_client_heartbeat cl) = Inr (lit ''1000,1000'')"
    by (simp add: cl_def client_lifespan_def Client_defaults_def to_header_def str_int_def
        str_nat.simps max_str_digits_def lit_def)
  show "encodes (ConnectFrame (connect_headers cl sample_parameters (lit ''1000,1000'')))"
    by (rule encodes_connect)
      (simp add: cl_def connect_headers_def sample_parameters_fields client_lifespan_def
        PROTOCOL_VERSION_def clean_evals)
qed

lemma sample_writable: "writable 0 (sample_client (quiet_peer\<lparr>peer_reads := es\<rparr>))"
  by (simp add: writable_def sample_client_def sample_simps)

lemma sample_connected_fields:
  "map_of sample_connected (lit ''version'') = Some PROTOCOL_VERSION"
  "map_of sample_connected (lit ''heart-beat'') = Some (lit ''1,2'')"
  "from_header (lit ''1,2'') = Inr \<lparr>will_send_interval_ms = 1, want_to_receive_interval_ms = 2\<rparr>"
proof -
  show "from_header (lit ''1,2'') = Inr \<lparr>will_send_interval_ms = 1, want_to_receive_interval_ms = 2\<rparr>"
    by (rule from_header_to_header)
      (simp add: to_header_def str_int_def str_nat.simps max_str_digits_def lit_def)
qed (simp_all add: sample_connected_def PROTOCOL_VERSION_def)

lemma sample_sub_encodes: "encodes (subscribe_frame sample_sub)"
  by (rule encodes_dumpable)
    (simp add: subscribe_frame_def SubscribeFrame_build_def sample_sub_def dumpable_def delimited_def
      announce_def clean_evals is_content_length_def ascii_lower_def)

section \<open>Properties\<close>

text \<open>C4. Entering a connection on which the server answers with the supported version and a
  heart-beat header: the bytes written are exactly \<open>CONNECT\<close>, then one \<open>SUBSCRIBE\<close> per active
  subscription in the order of the registry, then for every active transaction its frames in
  the order in which they were sent and its \<open>COMMIT\<close>; the set of active transactions is empty
  afterwards, the subscriptions are kept, and the heart-beat task is replaced by one with the
  interval that the server wants.\<close>

theorem enter_replays:
  assumes "to_header (cl_client_heartbeat cl) = Inr heartbeat"
    and "encodes (ConnectFrame (connect_headers cl params heartbeat))"
    and "writable c s" "answers c s collected h rest"
    and "map_of h (lit ''version'') = Some (cl_protocol_version cl)"
    and "map_of h (lit ''heart-beat'') = Some v" "from_header v = Inr hb"
    and "\<forall>sub \<in> set (get_all (active_subscriptions s)). encodes (subscribe_frame sub)"
    and "\<forall>t \<in> set (active_transactions s).
           list_all encodes (replay_frames s t) \<and> length (replay_frames s t) \<le> cl_rounds cl"
  shows "\<exists>s'. run (lifespan_enter cl c params) s = (Some (Inr (Inl hb)), s') \<and>
    t_out (transport_at s' c) = t_out (transport_at s c) @
      map wire (ConnectFrame (connect_headers cl params heartbeat) #
                map subscribe_frame (get_all (active_subscriptions s)) @
                concat (map (replay_frames s) (active_transactions s))) \<and>
    active_transactions s' = [] \<and> active_subscriptions s' = active_subscriptions s \<and>
    m_tasks s' ! send_heartbeat_task s' =
      (SendHeartbeatsForever (want_to_receive_interval_ms hb), False) \<and>
    t_in (transport_at s' c) = rest"
proof -
  let ?fs = "map subscribe_frame (get_all (active_subscriptions s)) @ concat (map (replay_frames s) (active_transactions s))"
  obtain s1 where s1: "same_but_net s s1" "writable c s1" "t_in (transport_at s1 c) = rest"
      "t_out (transport_at s1 c) =
        t_out (transport_at s c) @ [wire (ConnectFrame (connect_headers cl params heartbeat))]"
    and enter: "run (lifespan_enter cl c params) s = (Some (Inr (Inl hb)),
      (sent c ?fs (heartbeats_restarted hb s1))\<lparr>active_transactions := []\<rparr>)"
    using run_lifespan_enter [OF assms] by blast
  let ?s' = "(sent c ?fs (heartbeats_restarted hb s1))\<lparr>active_transactions := []\<rparr>"
  have "transport_at ?s' c = (transport_at s1 c)\<lparr>t_out := t_out (transport_at s1 c) @ map wire ?fs\<rparr>"
    using s1(2) by (simp add: transport_at_def sent_def upd_transport_def writable_def
        heartbeats_restarted_def Let_def)
  moreover have "m_tasks ?s' ! send_heartbeat_task ?s' =
      (SendHeartbeatsForever (want_to_receive_interval_ms hb), False)"
    by (simp add: heartbeats_restarted_def Let_def sent_def upd_transport_def nth_append)
  ultimately show ?thesis
    using s1(3,4) enter same_but_net_fields(1) [OF s1(1)] by (intro exI [of _ ?s']) simp
qed

theorem enter_replays_witness:
  "let cl = client_lifespan (Client_defaults [sample_parameters]) 5;
       s = sample_client (quiet_peer\<lparr>peer_reads := [Chunk (wire (ConnectedFrame sample_connected))]\<rparr>);
       f = ConnectFrame (connect_headers cl sample_parameters (lit ''1000,1000'')) in
   \<exists>s'. run (lifespan_enter cl 0 sample_parameters) s =
     (Some (Inr (Inl \<lparr>will_send_interval_ms = 1, want_to_receive_interval_ms = 2\<rparr>)), s') \<and>
     t_out (transport_at s' 0) = map wire [f, subscribe_frame sample_sub]"
proof -
  let ?cl = "client_lifespan (Client_defaults [sample_parameters]) 5"
  let ?s = "sample_client (quiet_peer\<lparr>peer_reads := [Chunk (wire (ConnectedFrame sample_connected))]\<rparr>)"
  have 4: "answers 0 ?s [] sample_connected []"
    by (rule answers_first) (simp_all add: sample_client_def sample_simps sample_connected_dumpable
        sample_connected_sorted)
  have 5: "map_of sample_connected (lit ''version'') = Some (cl_protocol_version ?cl)"
    by (simp add: sample_connected_fields client_lifespan_def)
  have 8: "get_all (active_subscriptions ?s) = [sample_sub]" "active_transactions ?s = []"
      "t_out (transport_at ?s 0) = []"
    by (simp_all add: sample_client_def registry_evals get_all_def sample_simps)
  from enter_replays [OF sample_connect sample_writable 4 5 sample_connected_fields(2,3)] show ?thesis
    unfolding Let_def by (simp add: 8 sample_sub_encodes) blast
qed

end
