(* ===== verification/Handshake_Laws.thy ===== *)
theory Handshake_Laws
  imports Lifespan_Laws
begin

text \<open>
  Handshakes that do not succeed: a server that answers with headers the client does not accept,
  and one that does not answer in time.
\<close>

section \<open>Refused handshakes\<close>

text \<open>What the headers of the \<open>CONNECTED\<close> frame decide.\<close>

definition handshake_verdict ::
  "ConnectionLifespan \<Rightarrow> headers \<Rightarrow> exn + (Heartbeat + connection_issue)" where
  "handshake_verdict cl h =
     (case map_of h (lit ''version'') of
        None \<Rightarrow> Inl (Raised (KeyError (lit ''version'')))
      | Some version \<Rightarrow>
          if version \<noteq> cl_protocol_version cl
          then Inr (Inr (UnsupportedProtocolVersion version (cl_protocol_version cl)))
          else
            (case map_of h (lit ''heart-beat'') of
               None \<Rightarrow> Inl (Raised (KeyError (lit ''heart-beat'')))
             | Some v \<Rightarrow>
                 (case from_header v of Inl e \<Rightarrow> Inl (Raised e) | Inr hb \<Rightarrow> Inr (Inl hb))))"

definition accepted :: "exn + (Heartbeat + connection_issue) \<Rightarrow> bool" where
  "accepted r \<longleftrightarrow> (case r of Inr (Inl _) \<Rightarrow> True | _ \<Rightarrow> False)"

lemma run_check_connected_refused:
  "\<not> accepted (handshake_verdict cl h) \<Longrightarrow>
   run (check_connected cl h) s = (Some (handshake_verdict cl h), s)"
  by (auto simp: run_check_connected handshake_verdict_def accepted_def
      split: option.splits sum.splits)

text \<open>Nothing of the client's state outside the network has changed, and all that was written on
  the connection is the \<open>CONNECT\<close> frame.\<close>

definition only_connect_sent :: "nat \<Rightarrow> frame \<Rightarrow> 'z trans_scheme \<Rightarrow> 'z trans_scheme \<Rightarrow> bool" where
  "only_connect_sent c f s s' \<longleftrightarrow>
     t_out (transport_at s' c) = t_out (transport_at s c) @ [wire f] \<and>
     active_subscriptions s' = active_subscriptions s \<and>
     active_transactions s' = active_transactions s \<and> transactions s' = transactions s \<and>
     m_tasks s' = m_tasks s \<and> send_heartbeat_task s' = send_heartbeat_task s"

lemma only_connect_sentI:
  assumes "same_but_net s s'" "t_out (transport_at s' c) = t_out (transport_at s c) @ [wire f]"
  shows "only_connect_sent c f s s'"
proof -
  obtain x y where "s' = s\<lparr>n_transports := x, n_lists := y\<rparr>"
    using assms(1) unfolding same_but_net_def by blast
  with assms(2) show ?thesis by (simp add: only_connect_sent_def)
qed

lemma lifespan_enter_refused:
  assumes "run (establish_connection cl c params) s = (Some r, s')" "\<not> accepted r"
  shows "run (lifespan_enter cl c params) s = (Some r, s')"
  using assms by (auto simp: lifespan_enter_def run_simps accepted_def split: sum.splits)

section \<open>A handshake that takes too long\<close>

lemma cancellable_deliver: "(\<And>f. cancellable (body f)) \<Longrightarrow> cancellable (deliver body fs)"
  by (induction fs) (auto intro!: cancellable_intros split: option.splits)

lemma cancellable_read_frames_loop:
  assumes "cancellable r" "\<And>f. cancellable (body f)"
  shows "cancellable (read_frames_loop r c n p body)"
  by (induction n arbitrary: p)
    (auto intro!: assms cancellable_intros cancellable_deliver split: prod.splits option.splits sum.splits)

lemma cancellable_reraise: "cancellable m \<Longrightarrow> cancellable (reraise_connection_lost causes m)"
  unfolding reraise_connection_lost_def
  by (intro cancellable_handle) (auto simp: isinstance_any_def list_ex_iff split: exn.splits elim!: isinstance.elims)

lemma cancellable_read_event: "cancellable (read_event c)"
  by (auto simp: read_event_def intro!: cancellable_intros)

lemma cancellable_reads: "cancellable (Connection_read c)" "cancellable (WebSocketConnection_read c)"
  by (auto simp: class_defs intro!: cancellable_reraise cancellable_intros cancellable_read_event
      split: option.splits read_event.splits)

lemma cancellable_dispatch: "cancellable m \<Longrightarrow> cancellable m' \<Longrightarrow> cancellable (dispatch c m m')"
  by (auto simp: dispatch_def intro!: cancellable_intros split: connection_class.splits)

lemma cancellable_read_frames: "(\<And>f. cancellable (body f)) \<Longrightarrow> cancellable (read_frames c body)"
  unfolding read_frames_def Connection_read_frames_def WebSocketConnection_read_frames_def
    read_frames_with_def
  by (intro cancellable_dispatch cancellable_bind cancellable_get cancellable_read_frames_loop
      cancellable_reads)

lemma cancellable_take_connected: "cancellable (take_connected_frame l f)"
  by (auto simp: take_connected_frame_def list_append_def intro!: cancellable_intros split: frame.splits)

text \<open>The server sends other frames than \<open>CONNECTED\<close>, and then no more.\<close>

definition stalls :: "nat \<Rightarrow> 'z net_scheme \<Rightarrow> frame list \<Rightarrow> bool" where
  "stalls c s collected \<longleftrightarrow>
     (\<exists>chunks p. t_in (transport_at s c) = map Chunk chunks \<and> [] \<notin> set chunks \<and>
        feed parse_byte FrameParser_init (concat chunks) = (collected, Inr p) \<and>
        list_all not_connected collected)"

lemma run_read_stalls:
  assumes "stalls c s collected" "writable c s" "l < length (n_lists s)"
  shows "\<exists>s'. run (read_frames c (take_connected_frame l)) s = (None, s') \<and>
    n_lists s' = (n_lists s)[l := n_lists s ! l @ collected] \<and> same_but_net s s' \<and>
    length (n_transports s') = length (n_transports s) \<and>
    t_out (transport_at s' c) = t_out (transport_at s c)"
proof -
  from assms(1) obtain chunks p where
    t_in: "t_in (transport_at s c) = map Chunk chunks @ []" and ne: "[] \<notin> set chunks" and
    f: "feed parse_byte FrameParser_init (concat chunks) = (collected, Inr p)" and
    nc: "list_all not_connected collected"
    unfolding stalls_def by auto
  have c: "c < length (n_transports s)" "t_open (transport_at s c)"
    using assms(2) by (simp_all add: writable_def)
  let ?read = "\<lambda>c. case t_class (transport_at s c) of
      Connection \<Rightarrow> Connection_read c | WebSocketConnection \<Rightarrow> WebSocketConnection_read c"
  let ?n = "Suc (length (t_in (transport_at s c)))"
  let ?body = "take_connected_frame l"
  have oc: "only_collects l (set collected) ?body"
    using nc by (intro only_collects_take_connected) (simp add: list_all_iff)
  obtain s1 where s1: "run (read_frames_loop (?read c) c ?n FrameParser_init ?body) s =
        run (read_frames_loop (?read c) c (?n - length chunks) p ?body) s1"
      "n_lists s1 = (n_lists s)[l := n_lists s ! l @ collected]"
      "length (n_transports s1) = length (n_transports s)" "same_but_net s s1"
      "transport_at s1 c = (transport_at s c)\<lparr>t_in := [],
       t_last_read_time := (if chunks = [] then t_last_read_time (transport_at s c)
                            else Some (n_time s))\<rparr>"
    using stream.cls_read_chunks [OF f t_in ne c(1) assms(3) _ oc, of ?n]
      websocket.cls_read_chunks [OF f t_in ne c(1) assms(3) _ oc, of ?n] t_in
    by (cases "t_class (transport_at s c)") (auto simp del: read_frames_loop.simps)
  have "run (?read c) s1 = (None, s1)"
    using stream.read_waits [of s1 c] websocket.read_waits [of s1 c] s1(5) c(2)
    by (cases "t_class (transport_at s c)") simp_all
  moreover have "?n - length chunks = Suc 0" using t_in by simp
  ultimately have "run (read_frames c ?body) s = (None, s1)"
    unfolding read_frames_class using s1(1) by (auto simp: run_simps)
  with s1 show ?thesis by auto
qed

lemma run_establish_stalls:
  assumes "to_header (cl_client_heartbeat cl) = Inr heartbeat"
    and "encodes (ConnectFrame (connect_headers cl params heartbeat))"
    and "writable c s" "stalls c s collected"
  shows "\<exists>s'. run (establish_connection cl c params) s =
      (Some (Inr (Inr (ConnectionConfirmationTimeout (cl_connection_confirmation_timeout cl) collected))), s') \<and>
    same_but_net s s' \<and>
    t_out (transport_at s' c) =
      t_out (transport_at s c) @ [wire (ConnectFrame (connect_headers cl params heartbeat))]"
proof -
  let ?f = "ConnectFrame (connect_headers cl params heartbeat)"
  let ?s2 = "(sent c [?f] s)\<lparr>n_lists := n_lists s @ [[]]\<rparr>"
  let ?l = "length (n_lists s)"
  have c: "c < length (n_transports s)" using assms(3) by (simp add: writable_def)
  then have t2: "transport_at ?s2 c = (transport_at s c)\<lparr>t_out := t_out (transport_at s c) @ [wire ?f]\<rparr>"
    by (simp add: transport_at_sent)
  then have "stalls c ?s2 collected" "writable c ?s2"
    using assms(3,4) c by (simp_all add: stalls_def writable_def sent_def)
  from run_read_stalls [OF this, of ?l] obtain s3 where
    s3: "run (read_frames c (take_connected_frame ?l)) ?s2 = (None, s3)" "same_but_net ?s2 s3"
      "n_lists s3 = n_lists s @ [collected]"
      "t_out (transport_at s3 c) = t_out (transport_at ?s2 c)"
    by auto
  have "run (wait_for (read_frames c (take_connected_frame ?l))) ?s2 = (Some (Inl (Raised TimeoutError)), s3)"
    using s3(1) by (simp add: run_wait_for cancellable_read_frames cancellable_take_connected)
  then have "run (establish_connection cl c params) s =
     (Some (Inr (Inr (ConnectionConfirmationTimeout (cl_connection_confirmation_timeout cl) collected))), s3)"
    using assms(1) run_write_frame [OF assms(2,3)] s3(3)
    by (simp add: establish_connection_def call_def run_simps new_list_def)
  moreover have "same_but_net s s3"
    by (rule same_but_net_trans [OF _ s3(2)]) (simp add: same_but_net_def sent_def upd_transport_def)
  ultimately show ?thesis using s3(4) t2 by (intro exI [of _ s3]) simp
qed

section \<open>Properties\<close>

text \<open>C16. A refused handshake. When the server answers with another version, without a version or
  heart-beat header, or with a heart-beat header that is not two integers, entering the
  connection ends with \<open>UnsupportedProtocolVersion\<close>, \<open>KeyError\<close> or \<open>ValueError\<close> as the headers decide, and
  the only thing written is \<open>CONNECT\<close>: nothing is replayed, no transaction is forgotten and the
  heart-beat task is not restarted.\<close>

theorem handshake_refused:
  assumes "to_header (cl_client_heartbeat cl) = Inr heartbeat"
    and "encodes (ConnectFrame (connect_headers cl params heartbeat))"
    and "writable c s" "answers c s collected h rest" "\<not> accepted (handshake_verdict cl h)"
  shows "\<exists>s'. run (lifespan_enter cl c params) s = (Some (handshake_verdict cl h), s') \<and>
    only_connect_sent c (ConnectFrame (connect_headers cl params heartbeat)) s s'"
proof -
  obtain s1 where s1: "run (establish_connection cl c params) s = run (check_connected cl h) s1"
      "same_but_net s s1" "t_out (transport_at s1 c) =
        t_out (transport_at s c) @ [wire (ConnectFrame (connect_headers cl params heartbeat))]"
    using run_establish_connection [OF assms(1-4)] by blast
  then have "run (lifespan_enter cl c params) s = (Some (handshake_verdict cl h), s1)"
    using assms(5) by (intro lifespan_enter_refused) (simp_all add: run_check_connected_refused)
  with only_connect_sentI [OF s1(2,3)] show ?thesis by blast
qed

definition sample_connected_11 :: headers where
  "sample_connected_11 = [(lit ''version'', lit ''1.1'')]"

theorem handshake_refused_witness:
  "let cl = client_lifespan (Client_defaults [sample_parameters]) 5;
       s = sample_client (quiet_peer\<lparr>peer_reads := [Chunk (wire (ConnectedFrame sample_connected_11))]\<rparr>);
       f = ConnectFrame (connect_headers cl sample_parameters (lit ''1000,1000'')) in
   \<exists>s'. run (lifespan_enter cl 0 sample_parameters) s =
     (Some (Inr (Inr (UnsupportedProtocolVersion (lit ''1.1'') (lit ''1.2'')))), s') \<and>
     only_connect_sent 0 f s s'"
proof -
  let ?cl = "client_lifespan (Client_defaults [sample_parameters]) 5"
  let ?s = "sample_client (quiet_peer\<lparr>peer_reads := [Chunk (wire (ConnectedFrame sample_connected_11))]\<rparr>)"
  have 1: "answers 0 ?s [] sample_connected_11 []"
  proof (rule answers_first)
    show "dumpable (ConnectedFrame sample_connected_11)"
      by (simp add: dumpable_def delimited_def sample_connected_11_def
          announce_def clean_evals is_content_length_def ascii_lower_def)
  qed (simp_all add: sample_client_def sample_simps sample_connected_11_def)
  have 2: "handshake_verdict ?cl sample_connected_11 =
      Inr (Inr (UnsupportedProtocolVersion (lit ''1.1'') (lit ''1.2'')))"
    by (simp add: handshake_verdict_def sample_connected_11_def client_lifespan_def PROTOCOL_VERSION_def)
  show ?thesis
    using handshake_refused [OF sample_connect sample_writable 1] 2
    unfolding Let_def by (simp add: accepted_def)
qed

text \<open>C17. A handshake that takes too long. When the server, however the bytes are cut into chunks,
  sends no \<open>CONNECTED\<close> frame, entering the connection does not wait for ever: it ends with
  \<open>ConnectionConfirmationTimeout\<close>, which has the frames that did arrive, in order; only \<open>CONNECT\<close>
  was written.\<close>

theorem handshake_times_out:
  assumes "to_header (cl_client_heartbeat cl) = Inr heartbeat"
    and "encodes (ConnectFrame (connect_headers cl params heartbeat))"
    and "writable c s" "stalls c s collected"
  shows "\<exists>s'. run (lifespan_enter cl c params) s =
      (Some (Inr (Inr (ConnectionConfirmationTimeout (cl_connection_confirmation_timeout cl) collected))), s') \<and>
    only_connect_sent c (ConnectFrame (connect_headers cl params heartbeat)) s s'"
proof -
  obtain s1 where s1: "run (establish_connection cl c params) s =
      (Some (Inr (Inr (ConnectionConfirmationTimeout (cl_connection_confirmation_timeout cl) collected))), s1)"
      "same_but_net s s1" "t_out (transport_at s1 c) =
        t_out (transport_at s c) @ [wire (ConnectFrame (connect_headers cl params heartbeat))]"
    using run_establish_stalls [OF assms] by blast
  from lifespan_enter_refused [OF s1(1)] only_connect_sentI [OF s1(2,3)] show ?thesis
    by (auto simp: accepted_def)
qed

theorem handshake_times_out_witness:
  "let cl = client_lifespan (Client_defaults [sample_parameters]) 5;
       s = sample_client (quiet_peer\<lparr>peer_reads := [Chunk [NEWLINE, NEWLINE], Chunk ''CONN'']\<rparr>);
       f = ConnectFrame (connect_headers cl sample_parameters (lit ''1000,1000'')) in
   \<exists>s'. run (lifespan_enter cl 0 sample_parameters) s =
     (Some (Inr (Inr (ConnectionConfirmationTimeout 2 [HeartbeatFrame, HeartbeatFrame]))), s') \<and>
     only_connect_sent 0 f s s'"
proof -
  let ?cl = "client_lifespan (Client_defaults [sample_parameters]) 5"
  let ?s = "sample_client (quiet_peer\<lparr>peer_reads := [Chunk [NEWLINE, NEWLINE], Chunk ''CONN'']\<rparr>)"
  have "fst (feed parse_byte FrameParser_init (concat [[NEWLINE, NEWLINE], ''CONN''])) = [HeartbeatFrame, HeartbeatFrame]"
    by code_simp
  then obtain p where "feed parse_byte FrameParser_init (concat [[NEWLINE, NEWLINE], ''CONN'']) =
      ([HeartbeatFrame, HeartbeatFrame], Inr p)"
    using parser.feed_total [OF parser_inv_init, of "concat [[NEWLINE, NEWLINE], ''CONN'']"] by auto
  then have "stalls 0 ?s [HeartbeatFrame, HeartbeatFrame]"
    unfolding stalls_def
    by (intro exI [of _ "[[NEWLINE, NEWLINE], ''CONN'']"] exI [of _ p])
      (simp add: sample_client_def sample_simps not_connected_def)
  moreover have "cl_connection_confirmation_timeout ?cl = 2"
    by (simp add: client_lifespan_def Client_defaults_def)
  ultimately show ?thesis
    using handshake_times_out [OF sample_connect sample_writable] unfolding Let_def by simp
qed

end
