(* ===== verification/Reconnect_Laws.thy ===== *)
theory Reconnect_Laws
  imports Reconnecting Handshake_Laws
begin

text \<open>
  The client's lifespan ends, so that the loops of the connection manager do; giving up when no
  server answers; what it means that a send returns.
\<close>

section \<open>The client's lifespan ends\<close>

text \<open>The bound on the loop over the frames of a transaction is large enough.\<close>

definition frames_fit :: "nat \<Rightarrow> 'z trans_scheme \<Rightarrow> bool" where
  "frames_fit n s \<longleftrightarrow> 0 < n \<and> (\<forall>t \<in> set (transactions s). length (tr_sent_frames t) < n)"

lemma frames_fitD: "frames_fit n s \<Longrightarrow> length (tr_sent_frames (transaction_at s t)) < n"
  by (simp add: frames_fit_def transaction_at_def)

lemma manager_only_trans_fields:
  fixes s s' :: "'z trans_scheme"
  assumes "manager_only s s'"
  shows "transactions s' = transactions s" "active_transactions s' = active_transactions s"
    "dicts s' = dicts s" "active_subscriptions s' = active_subscriptions s"
  using assms by (cases s; cases s'; simp add: manager_only_def)+

lemma frames_fit_manager_only: "frames_fit n s \<Longrightarrow> manager_only s s' \<Longrightarrow> frames_fit n s'"
  by (simp add: frames_fit_def manager_only_trans_fields)

lemma raises_only_read_frames:
  assumes "\<And>f. raises_only from_connection (body f)"
  shows "raises_only from_connection (read_frames c body)"
proof -
  have deliver: "raises_only from_connection (deliver body fs)" for fs
    by (induction fs) (auto intro!: raises_only_intros assms split: option.splits)
  have loop: "raises_only from_connection (read_frames_loop r c n p body)"
    if "raises_only from_connection r" for r n p
    by (induction n arbitrary: p)
      (auto intro!: raises_only_intros that deliver split: prod.splits option.splits sum.splits)
  have "raises_only from_connection (Connection_read c)" "raises_only from_connection (WebSocketConnection_read c)"
    by (auto simp: class_defs intro!: raises_plain_reraise raises_only_intros raises_only_writer
        split: option.splits read_event.splits)
  then show ?thesis
    unfolding read_frames_def Connection_read_frames_def WebSocketConnection_read_frames_def
      read_frames_with_def
    by (intro raises_only_dispatch raises_only_bind raises_only_get loop)
qed

lemma prompt_establish: "prompt (establish_connection cl c params)"
  by (auto simp: establish_connection_def check_connected_def header_item_def call_def
      restart_background_tasks_def cancel_task_def create_task_def
      intro!: prompt_intros prompt_methods prompt_net cancellable_read_frames cancellable_take_connected
      split: sum.splits option.splits)

lemma raises_only_establish: "raises_only from_connection (establish_connection cl c params)"
proof -
  have 1: "raises_only from_connection (check_connected cl h)" for h
    by (auto simp: check_connected_def header_item_def call_def
      restart_background_tasks_def cancel_task_def create_task_def
      intro!: raises_only_intros split: sum.splits option.splits)
  have 2: "raises_only from_connection (wait_for (read_frames c (take_connected_frame l)))" for l
    by (intro raises_only_wait_for raises_only_read_frames)
      (auto simp: take_connected_frame_def list_append_def intro!: raises_only_intros split: frame.splits)
  show ?thesis
    unfolding establish_connection_def call_def
    by (intro raises_only_bind raises_only_attempt_bind 2 raises_only_methods)
      (auto simp: new_list_def intro: 1 raises_only_bind raises_only_get split: sum.splits)
qed

lemma manager_only_establish: "safe (\<lambda>_ _. True) manager_only (establish_connection cl c params)"
proof -
  have 1: "safe (\<lambda>_ _. True) manager_only (restart_background_tasks hb)" for hb
    unfolding restart_background_tasks_def cancel_task_def create_task_def
    by (intro manager_only.safe_bind manager_only.safe_get manager_only_modify manager_only.safe_Act
        manager_only.safe_Done) (simp_all add: manager_only_def)
  have 2: "safe (\<lambda>_ _. True) manager_only (take_connected_frame l f)" for l f
    by (auto simp: take_connected_frame_def intro!: manager_only.safe_bind manager_only.net_intros
        manager_only.safe_Done split: frame.splits)
  show ?thesis
    unfolding establish_connection_def check_connected_def header_item_def call_def
    by (auto intro!: manager_only.safe_bind manager_only.safe_attempt manager_only.safe_wait_for
        manager_only.safe_get manager_only.safe_Done manager_only.net_intros 1 2
        split: sum.splits option.splits)
qed

lemma net_only_write:
  "ends (write_frame c f) s (\<lambda>r s'. net_only s s' \<and> (\<forall>e. r = Inl e \<longrightarrow> from_connection e))"
  by (intro net_only_ends prompt_methods raises_only_methods net_only.net_intros)

lemma net_only_for_each:
  assumes "\<And>x s. ends (f x) s (\<lambda>r s'. net_only s s' \<and> (\<forall>e. r = Inl e \<longrightarrow> P e))"
  shows "ends (for_each f xs) s (\<lambda>r s'. net_only s s' \<and> (\<forall>e. r = Inl e \<longrightarrow> P e))"
proof (induction xs arbitrary: s)
  case (Cons x xs)
  show ?case
    unfolding for_each.simps ends_bind
    by (rule ends_mono [OF assms])
      (auto split: sum.splits intro: ends_mono [OF Cons] net_only.G_trans)
qed (simp add: ends_simps net_only_refl)

lemma net_only_transaction_at: "net_only s s' \<Longrightarrow> transaction_at s' t = transaction_at s t"
    "net_only s s' \<Longrightarrow> active_transactions s' = active_transactions s"
    "net_only s s' \<Longrightarrow> frames_fit n s' = frames_fit n s"
  using manager_only_trans_fields [of s s'] net_only_manager [of s s']
  by (simp_all add: transaction_at_def frames_fit_def)

lemma write_sent_frames_ends:
  assumes "length (tr_sent_frames (transaction_at s t)) - k < n"
  shows "ends (write_sent_frames n k c t) s (\<lambda>r s'. net_only s s' \<and> (\<forall>e. r = Inl e \<longrightarrow> from_connection e))"
  using assms
proof (induction n arbitrary: k s)
  case (Suc n)
  let ?Q = "\<lambda>r s'. net_only s s' \<and> (\<forall>e. r = Inl e \<longrightarrow> from_connection e)"
  have following: "ends (write_sent_frames n (Suc k) c t) s1 ?Q"
    if "net_only s s1" "k < length (tr_sent_frames (transaction_at s t))" for s1
    by (rule ends_mono [OF Suc.IH])
      (use that Suc.prems in \<open>auto simp: net_only_transaction_at intro: net_only.G_trans\<close>)
  have "ends (seq (write_send_frame c sf) (write_sent_frames n (Suc k) c t)) s ?Q"
    if "k < length (tr_sent_frames (transaction_at s t))" for sf
    unfolding write_send_frame_def ends_bind ends_get
    by (simp, rule ends_mono [OF net_only_write]) (use that in \<open>auto intro: following split: sum.splits\<close>)
  then show ?case by (simp add: ends_simps net_only_refl)
qed simp

lemma commit_each_ends:
  assumes "frames_fit n s" "length (active_transactions s) = m"
  shows "ends (commit_each n m c ts) s (\<lambda>r s'. net_only s s' \<and> (\<forall>e. r = Inl e \<longrightarrow> from_connection e))"
  using assms
proof (induction ts arbitrary: s)
  case Nil
  then show ?case by (simp add: check_set_size_def ends_simps net_only_refl)
next
  case (Cons t ts)
  let ?Q = "\<lambda>r s'. net_only s s' \<and> (\<forall>e. r = Inl e \<longrightarrow> from_connection e)"
  have rest: "ends (commit_each n m c ts) s1 ?Q" if "net_only s s1" for s1
    by (rule ends_mono [OF Cons.IH])
      (use that Cons.prems in \<open>auto simp: net_only_transaction_at intro: net_only.G_trans\<close>)
  have commit: "ends (seq (bind (transaction_id t) (\<lambda>i. write_frame c (CommitFrame [(lit ''transaction'', i)])))
             (commit_each n m c ts)) s1 ?Q" if "net_only s s1" for s1
    unfolding transaction_id_def ends_bind ends_get
    by (simp, rule ends_mono [OF net_only_write])
      (use that in \<open>auto intro: rest net_only.G_trans split: sum.splits\<close>)
  have "length (tr_sent_frames (transaction_at s t)) - 0 < n"
    using frames_fitD [OF Cons.prems(1)] by simp
  then have "ends (seq (write_sent_frames n 0 c t)
          (seq (bind (transaction_id t) (\<lambda>i. write_frame c (CommitFrame [(lit ''transaction'', i)])))
             (commit_each n m c ts))) s ?Q"
    unfolding ends_bind [of "write_sent_frames n 0 c t"]
    by (intro ends_mono [OF write_sent_frames_ends]) (auto intro: commit split: sum.splits)
  then show ?case using Cons.prems(2) by (simp add: check_set_size_def ends_simps)
qed

lemma commit_pending_ends:
  assumes "frames_fit n s"
  shows "ends (commit_pending_transactions n c) s
    (\<lambda>r s'. frames_fit n s' \<and> (\<forall>e. r = Inl e \<longrightarrow> from_connection e))"
proof -
  have "ends (commit_each n (length (active_transactions s)) c (active_transactions s)) s
      (\<lambda>r s'. frames_fit n s' \<and> (\<forall>e. r = Inl e \<longrightarrow> from_connection e))"
    by (rule ends_mono [OF commit_each_ends [OF assms refl]]) (use assms in \<open>auto simp: net_only_transaction_at\<close>)
  then show ?thesis
    by (auto simp: commit_pending_transactions_def ends_simps frames_fit_def
        elim!: ends_mono split: sum.splits)
qed

lemma lifespan_enter_ends:
  assumes "frames_fit (cl_rounds cl) s"
  shows "ends (lifespan_enter cl c params) s
    (\<lambda>r s'. frames_fit (cl_rounds cl) s' \<and> (\<forall>e. r = Inl e \<longrightarrow> from_connection e))"
proof -
  let ?n = "cl_rounds cl"
  let ?Q = "\<lambda>r s'. frames_fit ?n s' \<and> (\<forall>e. r = Inl e \<longrightarrow> from_connection e)"
  have commit: "ends (seq (commit_pending_transactions ?n c) (ret (Inl hb))) s1 ?Q"
    if "frames_fit ?n s1" for s1 and hb :: Heartbeat
    unfolding ends_bind
    by (rule ends_mono [OF commit_pending_ends [OF that]]) (auto simp: ends_simps split: sum.splits)
  have "ends (for_each (\<lambda>sub. write_frame c (subscribe_frame sub)) subs) s1
      (\<lambda>r s'. net_only s1 s' \<and> (\<forall>e. r = Inl e \<longrightarrow> from_connection e))" for subs and s1 :: "'z trans_scheme"
    by (intro net_only_for_each net_only_write)
  then have "ends (resubscribe_to_active_subscriptions c) s1
      (\<lambda>r s'. net_only s1 s' \<and> (\<forall>e. r = Inl e \<longrightarrow> from_connection e))" for s1 :: "'z trans_scheme"
    by (simp add: resubscribe_to_active_subscriptions_def ends_bind ends_get)
  then have replay: "ends (seq (resubscribe_to_active_subscriptions c)
      (seq (commit_pending_transactions ?n c) (ret (Inl hb)))) s1 ?Q"
    if "frames_fit ?n s1" for s1 and hb :: Heartbeat
    unfolding ends_bind [of "resubscribe_to_active_subscriptions c"]
    by (rule ends_mono) (use that in \<open>auto intro: commit simp: net_only_transaction_at split: sum.splits\<close>)
  show ?thesis
    unfolding lifespan_enter_def ends_bind
    by (rule ends_mono [OF manager_only_ends [OF prompt_establish raises_only_establish manager_only_establish]])
      (use assms in \<open>auto simp: ends_Done intro: frames_fit_manager_only replay split: sum.splits\<close>)
qed

interpretation live: live_lifespan "lifespan_enter cl" "frames_fit (cl_rounds cl)" for cl
  by unfold_locales (auto intro: frames_fit_manager_only lifespan_enter_ends)

section \<open>What a successful write leaves behind\<close>

text \<open>The bytes were handed to the transport, unless it had been closed: then they are dropped.\<close>

definition delivered :: "bytes \<Rightarrow> nat \<Rightarrow> 'z net_scheme \<Rightarrow> bool" where
  "delivered data c s \<longleftrightarrow>
     c < length (n_transports s) \<and> t_open (transport_at s c) \<longrightarrow>
     t_out (transport_at s c) \<noteq> [] \<and> last (t_out (transport_at s c)) = data"

lemma write_frame_delivers:
  "run (write_frame c f) s = (Some (Inr ()), s') \<Longrightarrow> delivered (wire f) c s'"
  by (auto simp: write_frame_def run_simps class_defs dumped_def delivered_def accept_bytes_def next_write_def
      Let_def wire_def split: connection_class.splits sum.splits write_event.splits if_splits list.splits prod.splits option.splits)

lemma write_frame_ends:
  "ends (write_frame c f) s (\<lambda>r s'. net_only s s' \<and> (\<forall>e. r = Inl e \<longrightarrow> from_connection e) \<and>
     (r = Inr () \<longrightarrow> delivered (wire f) c s'))"
  using net_only_write [of c f s] write_frame_delivers [of c f s] by (auto simp: ends_def)

lemma write_send_frame_ends:
  "ends (write_send_frame c sf) s (\<lambda>r s'. net_only s s' \<and> (\<forall>e. r = Inl e \<longrightarrow> from_connection e) \<and>
     (r = Inr () \<longrightarrow> delivered (wire (send_frame_of (dicts s') sf)) c s'))"
  unfolding write_send_frame_def ends_bind ends_get
  by (simp, rule ends_mono [OF write_frame_ends])
    (auto simp: manager_only_trans_fields dest: net_only_manager)

section \<open>No server answers\<close>

text \<open>The ways of failing to open a connection that both classes take for an unavailable server, and
  the servers with an address that the class can open at all.\<close>

definition unreachable :: "open_event \<Rightarrow> bool" where
  "unreachable event \<longleftrightarrow> (\<exists>e. event = OpenFails e \<and> e \<in> {TimeoutError, ConnectionError, GaiError})"

definition valid_address :: "connection_class \<Rightarrow> ConnectionParameters \<Rightarrow> bool" where
  "valid_address cls server \<longleftrightarrow>
     (case cls of
        Connection \<Rightarrow> cp_ws_uri_path server \<in> {None, Some []}
      | WebSocketConnection \<Rightarrow>
          \<exists>uri. websocket_uri (cp_host server) (cp_port server) (cp_ws_uri_path server) = Inr uri)"

lemma run_create_unreachable:
  assumes "valid_address (cm_connection_class self) server" "unreachable event"
  shows "run (create_connection_to_one_server self server event) s = (Some (Inr None), s)"
  using assms
  by (auto simp: create_connection_to_one_server_def connect_def Connection_connect_def
      WebSocketConnection_connect_def open_transport_def none_on_def run_simps valid_address_def
      unreachable_def isinstance_any_def split: connection_class.splits)

lemma run_first_unreachable:
  assumes "\<forall>(server, event) \<in> set pending. valid_address (cm_connection_class self) server \<and> unreachable event"
  shows "run (first_connection self pending) s = (Some (Inr None), s)"
  using assms by (induction self pending rule: first_connection.induct)
    (auto simp: run_simps run_create_unreachable)

lemma set_clearjunk: "set (AList.clearjunk d) \<subseteq> set d"
  by (induction d rule: clearjunk.induct) (auto dest: set_delete_subset [THEN subsetD])

lemma completions_unreachable:
  assumes "\<forall>(i, event) \<in> set outcomes. unreachable event" "(server, event) \<in> set (completions servers outcomes)"
  shows "server \<in> set servers \<and> unreachable event"
  using assms set_clearjunk [of "filter (\<lambda>(i, _). i < length servers) outcomes"]
  by (auto simp: completions_def Let_def unreachable_def)

lemma run_connect_unreachable:
  assumes "\<forall>server \<in> set (cm_servers self). valid_address (cm_connection_class self) server"
    and "\<forall>outcomes \<in> set (take 1 (n_rounds s)). \<forall>(i, event) \<in> set outcomes. unreachable event"
  shows "run (connect_to_any_server self enter) s =
     (Some (Inr (Inr (AllServersUnavailable (cm_servers self) (cm_connect_timeout self)))),
      s\<lparr>n_rounds := tl (n_rounds s)\<rparr>)"
proof -
  let ?outcomes = "case n_rounds s of [] \<Rightarrow> [] | r # _ \<Rightarrow> r"
  have un: "\<forall>(i, event) \<in> set ?outcomes. unreachable event"
    using assms(2) by (cases "n_rounds s") auto
  have "valid_address (cm_connection_class self) server \<and> unreachable event"
    if "(server, event) \<in> set (completions (cm_servers self) ?outcomes)" for server event
    using completions_unreachable [OF un that] assms(1) by blast
  then have "run (create_connection_to_any_server self) s = (Some (Inr None), s\<lparr>n_rounds := tl (n_rounds s)\<rparr>)"
    by (simp add: create_connection_to_any_server_def next_round_def)
      (rule run_first_unreachable, auto)
  then show ?thesis by (simp add: connect_to_any_server_def run_bind)
qed

text \<open>Rounds of attempts in which no server can be reached are passed over.\<close>

lemma run_attempts_skip:
  assumes "\<forall>server \<in> set (cm_servers self). valid_address (cm_connection_class self) server"
    and "\<forall>outcomes \<in> set (take k (n_rounds s)). \<forall>(i, event) \<in> set outcomes. unreachable event"
  shows "run (connect_attempts self enter initial (k + n) i issues) s =
     run (connect_attempts self enter initial n (i + int k)
         (issues @ replicate k (AllServersUnavailable (cm_servers self) (cm_connect_timeout self))))
       (s\<lparr>n_rounds := drop k (n_rounds s), n_time := n_time s + pauses self i k\<rparr>)"
  using assms(2)
proof (induction k arbitrary: s i issues)
  case 0
  then show ?case by (simp add: pauses_simps)
next
  case (Suc k)
  let ?issue = "AllServersUnavailable (cm_servers self) (cm_connect_timeout self)"
  let ?pause = "max 0 (of_int (cm_connect_retry_interval self * (i + 1)))"
  let ?s1 = "s\<lparr>n_rounds := tl (n_rounds s)\<rparr>"
  let ?s2 = "?s1\<lparr>n_time := n_time s + ?pause\<rparr>"
  have "run (connect_to_any_server self enter) s = (Some (Inr (Inr ?issue)), ?s1)"
    using Suc.prems by (intro run_connect_unreachable assms(1)) (cases "n_rounds s"; auto)
  moreover have "\<forall>outcomes \<in> set (take k (n_rounds ?s2)). \<forall>(i, event) \<in> set outcomes. unreachable event"
    using Suc.prems by (cases "n_rounds s") auto
  note Suc.IH [OF this, of "i + 1" "issues @ [?issue]"]
  ultimately show ?case
    by (simp add: run_simps sleep_def drop_Suc pauses_simps add.assoc del: of_int_mult)
qed

lemma run_attempts_unreachable:
  assumes "\<forall>server \<in> set (cm_servers self). valid_address (cm_connection_class self) server"
    and "\<forall>outcomes \<in> set (take n (n_rounds s)). \<forall>(i, event) \<in> set outcomes. unreachable event"
  shows "run (connect_attempts self enter initial n k issues) s =
     (Some (Inl (FailedAllConnectAttemptsError (cm_connect_retry_attempts self)
        (issues @ replicate n (AllServersUnavailable (cm_servers self) (cm_connect_timeout self))))),
      s\<lparr>n_rounds := drop n (n_rounds s), n_time := n_time s + pauses self k n\<rparr>)"
  using run_attempts_skip [OF assms, of enter initial 0 k issues] by (simp add: run_simps)

lemma pauses_closed:
  assumes "0 \<le> cm_connect_retry_interval self" "0 \<le> k"
  shows "pauses self k n = of_int (cm_connect_retry_interval self) * (of_int k * of_nat n + of_nat (n * (n + 1)) / 2)"
  using assms(2)
proof (induction n arbitrary: k)
  case (Suc n)
  have "max 0 (of_int (cm_connect_retry_interval self * (k + 1))) = (of_int (cm_connect_retry_interval self * (k + 1)) :: rat)"
    using assms(1) Suc.prems by (simp add: max_def del: of_int_mult)
  with Suc show ?case by (simp add: pauses_simps) (simp add: field_simps)
qed (simp add: pauses_simps)

section \<open>Properties\<close>



text \<open>C13. When no server can be reached in any of the attempts, the client gives up with one
  \<open>AllServersUnavailable\<close> issue per attempt, after pauses of one, two, three, ... intervals, and
  nothing but the time has changed.\<close>

theorem no_server_answers:
  assumes "\<forall>server \<in> set (cm_servers self). valid_address (cm_connection_class self) server"
    and "\<forall>outcomes \<in> set (take n (n_rounds s)). \<forall>(i, event) \<in> set outcomes. unreachable event"
    and "n = nat (cm_connect_retry_attempts self)" "0 \<le> cm_connect_retry_interval self"
    and "active_connection_state s = None" "reconnect_lock s = None"
  shows "run (get_active_connection_state self enter initial) s =
     (Some (Inl (FailedAllConnectAttemptsError (cm_connect_retry_attempts self)
        (replicate n (AllServersUnavailable (cm_servers self) (cm_connect_timeout self))))),
      s\<lparr>n_rounds := drop n (n_rounds s),
        n_time := n_time s + of_int (cm_connect_retry_interval self) * of_nat (n * (n + 1)) / 2\<rparr>)"
proof -
  let ?issues = "replicate n (AllServersUnavailable (cm_servers self) (cm_connect_timeout self))"
  let ?s = "s\<lparr>reconnect_lock := Some (n_current s)\<rparr>"
  have "run (connect_attempts self enter initial n 0 []) ?s =
     (Some (Inl (FailedAllConnectAttemptsError (cm_connect_retry_attempts self) ?issues)),
      ?s\<lparr>n_rounds := drop n (n_rounds s), n_time := n_time s + pauses self 0 n\<rparr>)"
    using run_attempts_unreachable [OF assms(1), of n ?s enter initial 0 "[]"] assms(2) by simp
  moreover have "(s\<lparr>reconnect_lock := None\<rparr>) = s"
    using assms(6) by simp
  ultimately show ?thesis
    using assms(3,5,6) pauses_closed [OF assms(4), of 0 n]
    by (simp add: get_active_connection_state_def with_reconnect_lock_def run_simps)
qed

theorem no_server_answers_witness:
  "let self = client_manager (Client_defaults [sample_parameters]);
       s = (sample_client quiet_peer)\<lparr>active_connection_state := None, n_rounds := [[(0, OpenFails ConnectionError)]]\<rparr> in
   run (get_active_connection_state self (\<lambda>_ _. never) True) s =
     (Some (Inl (FailedAllConnectAttemptsError 3 (replicate 3 (AllServersUnavailable [sample_parameters] 2)))),
      s\<lparr>n_rounds := [], n_time := 6\<rparr>)"
proof -
  let ?self = "client_manager (Client_defaults [sample_parameters])"
  let ?s = "(sample_client quiet_peer)\<lparr>active_connection_state := None, n_rounds := [[(0, OpenFails ConnectionError)]]\<rparr>"
  have self: "cm_servers ?self = [sample_parameters]" "cm_connection_class ?self = Connection"
      "cm_connect_retry_attempts ?self = 3" "cm_connect_retry_interval ?self = 1" "cm_connect_timeout ?self = 2"
    by (simp_all add: client_manager_def Client_defaults_def)
  have s: "n_rounds ?s = [[(0, OpenFails ConnectionError)]]" "n_time ?s = 0" "reconnect_lock ?s = None"
      "active_connection_state ?s = None"
    by (simp_all add: sample_client_def)
  have "cp_ws_uri_path sample_parameters = None"
    by (simp add: sample_parameters_def new_parameters_def)
  then have "\<forall>server \<in> set (cm_servers ?self). valid_address (cm_connection_class ?self) server"
    by (simp add: self valid_address_def)
  moreover have "\<forall>outcomes \<in> set (take 3 (n_rounds ?s)). \<forall>(i, event) \<in> set outcomes. unreachable event"
    by (simp add: s unreachable_def)
  moreover have "3 = nat (cm_connect_retry_attempts ?self)" "0 \<le> cm_connect_retry_interval ?self"
    by (simp_all add: self)
  ultimately have "run (get_active_connection_state ?self (\<lambda>_ _. never) True) ?s =
     (Some (Inl (FailedAllConnectAttemptsError (cm_connect_retry_attempts ?self)
        (replicate 3 (AllServersUnavailable (cm_servers ?self) (cm_connect_timeout ?self))))),
      ?s\<lparr>n_rounds := drop 3 (n_rounds ?s),
        n_time := n_time ?s + of_int (cm_connect_retry_interval ?self) * of_nat (3 * (3 + 1)) / 2\<rparr>)"
    by (rule no_server_answers [OF _ _ _ _ s(4,3)])
  then show ?thesis by (simp add: self s(2) Let_def)
qed



end
