(* ===== verification/Transaction_Laws.thy ===== *)
theory Transaction_Laws
  imports Reconnect_Laws
begin

text \<open>
  Transactions: what is written on an undisturbed connection from \<open>BEGIN\<close> to \<open>COMMIT\<close> or \<open>ABORT\<close>,
  and what becomes of a transaction that is open while the client reconnects.
\<close>

section \<open>Writing on the active connection\<close>

definition connected_on :: "nat \<Rightarrow> 'z manager_scheme \<Rightarrow> bool" where
  "connected_on c s \<longleftrightarrow> writable c s \<and> map_option acs_connection (active_connection_state s) = Some c"

lemma connected_on_sent [simp]: "connected_on c (sent c fs s) = connected_on c s"
  by (simp add: connected_on_def) (simp add: sent_def upd_transport_def)

lemma run_write_attempts:
  assumes "connected_on c s" "0 < cm_write_retry_attempts self"
    and "run (op c) s = (Some (Inr ()), s')"
  shows "run (write_attempts self enter op (nat (cm_write_retry_attempts self))) s = (Some (Inr ()), s')"
proof -
  obtain n where "nat (cm_write_retry_attempts self) = Suc n"
    using assms(2) by (cases "nat (cm_write_retry_attempts self)") auto
  with assms(1,3) show ?thesis
    by (auto simp: connected_on_def get_active_connection_state_def run_simps)
qed

lemma run_write_frame_reconnecting:
  "connected_on c s \<Longrightarrow> 0 < cm_write_retry_attempts self \<Longrightarrow> encodes f \<Longrightarrow>
   run (write_frame_reconnecting self enter f) s = (Some (Inr ()), sent c [f] s)"
  unfolding write_frame_reconnecting_def
  by (rule run_write_attempts) (auto simp: run_write_frame connected_on_def)

lemma run_maybe_write_frame:
  "connected_on c s \<Longrightarrow> encodes f \<Longrightarrow> run (maybe_write_frame f) s = (Some (Inr True), sent c [f] s)"
  by (auto simp: maybe_write_frame_def connected_on_def run_simps run_write_frame)

section \<open>The frames of a transaction\<close>

text \<open>The arguments of \<open>Transaction.send\<close>: body, destination, content type, whether to add the
  content length, and the dictionary of headers.\<close>

type_synonym send_arguments = "bytes \<times> pystr \<times> pystr option \<times> bool \<times> ref option"

text \<open>The frames as they are when they are written, one after the other.\<close>

fun frames_written :: "pystr \<Rightarrow> dict_heap \<Rightarrow> send_arguments list \<Rightarrow> frame list" where
  "frames_written i d [] = []"
| "frames_written i d ((body, destination, content_type, add_content_length, headers) # ms) =
     (case SendFrame_build d body destination (Some i) content_type add_content_length headers of
        (sf, d') \<Rightarrow> send_frame_of d' sf # frames_written i d' ms)"

definition send_all ::
  "Client \<Rightarrow> nat \<Rightarrow> send_arguments list \<Rightarrow> nat \<Rightarrow> ('z client_scheme, unit) coro" where
  "send_all self rounds ms t =
     for_each (\<lambda>(body, destination, content_type, add_content_length, headers).
       transaction_send (client_manager self) (client_enter self rounds) t body destination
         content_type add_content_length headers) ms"

lemma transaction_at_dicts: "transaction_at (s\<lparr>dicts := d\<rparr>) t = transaction_at s t"
  by (simp add: transaction_at_def)

lemma run_transaction_send:
  fixes s :: "'z client_scheme"
  assumes "connected_on c s" "0 < clt_write_retry_attempts self" "t < length (transactions s)"
    and b: "SendFrame_build (dicts s) body destination (Some (tr_id (transaction_at s t))) content_type
           add_content_length headers = (sf, d)"
    and "encodes (send_frame_of d sf)"
  shows "\<exists>s'. run (transaction_send (client_manager self) (client_enter self rounds) t body destination
      content_type add_content_length headers) s = (Some (Inr ()), s') \<and>
    connected_on c s' \<and> dicts s' = d \<and> length (transactions s') = length (transactions s) \<and>
    tr_id (transaction_at s' t) = tr_id (transaction_at s t) \<and>
    active_transactions s' = active_transactions s \<and>
    t_out (transport_at s' c) = t_out (transport_at s c) @ [wire (send_frame_of d sf)]"
proof -
  let ?tr = "(transaction_at s t)\<lparr>tr_sent_frames := tr_sent_frames (transaction_at s t) @ [sf]\<rparr>"
  let ?s1 = "s\<lparr>dicts := d, transactions := (transactions s)[t := ?tr]\<rparr>"
  let ?s2 = "sent c [send_frame_of d sf] ?s1"
  have c1: "connected_on c ?s1"
    using assms(1) by (auto simp: connected_on_def writable_def transport_at_def)
  have "run (write_send_frame_reconnecting (client_manager self) (client_enter self rounds) sf) ?s1 = (Some (Inr ()), ?s2)"
    unfolding write_send_frame_reconnecting_def
    by (rule run_write_attempts [OF c1])
      (use assms(2,5) c1 in \<open>simp_all add: client_manager_def write_send_frame_def run_simps run_write_frame connected_on_def\<close>)
  then have "run (transaction_send (client_manager self) (client_enter self rounds) t body destination
      content_type add_content_length headers) s = (Some (Inr ()), ?s2)"
    using b by (simp add: transaction_send_def transaction_id_def build_send_frame_def append_sent_frame_def run_simps
        transaction_at_dicts)
  moreover have "c < length (n_transports ?s1)" using c1 by (simp add: connected_on_def writable_def)
  ultimately show ?thesis
    using c1 assms(3) by (intro exI [of _ ?s2])
      (simp add: transport_at_sent, simp add: transport_at_def transaction_at_def)
qed

lemma run_send_all:
  fixes s :: "'z client_scheme"
  assumes "connected_on c s" "0 < clt_write_retry_attempts self" "t < length (transactions s)"
    and "list_all encodes (frames_written (tr_id (transaction_at s t)) (dicts s) ms)"
  shows "\<exists>s'. run (send_all self rounds ms t) s = (Some (Inr ()), s') \<and> connected_on c s' \<and>
    tr_id (transaction_at s' t) = tr_id (transaction_at s t) \<and>
    active_transactions s' = active_transactions s \<and>
    t_out (transport_at s' c) = t_out (transport_at s c) @
      map wire (frames_written (tr_id (transaction_at s t)) (dicts s) ms)"
  using assms
proof (induction ms arbitrary: s)
  case Nil
  then show ?case by (simp add: send_all_def)
next
  case (Cons m ms)
  obtain body destination content_type add_content_length headers where
    m: "m = (body, destination, content_type, add_content_length, headers)" by (cases m)
  obtain sf d where b: "SendFrame_build (dicts s) body destination (Some (tr_id (transaction_at s t)))
      content_type add_content_length headers = (sf, d)" by fastforce
  from run_transaction_send [OF Cons.prems(1-3) b, of rounds] Cons.prems(4) obtain s1 where
    s1: "run (transaction_send (client_manager self) (client_enter self rounds) t body destination
      content_type add_content_length headers) s = (Some (Inr ()), s1)"
      "connected_on c s1" "dicts s1 = d" "length (transactions s1) = length (transactions s)"
      "tr_id (transaction_at s1 t) = tr_id (transaction_at s t)"
      "active_transactions s1 = active_transactions s"
      "t_out (transport_at s1 c) = t_out (transport_at s c) @ [wire (send_frame_of d sf)]"
    by (auto simp: m b)
  from Cons.IH [of s1] Cons.prems s1 show ?case
    by (auto simp: send_all_def run_simps m b)
qed

lemma connected_on_trans [simp]:
  "connected_on c (s\<lparr>active_transactions := x\<rparr>) = connected_on c s"
  "connected_on c (s\<lparr>transactions := y\<rparr>) = connected_on c s"
  "connected_on c (s\<lparr>n_uuid_count := z\<rparr>) = connected_on c s"
  by (simp_all add: connected_on_def writable_def transport_at_def)

section \<open>Concrete frames\<close>

lemmas encodable_evals = encodable_def encodable_char_def surrogate_def lit_def

lemma str_nat_0: "str_nat 0 = lit ''0''"
  by (simp add: str_nat.simps lit_def)

section \<open>The block of a transaction\<close>

text \<open>The state at the beginning of the block, in a transaction with identifier \<open>i\<close>.\<close>

definition begun :: "nat \<Rightarrow> pystr \<Rightarrow> 'z trans_scheme \<Rightarrow> 'z trans_scheme" where
  "begun c i s =
     (sent c [BeginFrame [(lit ''transaction'', i)]]
        (s\<lparr>n_uuid_count := Suc (n_uuid_count s),
           transactions := transactions s @ [\<lparr>tr_id = i, tr_sent_frames = []\<rparr>]\<rparr>))
      \<lparr>active_transactions := active_transactions s @ [length (transactions s)]\<rparr>"

definition closing_frame :: "exn + 'a \<Rightarrow> pystr \<Rightarrow> frame" where
  "closing_frame r i =
     (case r of Inl _ \<Rightarrow> AbortFrame [(lit ''transaction'', i)] | Inr _ \<Rightarrow> CommitFrame [(lit ''transaction'', i)])"

lemma begun_fields:
  assumes "connected_on c s"
  shows "connected_on c (begun c i s)" "tr_id (transaction_at (begun c i s) (length (transactions s))) = i"
    "length (transactions s) < length (transactions (begun c i s))" "dicts (begun c i s) = dicts s"
    "active_transactions (begun c i s) = active_transactions s @ [length (transactions s)]"
    "t_out (transport_at (begun c i s) c) = t_out (transport_at s c) @ [wire (BeginFrame [(lit ''transaction'', i)])]"
proof -
  show "connected_on c (begun c i s)" using assms by (simp add: begun_def)
  show "t_out (transport_at (begun c i s) c) = t_out (transport_at s c) @ [wire (BeginFrame [(lit ''transaction'', i)])]"
    using assms by (auto simp: begun_def connected_on_def writable_def sent_def upd_transport_def transport_at_def)
qed (simp_all add: begun_def transaction_at_def sent_def upd_transport_def)

lemma run_client_begin:
  fixes s :: "'z client_scheme"
  assumes "connected_on c s" "0 < clt_write_retry_attempts self"
    and "length (transactions s) \<notin> set (active_transactions s)" "i = n_uuid s (n_uuid_count s)"
    and "encodes (BeginFrame [(lit ''transaction'', i)])" "encodes (closing_frame r i)"
    and s3: "run (body (length (transactions s))) (begun c i s) = (Some r, s3)" "connected_on c s3"
      "tr_id (transaction_at s3 (length (transactions s))) = i"
      "active_transactions s3 = active_transactions s @ [length (transactions s)]"
  shows "run (client_begin self rounds body) s =
     (Some r, (sent c [closing_frame r i] s3)\<lparr>active_transactions := active_transactions s\<rparr>)"
proof -
  let ?t = "length (transactions s)" and ?bf = "BeginFrame [(lit ''transaction'', i)]"
  let ?s1 = "s\<lparr>n_uuid_count := Suc (n_uuid_count s),
      transactions := transactions s @ [\<lparr>tr_id = i, tr_sent_frames = []\<rparr>]\<rparr>"
  let ?s4 = "(sent c [closing_frame r i] s3)\<lparr>active_transactions := active_transactions s\<rparr>"
  have c1: "connected_on c ?s1" using assms(1) by simp
  have aenter: "run (transaction_aenter (client_manager self) (client_enter self rounds) ?t) ?s1 = (Some (Inr ()), begun c i s)"
    using run_write_frame_reconnecting [OF c1, of "client_manager self" ?bf] assms(2,3,5)
    by (simp add: transaction_aenter_def transaction_id_def run_simps client_manager_def transaction_at_def set_add_def
        begun_def)
  have "run (maybe_write_frame (closing_frame r i)) s3 = (Some (Inr True), sent c [closing_frame r i] s3)"
    using s3(2) assms(6) by (rule run_maybe_write_frame)
  then have "run (transaction_aexit ?t (case r of Inl _ \<Rightarrow> True | Inr _ \<Rightarrow> False)) s3 = (Some (Inr ()), ?s4)"
    using s3(3,4) assms(3)
    by (cases r) (simp_all add: transaction_aexit_def transaction_id_def remove_active_def run_simps remove1_append
        closing_frame_def)
  then show ?thesis
    using aenter s3(1) assms(4)
    by (cases r) (simp_all add: client_begin_def new_transaction_def uuid4_def run_simps)
qed

lemma t_out_sent_transactions:
  "connected_on c s \<Longrightarrow>
   t_out (transport_at ((sent c fs s)\<lparr>active_transactions := ts\<rparr>) c) = t_out (transport_at s c) @ map wire fs"
  by (auto simp: connected_on_def writable_def sent_def upd_transport_def transport_at_def)

section \<open>Properties\<close>

text \<open>C19. A transaction on an undisturbed connection. What \<open>async with client.begin()\<close> writes is
  \<open>BEGIN\<close>, the \<open>SEND\<close> frames of the body in order, all with the same fresh transaction identifier, and
  then \<open>COMMIT\<close> when the body returns or \<open>ABORT\<close> when it raises; the exception of the body is passed on,
  and the set of active transactions is what it was.\<close>

theorem transaction_writes:
  fixes s :: "'z client_scheme"
  assumes "connected_on c s" "0 < clt_write_retry_attempts self"
    and "length (transactions s) \<notin> set (active_transactions s)"
    and "i = n_uuid s (n_uuid_count s)"
    and "f = (case r of Inl _ \<Rightarrow> AbortFrame [(lit ''transaction'', i)] | Inr _ \<Rightarrow> CommitFrame [(lit ''transaction'', i)])"
    and "list_all encodes (BeginFrame [(lit ''transaction'', i)] # frames_written i (dicts s) ms @ [f])"
  shows "\<exists>s'. run (client_begin self rounds (\<lambda>t. seq (send_all self rounds ms t) (Done r))) s = (Some r, s') \<and>
    t_out (transport_at s' c) = t_out (transport_at s c) @
      map wire (BeginFrame [(lit ''transaction'', i)] # frames_written i (dicts s) ms @ [f]) \<and>
    active_transactions s' = active_transactions s"
proof -
  let ?t = "length (transactions s)" and ?s2 = "begun c i s"
  note s2 = begun_fields [OF assms(1), of i]
  have f: "f = closing_frame r i" by (simp add: assms(5) closing_frame_def)
  obtain s3 where s3: "run (send_all self rounds ms ?t) ?s2 = (Some (Inr ()), s3)" "connected_on c s3"
      "tr_id (transaction_at s3 ?t) = i" "active_transactions s3 = active_transactions s @ [?t]"
      "t_out (transport_at s3 c) = t_out (transport_at ?s2 c) @ map wire (frames_written i (dicts s) ms)"
    using run_send_all [of c ?s2 self ?t ms rounds] assms(2,6) s2 by auto
  have "run (client_begin self rounds (\<lambda>t. seq (send_all self rounds ms t) (Done r))) s =
      (Some r, (sent c [f] s3)\<lparr>active_transactions := active_transactions s\<rparr>)"
    unfolding f by (rule run_client_begin [OF assms(1-4)])
      (use assms(6) f s3 in \<open>simp_all add: run_bind\<close>)
  then show ?thesis
    using t_out_sent_transactions [OF s3(2)] s3(5) s2(6) by simp
qed

theorem transaction_writes_witness:
  "let s = sample_client quiet_peer; self = Client_defaults [sample_parameters];
       ms = [(''x'', lit ''q'', None, True, None)]; i = lit ''0'';
       tx = [(lit ''transaction'', i)] in
   \<exists>s'. run (client_begin self 9 (\<lambda>t. seq (send_all self 9 ms t) (ret ()))) s = (Some (Inr ()), s') \<and>
    t_out (transport_at s' 0) = map wire (BeginFrame tx # frames_written i [] ms @ [CommitFrame tx]) \<and>
    active_transactions s' = []"
proof -
  let ?s = "sample_client quiet_peer" and ?self = "Client_defaults [sample_parameters]"
  let ?ms = "[(''x'', lit ''q'', None, True, None)] :: send_arguments list" and ?i = "lit ''0''"
  let ?f = "CommitFrame [(lit ''transaction'', ?i)]"
  have 1: "connected_on 0 ?s" "0 < clt_write_retry_attempts ?self"
      "length (transactions ?s) \<notin> set (active_transactions ?s)" "?i = n_uuid ?s (n_uuid_count ?s)"
    by (simp_all add: connected_on_def sample_client_def sample_state_def writable_def sample_simps
        Client_defaults_def str_nat_0)
  have 2: "list_all encodes (BeginFrame [(lit ''transaction'', ?i)] # frames_written ?i (dicts ?s) ?ms @ [?f])"
    by (simp add: SendFrame_build_def sample_client_def headers_or_new_def fill_send_headers_def
        send_frame_of_def deref_def alloc_def)
      (simp add: encodes_encodable encodable_evals str_nat.simps)
  have 3: "dicts ?s = []" "active_transactions ?s = []" "t_out (transport_at ?s 0) = []"
    by (simp_all add: sample_client_def sample_simps)
  show ?thesis
    using transaction_writes [OF 1 _ 2, of "Inr ()"] unfolding Let_def by (simp add: 3)
qed

text \<open>C34. A transaction that is open while the client reconnects is committed without the user: on the new
  connection its frames and a \<open>COMMIT\<close> are written, with no \<open>BEGIN\<close> before them, and the transaction is
  forgotten. When the user's block ends, a second \<open>COMMIT\<close>, or an \<open>ABORT\<close> after the commit, is
  written, and \<open>KeyError\<close> is raised.\<close>

theorem transaction_across_reconnect:
  fixes s :: "'z trans_scheme"
  assumes "connected_on c s" "t \<in> set (active_transactions s)"
    and "\<forall>t \<in> set (active_transactions s). list_all encodes (replay_frames s t) \<and> length (replay_frames s t) \<le> n"
    and "i = tr_id (transaction_at s t)"
    and "f = (if failed then AbortFrame [(lit ''transaction'', i)] else CommitFrame [(lit ''transaction'', i)])"
    and "encodes f"
  shows "\<exists>s'. run (seq (commit_pending_transactions n c) (transaction_aexit t failed)) s =
      (Some (Inl (Raised (KeyError i))), s') \<and>
    t_out (transport_at s' c) = t_out (transport_at s c) @
      map wire (concat (map (replay_frames s) (active_transactions s)) @ [f])"
proof -
  let ?fs = "concat (map (replay_frames s) (active_transactions s))"
  let ?s1 = "(sent c ?fs s)\<lparr>active_transactions := []\<rparr>"
  have w: "writable c s" using assms(1) by (simp add: connected_on_def)
  have "connected_on c ?s1" using assms(1) by simp
  from run_maybe_write_frame [OF this assms(6)]
  have "run (transaction_aexit t failed) ?s1 = (Some (Inl (Raised (KeyError i))), sent c [f] ?s1)"
    using assms(4,5)
    by (simp add: transaction_aexit_def transaction_id_def remove_active_def run_simps transaction_at_def
        split: if_splits)
  with run_commit_pending [OF assms(3) w]
  have "run (seq (commit_pending_transactions n c) (transaction_aexit t failed)) s =
      (Some (Inl (Raised (KeyError i))), sent c [f] ?s1)"
    by (simp add: run_bind)
  moreover have "t_out (transport_at (sent c [f] ?s1) c) = t_out (transport_at s c) @ map wire (?fs @ [f])"
    using w by (simp add: writable_def sent_def upd_transport_def transport_at_def)
  ultimately show ?thesis by blast
qed

theorem transaction_across_reconnect_witness:
  "let s = (sample_client quiet_peer)\<lparr>transactions := [\<lparr>tr_id = lit ''t'', tr_sent_frames = []\<rparr>],
             active_transactions := [0]\<rparr>;
       commit = CommitFrame [(lit ''transaction'', lit ''t'')] in
   \<exists>s'. run (seq (commit_pending_transactions 1 0) (transaction_aexit 0 False)) s =
      (Some (Inl (Raised (KeyError (lit ''t'')))), s') \<and>
    t_out (transport_at s' 0) = map wire [commit, commit]"
proof -
  let ?s = "(sample_client quiet_peer)\<lparr>transactions := [\<lparr>tr_id = lit ''t'', tr_sent_frames = []\<rparr>],
      active_transactions := [0]\<rparr>"
  let ?f = "CommitFrame [(lit ''transaction'', lit ''t'')]"
  have 1: "connected_on 0 ?s" "0 \<in> set (active_transactions ?s)" "lit ''t'' = tr_id (transaction_at ?s 0)"
    by (simp_all add: connected_on_def sample_client_def sample_state_def writable_def sample_simps transaction_at_def)
  have f: "encodes ?f"
    by (simp add: encodes_encodable encodable_evals)
  have r: "replay_frames ?s 0 = [?f]" by (simp add: replay_frames_def transaction_at_def)
  with f have 2: "\<forall>t \<in> set (active_transactions ?s). list_all encodes (replay_frames ?s t) \<and> length (replay_frames ?s t) \<le> 1"
    by simp
  have "t_out (transport_at ?s 0) = []" by (simp add: sample_client_def sample_simps)
  with transaction_across_reconnect [OF 1(1,2) 2 1(3) refl, of False] f r show ?thesis
    unfolding Let_def by simp
qed

end
