(* ===== verification/Handler_Cap.thy ===== *)
theory Handler_Cap
  imports Transaction_Laws
begin

text \<open>
  The cap on concurrent handlers: however tasks are interleaved and cancelled, the permits of the
  semaphore and the handlers that are running add up to the configured number.
\<close>

section \<open>Coroutines that leave the handlers alone\<close>

text \<open>A relation that does not look further than at the semaphore, the handler tasks and what others add to the
  state of a client.\<close>

locale handler_guarantee = guarantee R G
  for R G :: "'z client_scheme \<Rightarrow> 'z client_scheme \<Rightarrow> bool" +
  assumes G_handlers: "handler_permits s' = handler_permits s \<Longrightarrow> handler_tasks s' = handler_tasks s \<Longrightarrow>
    client.more s' = client.more s \<Longrightarrow> G s s'"
begin

lemma safe_rest:
  "(\<And>s. handler_permits (f s) = handler_permits s) \<Longrightarrow> (\<And>s. handler_tasks (f s) = handler_tasks s) \<Longrightarrow>
   (\<And>s. client.more (f s) = client.more s) \<Longrightarrow> safe R G (modify f)"
  by (intro safe_modify G_handlers)

lemma safe_act_rest:
  "(\<And>s. handler_permits (f s) = handler_permits s) \<Longrightarrow> (\<And>s. handler_tasks (f s) = handler_tasks s) \<Longrightarrow>
   (\<And>s. client.more (f s) = client.more s) \<Longrightarrow> (\<And>s. safe R G (k s)) \<Longrightarrow> safe R G (Act f k)"
  by (intro safe_Act G_handlers)

lemma net: "net_guarantee R G"
proof unfold_locales
  fix s s' :: "'z client_scheme"
  assume "net.more s' = net.more s"
  then show "G s s'" by (intro G_handlers) (cases s; cases s'; simp)+
qed

lemmas net_safe = net_guarantee.net_intros [OF net]

lemmas client_intros = safe_bind safe_get safe_Done safe_attempt safe_handle safe_except_lost safe_finally
  safe_for_each safe_wait_for safe_await safe_never net_safe

lemma safe_tasks: "safe R G (create_task b)" "safe R G (cancel_task k)"
    "safe R G (restart_background_tasks hb)" "safe R G (restart_no_message_monitor self)"
  unfolding restart_background_tasks_def restart_no_message_monitor_def create_task_def cancel_task_def
  by (auto intro!: client_intros safe_rest safe_act_rest split: option.splits)

lemma safe_first_connection: "safe R G (first_connection self pending)"
  by (induction self pending rule: first_connection.induct)
    (auto simp: create_connection_to_one_server_def abandon_def
      intro!: client_intros safe_rest split: sum.splits option.splits)

lemma safe_lifespan_enter: "safe R G (lifespan_enter cl c params)"
proof -
  have frames: "safe R G (write_sent_frames n k c t)" for n k c t
    by (induction n arbitrary: k) (auto simp: write_send_frame_def intro!: client_intros)
  have commit: "safe R G (commit_each n m c ts)" for n m ts
    by (induction ts) (auto simp: transaction_id_def check_set_size_def intro!: client_intros frames)
  show ?thesis
    unfolding lifespan_enter_def establish_connection_def check_connected_def header_item_def call_def
      resubscribe_to_active_subscriptions_def commit_pending_transactions_def take_connected_frame_def
    by (auto intro!: client_intros safe_tasks commit safe_rest split: sum.splits option.splits frame.splits)
qed

lemma safe_get_active: "safe R G (get_active_connection_state self (lifespan_enter cl) initial)"
proof -
  have "safe R G (connect_to_any_server self (lifespan_enter cl))"
    unfolding connect_to_any_server_def create_connection_to_any_server_def next_round_def enter_connection_def
    by (auto intro!: client_intros safe_act_rest safe_first_connection safe_lifespan_enter
        split: sum.splits option.splits)
  then have "safe R G (connect_attempts self (lifespan_enter cl) initial n k issues)" for n k issues
    by (induction n arbitrary: k issues)
      (auto simp: activate_def intro!: client_intros safe_rest safe_tasks split: sum.splits)
  then show ?thesis
    unfolding get_active_connection_state_def with_reconnect_lock_def
    by (auto intro!: client_intros safe_rest split: option.splits)
qed

lemma safe_losing: "safe R G (discard_failed_connection_state st e)"
  unfolding discard_failed_connection_state_def by (auto intro!: client_intros safe_rest)

lemma safe_maybe_write: "safe R G (maybe_write_frame f)"
  unfolding maybe_write_frame_def log_dropped_frame_def
  by (auto intro!: client_intros safe_losing split: option.splits frame.splits)

lemma safe_write_attempts:
  "(\<And>c. safe R G (op c)) \<Longrightarrow> safe R G (write_attempts self (lifespan_enter cl) op n)"
  by (induction n) (auto intro!: client_intros safe_get_active safe_losing)

lemmas safe_writes = safe_maybe_write safe_write_attempts safe_get_active safe_losing

lemma safe_acknowledge: "safe R G (ack sub h e)" "safe R G (nack sub h e)"
  unfolding ack_def nack_def log_message_id_def
  by (auto intro!: client_intros safe_writes split: option.splits list.splits)

lemma safe_read_reconnecting:
  assumes "\<And>f e. safe R G (body f e)"
  shows "safe R G (read_frames_reconnecting self (lifespan_enter cl) body n)"
  by (induction n)
    (auto simp: consume_def intro!: client_intros safe_writes assms split: sum.splits exn.splits option.splits)

lemma safe_background:
  "safe R G (send_heartbeats_forever self (lifespan_enter cl) ms n)" "safe R G (monitor_no_message_timeout t n)"
  "safe R G (finish_abandoned self)"
  subgoal by (induction n) (auto simp: write_heartbeat_reconnecting_def intro!: client_intros safe_writes
      split: sum.splits exn.splits)
  subgoal by (induction n) (auto simp: Let_def intro!: client_intros safe_writes split: option.splits)
  subgoal by (auto simp: finish_abandoned_def create_connection_to_one_server_def
      intro!: client_intros safe_act_rest split: option.splits list.splits)
  done

lemma safe_operations:
  "safe R G (client_send self rounds b d ct acl h)" "safe R G (client_subscribe self rounds d' hs mode kind)"
  "safe R G (unsubscribe sub)"
  unfolding client_send_def client_subscribe_def unsubscribe_def subscribe_def write_frame_reconnecting_def
    write_send_frame_reconnecting_def write_send_frame_def build_send_frame_def Let_def
  by (auto intro!: client_intros safe_writes safe_rest safe_act_rest)

lemma safe_transactions:
  assumes "\<And>t. safe R G (body t)"
  shows "safe R G (transaction_send self (lifespan_enter cl) t b d ct acl h)" "safe R G (client_begin self' rounds body)"
  unfolding client_begin_def transaction_send_def transaction_aenter_def transaction_aexit_def remove_active_def
    append_sent_frame_def new_transaction_def transaction_id_def write_frame_reconnecting_def
    write_send_frame_reconnecting_def write_send_frame_def build_send_frame_def
  by (auto intro!: client_intros safe_writes safe_rest safe_act_rest assms)

lemma safe_entering: "safe R G (client_aenter self rounds)"
  unfolding client_aenter_def manager_aenter_def
  by (auto intro!: client_intros safe_tasks safe_writes safe_rest)

lemma safe_leaving: "safe R G (client_aexit failed failure)"
proof -
  have "safe R G (lifespan_exit c params)" for c params
    unfolding lifespan_exit_def unsubscribe_from_all_active_subscriptions_def suppress_def take_receipt_frame_def
    by (auto intro!: client_intros safe_operations split: exn.splits)
  then show ?thesis
    unfolding client_aexit_def wait_until_empty_def manager_aexit_def close_active_connection_state_def
    by (auto intro!: client_intros safe_tasks safe_rest split: option.splits)
qed

end

section \<open>The cap\<close>

definition running :: "'z client_scheme \<Rightarrow> nat" where
  "running s = length (filter (\<lambda>t. \<not> ht_done t) (handler_tasks s))"

definition cap_ok :: "nat \<Rightarrow> 'z client_scheme \<Rightarrow> bool" where
  "cap_ok m s \<longleftrightarrow> (\<exists>p. handler_permits s = Some p \<and> p + running s = m)"

definition cap_kept :: "nat \<Rightarrow> 'z client_scheme \<Rightarrow> 'z client_scheme \<Rightarrow> bool" where
  "cap_kept m s s' \<longleftrightarrow> (cap_ok m s \<longrightarrow> cap_ok m s')"

interpretation cap: handler_guarantee "cap_kept m" "cap_kept m" for m
  by unfold_locales (auto simp: cap_kept_def cap_ok_def running_def)

text \<open>A handler is started with a permit of its own, taken in the same section.\<close>

lemma safe_start:
  assumes "\<not> ht_done task"
  shows "safe (cap_kept m) (cap_kept m) (seq acquire_permit (start_handler task))"
proof (rule safeI)
  fix s0 s :: "'z client_scheme"
  assume kept: "cap_kept m s0 s"
  have started: "cap_kept m s (s\<lparr>handler_permits := map_option (\<lambda>n. n - Suc 0) (handler_permits s),
      handler_tasks := handler_tasks s @ [task]\<rparr>)" if "handler_permits s \<noteq> Some 0" for s :: "'z client_scheme"
    using assms that by (auto simp: cap_kept_def cap_ok_def running_def)
  show "rg (cap_kept m) (cap_kept m) (seq acquire_permit (start_handler task)) (\<lambda>_. cap_kept m) s0 s"
  proof (cases "handler_permits s")
    case None
    with kept show ?thesis
      by (auto simp: acquire_permit_def start_handler_def rg_simps cap_kept_def cap_ok_def)
  next
    case (Some n)
    then show ?thesis
      using kept started [of s] cap.G_trans [of m s0 s]
      by (cases n) (auto simp: acquire_permit_def start_handler_def rg_simps await_def
          intro: started cap.safe_never cap.R_start)
  qed
qed

lemma length_filter_update:
  "k < length xs \<Longrightarrow> P (xs ! k) \<Longrightarrow> \<not> P x \<Longrightarrow> length (filter P xs) = Suc (length (filter P (xs[k := x])))"
  by (induction xs arbitrary: k) (auto split: nat.splits)

lemma release_keeps_cap:
  assumes "k < length (handler_tasks s)" "\<not> ht_done (handler_tasks s ! k)"
  shows "cap_kept m s (release_handler k s)"
  using length_filter_update [of k "handler_tasks s" "\<lambda>t. \<not> ht_done t" "(handler_tasks s ! k)\<lparr>ht_done := True\<rparr>"] assms
  by (auto simp: cap_kept_def cap_ok_def running_def release_handler_def)

section \<open>All tasks of a client\<close>

text \<open>The user's code acts on the client through its operations only.\<close>

definition minds_cap :: "nat \<Rightarrow> 'z client_scheme user_code \<Rightarrow> bool" where
  "minds_cap m user \<longleftrightarrow>
     (\<forall>n h b a e. safe (cap_kept m) (cap_kept m) (uc_handler user n h b) \<and>
        safe (cap_kept m) (cap_kept m) (uc_manual_handler user n a) \<and>
        safe (cap_kept m) (cap_kept m) (uc_on_suppressed_exception user n e h b)) \<and>
     (\<forall>f h b. uc_on_error_frame user = Some f \<longrightarrow> safe (cap_kept m) (cap_kept m) (f h b))"

lemma safe_dispatch_cap:
  assumes "minds_cap m user"
  shows "safe (cap_kept m) (cap_kept m) (dispatch_frame user f e)"
  using assms
  by (cases f) (auto simp: dispatch_frame_def header_item_def minds_cap_def
      intro!: cap.client_intros safe_start cap.safe_rest split: option.splits)

lemma safe_handler_body:
  assumes "minds_cap m user"
  shows "safe (cap_kept m) (cap_kept m) (run_handler_with_safety_net (handler_coro user task))"
  using assms
  by (auto simp: run_handler_with_safety_net_def handler_coro_def run_handler_def minds_cap_def
      intro!: cap.client_intros cap.safe_acknowledge split: subscription_kind.splits sum.splits)

text \<open>The coroutines of a client; the callback that is called when a handler's task is done, once per
  task that was started, is a step of the event loop.\<close>

inductive_set loop_tasks ::
  "Client \<Rightarrow> nat \<Rightarrow> 'z client_scheme user_code \<Rightarrow> ('z client_scheme, unit) coro set"
  for self :: Client and rounds :: nat and user :: "'z client_scheme user_code" where
  entering: "client_aenter self rounds \<in> loop_tasks self rounds user"
| leaving: "client_aexit failed failure \<in> loop_tasks self rounds user"
| listening: "listen_to_frames self rounds user n \<in> loop_tasks self rounds user"
| heartbeats: "send_heartbeats_forever (client_manager self) (client_enter self rounds) ms n
    \<in> loop_tasks self rounds user"
| monitoring: "monitor_no_message_timeout t n \<in> loop_tasks self rounds user"
| abandoned: "finish_abandoned (client_manager self) \<in> loop_tasks self rounds user"
| handling: "run_handler_with_safety_net (handler_coro user task) \<in> loop_tasks self rounds user"
| sending: "client_send self rounds b d ct acl h \<in> loop_tasks self rounds user"
| subscribing: "bind (client_subscribe self rounds d hs mode kind) (\<lambda>_. ret ()) \<in> loop_tasks self rounds user"
| unsubscribing: "unsubscribe sub \<in> loop_tasks self rounds user"
| acking: "ackable_ack a \<in> loop_tasks self rounds user"
| nacking: "ackable_nack a \<in> loop_tasks self rounds user"
| transacting: "client_begin self rounds (send_all self rounds sends) \<in> loop_tasks self rounds user"

inductive loop_step :: "'z client_scheme \<Rightarrow> 'z client_scheme \<Rightarrow> bool" where
  time: "time_passes s s' \<Longrightarrow> loop_step s s'"
| handler_done: "k < length (handler_tasks s) \<Longrightarrow> \<not> ht_done (handler_tasks s ! k) \<Longrightarrow>
    loop_step s (release_handler k s)"

lemma loop_tasks_safe:
  assumes "minds_cap m user" "c \<in> loop_tasks self rounds user"
  shows "safe (cap_kept m) (cap_kept m) c"
  using assms(2)
proof cases
  case (transacting sends)
  have "safe (cap_kept m) (cap_kept m) (send_all self rounds sends t)" for t
    unfolding send_all_def by (auto intro!: cap.client_intros cap.safe_transactions split: prod.splits)
  then show ?thesis unfolding transacting by (rule cap.safe_transactions(2))
qed (use assms(1) in \<open>auto simp: listen_to_frames_def ackable_ack_def ackable_nack_def
    intro!: cap.safe_entering cap.safe_leaving cap.safe_background safe_handler_body cap.safe_operations
      cap.safe_acknowledge cap.client_intros cap.safe_read_reconnecting safe_dispatch_cap cap.safe_rest\<close>)

lemma loop_step_cap: "loop_step s s' \<Longrightarrow> cap_kept m s s'"
  by (induction rule: loop_step.induct)
    (auto simp: time_passes_def intro: release_keeps_cap, auto simp: cap_kept_def cap_ok_def running_def)

lemma cap_kept_resume [simp]: "cap_kept m (resume_task i s) s' = cap_kept m s s'"
    "cap_kept m s (resume_task i s') = cap_kept m s s'" "cap_kept m s s"
  by (simp_all add: cap_kept_def cap_ok_def running_def resume_task_def)

interpretation cap_pool: interleaving resume_task "\<lambda>_. cap_kept m" "\<lambda>_. cap_kept m" loop_step "cap_kept m" for m
  by unfold_locales (auto intro: cap.G_trans loop_step_cap)

section \<open>Properties\<close>

text \<open>C18. The cap on concurrent handlers. From the state of a new client with \<open>max_concurrent_handlers = m\<close>,
  in every state that its tasks reach, however they are interleaved and cancelled, the permits left and
  the handlers running add up to \<open>m\<close>: there are never more than \<open>m\<close> handlers at a time, and no permit is
  lost, so that a listener that waits for one is woken when a handler ends.\<close>

theorem handler_cap:
  assumes "minds_cap m user" "initial_permits self = Some m"
    and "handler_permits s0 = initial_permits self" "handler_tasks s0 = []"
    and "(pool_step resume_task (loop_tasks self rounds user) loop_step)\<^sup>*\<^sup>* (s0, []) (s, ts)"
  shows "\<exists>p. handler_permits s = Some p \<and> p + running s = m"
proof -
  have "cap_ok m s0" using assms(2-4) by (simp add: cap_ok_def running_def)
  moreover have "cap_kept m s0 s"
    using cap_pool.pool_run [OF assms(5) cap_pool.pool_ok_empty, of m] loop_tasks_safe [OF assms(1)] by blast
  ultimately show ?thesis by (simp add: cap_kept_def cap_ok_def)
qed


lemma idle_user_minds_cap: "minds_cap m idle_user"
  by (simp add: minds_cap_def idle_user_def cap.safe_Done)

theorem handler_cap_witness:
  "let self = Client_defaults [sample_parameters]; s = sample_client quiet_peer;
       r = advance (listen_to_frames self 1 idle_user 1) (resume_task 0 s) in
   \<exists>p. handler_permits (snd r) = Some p \<and> p + running (snd r) = 100"
proof -
  let ?self = "Client_defaults [sample_parameters]" and ?s = "sample_client quiet_peer"
  let ?r = "advance (listen_to_frames ?self 1 idle_user 1) (resume_task 0 ?s)"
  let ?P = "loop_tasks ?self 1 idle_user"
  have "pool_step resume_task ?P loop_step (?s, []) (snd ?r, [] @ [fst ?r])"
    by (rule pool_step.spawn [OF loop_tasks.listening]) simp
  then have "(pool_step resume_task ?P loop_step)\<^sup>*\<^sup>* (?s, []) (snd ?r, [] @ [fst ?r])"
    by (rule r_into_rtranclp)
  from handler_cap [OF idle_user_minds_cap _ _ _ this, of 100] show ?thesis
    unfolding Let_def by (simp add: initial_permits_def Client_defaults_def sample_client_def)
qed

end
