(* ===== verification/Output_Types.thy ===== *)
theory Output_Types
  imports Handler_Cap
begin

text \<open>
  The types of what the client sends: however its tasks are interleaved and cancelled, every piece of output is
  a heart-beat or the encoding of a client frame with all its required headers. The headers of \<open>SEND\<close>
  frames are dictionaries on the heap, which later sends may change before a frame is written or
  replayed; so the relation between states also says that no dictionary loses what a frame needs.
\<close>

section \<open>Legal output\<close>

text \<open>A frame that a client may send: of one of the classes of \<open>AnyClientFrame\<close>, with the headers that its
  class declares.\<close>

definition client_frame :: "frame \<Rightarrow> bool" where
  "client_frame f \<longleftrightarrow> type_of f \<in> set AnyClientFrame \<and> well_typed f"

definition legal :: "bytes \<Rightarrow> bool" where
  "legal data \<longleftrightarrow> data = [NEWLINE] \<or> (\<exists>f. client_frame f \<and> dump_frame f = Inr data)"

text \<open>The headers of a \<open>SEND\<close> frame are a dictionary that others may write to.\<close>

definition sendable :: "dict_heap \<Rightarrow> ref \<Rightarrow> bool" where
  "sendable H r \<longleftrightarrow> conforms SendHeaders (deref H r)"

definition output_legal :: "'z trans_scheme \<Rightarrow> bool" where
  "output_legal s \<longleftrightarrow>
     (\<forall>c. list_all legal (t_out (transport_at s c))) \<and>
     (\<forall>t \<in> set (transactions s). \<forall>sf \<in> set (tr_sent_frames t). sendable (dicts s) (send_headers sf))"

text \<open>What the steps of all tasks have in common: no dictionary loses the headers that a \<open>SEND\<close> frame needs, and
  legal output stays legal.\<close>

definition keeps :: "'z trans_scheme \<Rightarrow> 'z trans_scheme \<Rightarrow> bool" where
  "keeps s s' \<longleftrightarrow>
     (\<forall>r. sendable (dicts s) r \<longrightarrow> sendable (dicts s') r) \<and> (output_legal s \<longrightarrow> output_legal s')"

definition unwritten :: "'z trans_scheme \<Rightarrow> 'z trans_scheme \<Rightarrow> bool" where
  "unwritten s s' \<longleftrightarrow>
     (\<forall>c. t_out (transport_at s' c) = t_out (transport_at s c)) \<and> dicts s' = dicts s \<and>
     transactions s' = transactions s"

lemma keeps_refl [simp]: "keeps s s"
  by (simp add: keeps_def)

lemma keeps_trans: "keeps s s' \<Longrightarrow> keeps s' s'' \<Longrightarrow> keeps s s''"
  by (simp add: keeps_def)

lemma unwritten_keeps: "unwritten s s' \<Longrightarrow> keeps s s'"
  by (simp add: unwritten_def keeps_def output_legal_def)

interpretation typed: guarantee keeps keeps
  by unfold_locales (auto intro: keeps_trans)

lemma typed_modify: "(\<And>s. unwritten s (f s)) \<Longrightarrow> safe keeps keeps (modify f)"
  by (intro typed.safe_modify unwritten_keeps)

lemma typed_Act: "(\<And>s. unwritten s (f s)) \<Longrightarrow> (\<And>s. safe keeps keeps (k s)) \<Longrightarrow> safe keeps keeps (Act f k)"
  by (intro typed.safe_Act unwritten_keeps)

lemma trans_fields_upd [simp]:
  "dicts (upd_transport c f s) = dicts s" "transactions (upd_transport c f s) = transactions s"
  by (simp_all add: upd_transport_def)

lemma transport_at_upd_if:
  "transport_at (upd_transport c f s) d =
     (if d = c \<and> c < length (n_transports s) then f (transport_at s c) else transport_at s d)"
  by (auto simp: upd_transport_def transport_at_def)

lemma legal_accept_bytes: "list_all legal (t_out t) \<Longrightarrow> legal data \<Longrightarrow> list_all legal (t_out (accept_bytes data t))"
  by (auto simp: accept_bytes_def Let_def split: write_event.splits)

lemma unwritten_upd: "(\<And>t. t_out (f t) = t_out t) \<Longrightarrow> unwritten s (upd_transport c f s)"
  by (simp add: unwritten_def transport_at_upd_if)

lemma keeps_accept_bytes:
  assumes "keeps s0 s" "output_legal s0 \<Longrightarrow> legal data"
  shows "keeps s0 (upd_transport c (accept_bytes data) s)"
proof -
  have "output_legal (upd_transport c (accept_bytes data) s)" if "output_legal s" "legal data"
    using that by (simp add: output_legal_def transport_at_upd_if legal_accept_bytes)
  with assms show ?thesis
    by (auto simp: keeps_def)
qed

lemmas typed_intros = typed.safe_bind typed.safe_get typed.safe_Done typed.safe_attempt typed.safe_handle
  typed.safe_except_lost typed.safe_finally typed.safe_for_each typed.safe_wait_for typed.safe_await typed.safe_never

section \<open>Connections\<close>

lemma typed_net:
  "safe keeps keeps (logger level message)" "safe keeps keeps uuid4" "safe keeps keeps (sleep seconds)"
  "safe keeps keeps new_list" "safe keeps keeps (list_append l f)"
  unfolding logger_def uuid4_def sleep_def new_list_def list_append_def
  by (auto intro!: typed_intros typed_modify typed_Act simp: unwritten_def transport_at_def)

lemma typed_suppress: "safe keeps keeps m \<Longrightarrow> safe keeps keeps (suppress causes m)"
  unfolding suppress_def by (auto intro!: typed_intros split: exn.splits)

lemma typed_reraise: "safe keeps keeps m \<Longrightarrow> safe keeps keeps (reraise_connection_lost causes m)"
  unfolding reraise_connection_lost_def by (auto intro!: typed_intros split: exn.splits)

lemma typed_close: "safe keeps keeps (close c)"
  unfolding close_def dispatch_def Connection_close_def WebSocketConnection_close_def
  by (auto intro!: typed_intros typed_suppress typed_modify unwritten_upd split: connection_class.splits option.splits)

lemma typed_connect: "safe keeps keeps (connect cls h p n ssl path event)"
  unfolding connect_def Connection_connect_def WebSocketConnection_connect_def open_transport_def none_on_def
  by (auto intro!: typed_intros typed_Act split: connection_class.splits sum.splits exn.splits open_event.splits
      simp: unwritten_def transport_at_def nth_append new_transport_def no_transport_def)

lemma typed_read_frames:
  assumes "\<And>f. safe keeps keeps (body f)"
  shows "safe keeps keeps (read_frames c body)"
proof -
  have event: "safe keeps keeps (read_event c)"
    unfolding read_event_def by (auto intro!: typed_intros typed_Act unwritten_upd)
  have read: "safe keeps keeps (Connection_read c)" "safe keeps keeps (WebSocketConnection_read c)"
    unfolding Connection_read_def WebSocketConnection_read_def read_non_empty_bytes_def websocket_recv_def
    by (auto intro!: typed_intros typed_reraise event split: option.splits read_event.splits)
  have deliver: "safe keeps keeps (deliver body fs)" for fs
    by (induction fs) (auto intro!: typed_intros assms split: option.splits)
  have "safe keeps keeps (read_frames_loop r c n p body)" if "safe keeps keeps r" for r n p
    by (induction n arbitrary: p) (auto intro!: typed_intros typed_modify unwritten_upd that deliver
        split: option.splits sum.splits prod.splits)
  with read show ?thesis
    unfolding read_frames_def dispatch_def Connection_read_frames_def WebSocketConnection_read_frames_def
      read_frames_with_def
    by (auto intro!: typed_intros split: connection_class.splits)
qed

lemma typed_write_heartbeat: "safe keeps keeps (write_heartbeat c)"
proof -
  have "keeps s (upd_transport c (accept_bytes [NEWLINE]) s)" for s :: "'z trans_scheme"
    by (rule keeps_accept_bytes) (simp_all add: legal_def)
  then show ?thesis
    unfolding write_heartbeat_def dispatch_def Connection_write_heartbeat_def WebSocketConnection_write_heartbeat_def
      writer_write_def
    by (auto intro!: typed_intros typed_reraise typed.safe_modify typed.safe_Act
        split: connection_class.splits write_event.splits)
qed

text \<open>A frame has to be legal only when the output was so far.\<close>

lemma rg_write_frame:
  assumes "keeps s0 s" "output_legal s0 \<Longrightarrow> client_frame f"
  shows "rg keeps keeps (write_frame c f) (\<lambda>_. keeps) s0 s"
proof (cases "dump_frame f")
  case (Inl e)
  with assms(1) show ?thesis
    by (auto simp: write_frame_def dispatch_def Connection_write_frame_def WebSocketConnection_write_frame_def
        dumped_def reraise_connection_lost_def handle_def rg_simps split: connection_class.splits exn.splits)
next
  case (Inr data)
  have "keeps s0 (upd_transport c (accept_bytes data) s)"
    by (rule keeps_accept_bytes [OF assms(1)]) (use assms(2) Inr in \<open>auto simp: legal_def\<close>)
  then show ?thesis
    by (auto simp: write_frame_def dispatch_def Connection_write_frame_def WebSocketConnection_write_frame_def
        websocket_send_def writer_write_def drain_def await_def dumped_def Inr reraise_connection_lost_def handle_def
        rg_simps split: connection_class.splits exn.splits write_event.splits sum.splits)
qed

lemma typed_write_frame: "client_frame f \<Longrightarrow> safe keeps keeps (write_frame c f)"
  by (rule safeI) (simp add: rg_write_frame)

lemmas typed_connection = typed_net typed_close typed_connect typed_read_frames typed_write_heartbeat typed_write_frame

section \<open>Frames of the client\<close>

lemmas client_frame_defs = client_frame_def AnyClientFrame_def well_typed_def conforms_iff

lemma client_frames [simp]:
  "client_frame (ConnectFrame (connect_headers cl params heartbeat))"
  "client_frame (subscribe_frame sub)"
  "client_frame (UnsubscribeFrame [(lit ''id'', x)])"
  "client_frame (AckFrame [(lit ''id'', x), (lit ''subscription'', y)])"
  "client_frame (NackFrame [(lit ''id'', x), (lit ''subscription'', y)])"
  "client_frame (BeginFrame [(lit ''transaction'', x)])"
  "client_frame (CommitFrame [(lit ''transaction'', x)])"
  "client_frame (AbortFrame [(lit ''transaction'', x)])"
  "client_frame (DisconnectFrame [(lit ''receipt'', x)])"
  using SubscribeFrame_build_well_typed [of "sub_id sub" "sub_destination sub" "sub_ack sub" "sub_headers sub"]
  by (simp_all add: client_frame_defs ConnectHeaders_def connect_headers_def UnsubscribeHeaders_def AckHeaders_def
      NackHeaders_def BeginHeaders_def CommitHeaders_def AbortHeaders_def DisconnectHeaders_def subscribe_frame_def
      SubscribeFrame_build_def dict_laws)

lemma client_frame_send: "client_frame (send_frame_of H sf) = sendable H (send_headers sf)"
  by (simp add: client_frame_defs send_frame_of_def sendable_def)

lemma build_sendable:
  assumes "SendFrame_build H body destination tx content_type acl headers = (sf, H')"
  shows "sendable H' (send_headers sf)" and "sendable H r \<Longrightarrow> sendable H' r"
proof -
  show new: "sendable H' (send_headers sf)"
    using SendFrame_build_well_typed [OF assms] by (simp add: well_typed_def send_frame_of_def sendable_def)
  show "sendable H' r" if "sendable H r"
  proof (cases "headers = Some r")
    case True
    with that assms new show ?thesis
      by (auto simp: SendFrame_build_def headers_or_new_def alloc_def sendable_def SendHeaders_def conforms_def
          split: if_splits prod.splits)
  next
    case False
    have "r < length H"
      using that by (rule contrapos_pp) (simp add: sendable_def deref_def SendHeaders_def conforms_def)
    with False SendFrame_build_other_cells [OF assms] that show ?thesis by (simp add: sendable_def)
  qed
qed

text \<open>A dictionary that is fit to be sent stays so while other tasks run.\<close>

lemma rg_sendable:
  assumes "rg keeps keeps m (\<lambda>_. keeps) s s" "keeps s0 s" "sendable (dicts s) r"
  shows "rg keeps keeps m (\<lambda>_ s0 s. keeps s0 s \<and> sendable (dicts s) r) s0 s"
  using assms by (intro rg_frame [where H = keeps and b = s and I = "\<lambda>s. sendable (dicts s) r"]) (auto simp: keeps_def)

lemma rg_write_send_frame:
  assumes "keeps s0 s" "output_legal s0 \<Longrightarrow> sendable (dicts s) (send_headers sf)"
  shows "rg keeps keeps (write_send_frame c sf) (\<lambda>_. keeps) s0 s"
  unfolding write_send_frame_def rg_simps by (simp add: rg_write_frame assms client_frame_send)

lemma sent_frame_sendable:
  assumes "output_legal s" "sf \<in> set (tr_sent_frames (transaction_at s t))"
  shows "sendable (dicts s) (send_headers sf)"
proof (cases "t < length (transactions s)")
  case True
  then have "transaction_at s t \<in> set (transactions s)" by (simp add: transaction_at_def)
  with assms show ?thesis unfolding output_legal_def by blast
qed (use assms(2) in \<open>simp add: transaction_at_def\<close>)

lemma typed_write_sent_frames: "safe keeps keeps (write_sent_frames n k c t :: ('z trans_scheme, unit) coro)"
proof (induction n arbitrary: k)
  case (Suc n)
  show ?case
  proof (rule safeI)
    fix s0 s :: "'z trans_scheme"
    assume kept: "keeps s0 s"
    let ?frames = "tr_sent_frames (transaction_at s t)"
    have "sendable (dicts s) (send_headers (?frames ! k))" if "output_legal s0" "k < length ?frames"
      using kept that by (intro sent_frame_sendable [where t = t]) (simp_all add: keeps_def)
    then have "rg keeps keeps (write_send_frame c (?frames ! k)) (\<lambda>_. keeps) s0 s" if "k < length ?frames"
      using kept that by (blast intro: rg_write_send_frame)
    then have "rg keeps keeps (seq (write_send_frame c (?frames ! k)) (write_sent_frames n (Suc k) c t)) (\<lambda>_. keeps) s0 s"
      if "k < length ?frames"
      unfolding rg_bind by (rule rg_mono) (use safeD [OF Suc [of "Suc k"]] that in \<open>auto split: sum.splits\<close>)
    with kept show "rg keeps keeps (write_sent_frames (Suc n) k c t) (\<lambda>_. keeps) s0 s"
      by (simp add: rg_simps)
  qed
qed (simp add: typed.safe_never)

section \<open>The connection manager\<close>

lemmas unwritten_simps = unwritten_def transport_at_def

lemma typed_tasks: "safe keeps keeps (create_task b)" "safe keeps keeps (cancel_task k)"
    "safe keeps keeps (restart_background_tasks hb)" "safe keeps keeps (restart_no_message_monitor self)"
  unfolding restart_background_tasks_def restart_no_message_monitor_def create_task_def cancel_task_def
  by (auto intro!: typed_intros typed_modify typed_Act split: option.splits simp: unwritten_simps)

lemma typed_first_connection: "safe keeps keeps (first_connection self pending)"
  by (induction self pending rule: first_connection.induct)
    (auto simp: create_connection_to_one_server_def abandon_def unwritten_simps
      intro!: typed_intros typed_connection typed_modify split: sum.splits option.splits)

lemma typed_lifespan_enter: "safe keeps keeps (lifespan_enter cl c params)"
proof -
  have commit: "safe keeps keeps (commit_each n m c ts)" for n m ts
    by (induction ts)
      (auto simp: transaction_id_def check_set_size_def intro!: typed_intros typed_write_sent_frames typed_write_frame)
  show ?thesis
    unfolding lifespan_enter_def establish_connection_def check_connected_def header_item_def call_def
      resubscribe_to_active_subscriptions_def commit_pending_transactions_def take_connected_frame_def
    by (auto intro!: typed_intros typed_connection typed_tasks commit typed_modify simp: unwritten_simps
        split: sum.splits option.splits frame.splits)
qed

lemma typed_get_active: "safe keeps keeps (get_active_connection_state self (lifespan_enter cl) initial)"
proof -
  have "safe keeps keeps (connect_to_any_server self (lifespan_enter cl))"
    unfolding connect_to_any_server_def create_connection_to_any_server_def next_round_def enter_connection_def
    by (auto intro!: typed_intros typed_connection typed_Act typed_first_connection typed_lifespan_enter
        simp: unwritten_simps split: sum.splits option.splits)
  then have "safe keeps keeps (connect_attempts self (lifespan_enter cl) initial n k issues)" for n k issues
    by (induction n arbitrary: k issues)
      (auto simp: activate_def unwritten_simps intro!: typed_intros typed_connection typed_modify typed_tasks
        split: sum.splits)
  then show ?thesis
    unfolding get_active_connection_state_def with_reconnect_lock_def
    by (auto intro!: typed_intros typed_modify simp: unwritten_simps split: option.splits)
qed

lemma typed_discard: "safe keeps keeps (discard_failed_connection_state st e)"
  unfolding discard_failed_connection_state_def
  by (auto intro!: typed_intros typed_connection typed_modify simp: unwritten_simps)

lemma typed_maybe_write: "client_frame f \<Longrightarrow> safe keeps keeps (maybe_write_frame f)"
  unfolding maybe_write_frame_def log_dropped_frame_def
  by (auto intro!: typed_intros typed_connection typed_discard split: option.splits frame.splits)

lemma typed_write_attempts:
  "(\<And>c. safe keeps keeps (op c)) \<Longrightarrow> safe keeps keeps (write_attempts self (lifespan_enter cl) op n)"
  by (induction n) (auto intro!: typed_intros typed_get_active typed_discard)

lemmas typed_writes = typed_maybe_write typed_write_attempts typed_get_active typed_discard

lemma typed_read_reconnecting:
  assumes "\<And>f e. safe keeps keeps (body f e)"
  shows "safe keeps keeps (read_frames_reconnecting self (lifespan_enter cl) body n)"
  by (induction n)
    (auto simp: consume_def intro!: typed_intros typed_connection typed_writes assms
      split: sum.splits exn.splits option.splits)

lemma typed_background:
  "safe keeps keeps (send_heartbeats_forever self (lifespan_enter cl) ms n)"
  "safe keeps keeps (monitor_no_message_timeout t n)" "safe keeps keeps (finish_abandoned self)"
  subgoal by (induction n) (auto simp: write_heartbeat_reconnecting_def intro!: typed_intros typed_connection typed_writes
      split: sum.splits exn.splits)
  subgoal by (induction n) (auto simp: Let_def intro!: typed_intros typed_connection typed_writes split: option.splits)
  subgoal by (auto simp: finish_abandoned_def create_connection_to_one_server_def unwritten_simps
      intro!: typed_intros typed_connection typed_Act split: option.splits list.splits)
  done

section \<open>Subscriptions and messages\<close>

lemma typed_acknowledge: "safe keeps keeps (ack sub h e)" "safe keeps keeps (nack sub h e)"
  unfolding ack_def nack_def log_message_id_def
  by (auto intro!: typed_intros typed_connection typed_writes split: option.splits list.splits)

lemma typed_subscriptions:
  "safe keeps keeps (client_subscribe self rounds d hs mode kind)" "safe keeps keeps (unsubscribe sub)"
  unfolding client_subscribe_def unsubscribe_def subscribe_def write_frame_reconnecting_def Let_def
  by (auto intro!: typed_intros typed_connection typed_writes typed_modify simp: unwritten_simps)

section \<open>Sending\<close>

lemma rg_write_send_attempts:
  fixes s0 s :: "'z trans_scheme"
  assumes "keeps s0 s" "sendable (dicts s) (send_headers sf)"
  shows "rg keeps keeps (write_attempts self (lifespan_enter cl) (\<lambda>c. write_send_frame c sf) n) (\<lambda>_. keeps) s0 s"
  using assms
proof (induction n arbitrary: s0 s)
  case (Suc n)
  let ?Q = "\<lambda>s0 (s :: 'z trans_scheme). keeps s0 s \<and> sendable (dicts s) (send_headers sf)"
  have discard: "rg keeps keeps (seq (discard_failed_connection_state st e)
      (write_attempts self (lifespan_enter cl) (\<lambda>c. write_send_frame c sf) n)) (\<lambda>_. keeps) s0 s"
    if "?Q s0 s" for st e and s0 s :: "'z trans_scheme"
    unfolding rg_bind
    by (rule rg_mono [OF rg_sendable [OF safeD [OF typed_discard]]]) (use that Suc.IH in \<open>auto split: sum.splits\<close>)
  have attempt: "rg keeps keeps (except_lost (write_send_frame c sf)
      (\<lambda>e. seq (discard_failed_connection_state st e)
        (write_attempts self (lifespan_enter cl) (\<lambda>c. write_send_frame c sf) n))) (\<lambda>_. keeps) s0 s"
    if "?Q s0 s" for st c and s0 s :: "'z trans_scheme"
    unfolding except_lost_def handle_def rg_bind rg_attempt
    by (rule rg_mono [OF rg_sendable [OF rg_write_send_frame]])
      (use that discard in \<open>auto split: sum.splits exn.splits\<close>)
  show ?case
    unfolding write_attempts.simps rg_bind
    by (rule rg_mono [OF rg_sendable [OF safeD [OF typed_get_active]]])
      (use Suc.prems attempt in \<open>auto split: sum.splits\<close>)
qed simp

lemma typed_client_send: "safe keeps keeps (client_send self rounds b d ct acl h)"
proof (rule safeI)
  fix s0 s :: "'a client_scheme"
  assume kept: "keeps s0 s"
  obtain sf H where b: "SendFrame_build (dicts s) b d None ct acl h = (sf, H)" by fastforce
  have "keeps s (s\<lparr>dicts := H\<rparr>)"
    using build_sendable(2) [OF b] by (auto simp: keeps_def output_legal_def transport_at_def)
  with kept have "keeps s0 (s\<lparr>dicts := H\<rparr>)" by (rule keeps_trans)
  from rg_write_send_attempts [OF this, of sf] build_sendable(1) [OF b] b
  show "rg keeps keeps (client_send self rounds b d ct acl h) (\<lambda>_. keeps) s0 s"
    by (simp add: client_send_def build_send_frame_def write_send_frame_reconnecting_def rg_simps)
qed

lemma typed_transaction_send:
  "safe keeps keeps (transaction_send self (lifespan_enter cl) t b d ct acl h :: ('z trans_scheme, unit) coro)"
proof (rule safeI)
  fix s0 s :: "'z trans_scheme"
  assume kept: "keeps s0 s"
  let ?i = "tr_id (transaction_at s t)"
  obtain sf H where b: "SendFrame_build (dicts s) b d (Some ?i) ct acl h = (sf, H)" by fastforce
  let ?s = "s\<lparr>dicts := H, transactions := (transactions s)
        [t := (transaction_at s t)\<lparr>tr_sent_frames := tr_sent_frames (transaction_at s t) @ [sf]\<rparr>]\<rparr>"
  have "output_legal ?s" if legal: "output_legal s"
  proof -
    have "sendable H (send_headers f)" if "tr \<in> set (transactions ?s)" "f \<in> set (tr_sent_frames tr)" for tr f
    proof (cases "tr \<in> set (transactions s)")
      case False
      with that set_update_subset_insert [of "transactions s" t] have "f \<in> set (tr_sent_frames (transaction_at s t) @ [sf])"
        by force
      with sent_frame_sendable [OF legal] build_sendable [OF b] show ?thesis by auto
    qed (use that(2) legal build_sendable(2) [OF b] in \<open>auto simp: output_legal_def\<close>)
    moreover have "transport_at ?s c = transport_at s c" for c by (simp add: transport_at_def)
    ultimately show ?thesis using legal by (auto simp: output_legal_def)
  qed
  then have "keeps s ?s"
    using build_sendable(2) [OF b] by (auto simp: keeps_def)
  with kept have "keeps s0 ?s" by (rule keeps_trans)
  from rg_write_send_attempts [OF this, of sf] build_sendable(1) [OF b] b
  show "rg keeps keeps (transaction_send self (lifespan_enter cl) t b d ct acl h) (\<lambda>_. keeps) s0 s"
    by (simp add: transaction_send_def transaction_id_def build_send_frame_def append_sent_frame_def
        write_send_frame_reconnecting_def rg_simps transaction_at_dicts)
qed

lemma typed_client_begin:
  assumes "\<And>t. safe keeps keeps (body t)"
  shows "safe keeps keeps (client_begin self rounds body)"
proof -
  have "safe keeps keeps new_transaction"
    unfolding new_transaction_def
    by (auto intro!: typed_intros typed_net typed.safe_Act simp: keeps_def output_legal_def transport_at_def)
  then show ?thesis
    unfolding client_begin_def transaction_aenter_def transaction_aexit_def remove_active_def
      transaction_id_def write_frame_reconnecting_def
    by (auto intro!: typed_intros typed_connection typed_writes typed_modify assms simp: unwritten_simps)
qed

section \<open>All tasks of a client\<close>

lemma typed_entering: "safe keeps keeps (client_aenter self rounds)"
  unfolding client_aenter_def manager_aenter_def
  by (auto intro!: typed_intros typed_tasks typed_writes typed_modify simp: unwritten_simps)

lemma typed_leaving: "safe keeps keeps (client_aexit failed failure)"
proof -
  have "safe keeps keeps (lifespan_exit c params)" for c params
    unfolding lifespan_exit_def unsubscribe_from_all_active_subscriptions_def take_receipt_frame_def
    by (auto intro!: typed_intros typed_connection typed_suppress typed_subscriptions)
  then show ?thesis
    unfolding client_aexit_def wait_until_empty_def manager_aexit_def close_active_connection_state_def
    by (auto intro!: typed_intros typed_connection typed_tasks typed_modify simp: unwritten_simps split: option.splits)
qed

text \<open>The user's code acts on the client through its operations only, and does not take away headers that it
  has given to a frame.\<close>

definition minds_types :: "'z client_scheme user_code \<Rightarrow> bool" where
  "minds_types user \<longleftrightarrow>
     (\<forall>n h b a e. safe keeps keeps (uc_handler user n h b) \<and> safe keeps keeps (uc_manual_handler user n a) \<and>
        safe keeps keeps (uc_on_suppressed_exception user n e h b)) \<and>
     (\<forall>f h b. uc_on_error_frame user = Some f \<longrightarrow> safe keeps keeps (f h b))"

lemma typed_listening:
  assumes "minds_types user"
  shows "safe keeps keeps (listen_to_frames self rounds user n)"
proof -
  have "safe keeps keeps (dispatch_frame user f e)" for f e
    using assms
    by (cases f) (auto simp: dispatch_frame_def header_item_def minds_types_def acquire_permit_def start_handler_def
        unwritten_simps intro!: typed_intros typed_modify split: option.splits)
  then show ?thesis
    unfolding listen_to_frames_def
    by (auto intro!: typed_intros typed_read_reconnecting typed_modify simp: unwritten_simps)
qed

lemma typed_handler:
  assumes "minds_types user"
  shows "safe keeps keeps (run_handler_with_safety_net (handler_coro user task))"
  using assms
  by (auto simp: run_handler_with_safety_net_def handler_coro_def run_handler_def minds_types_def
      intro!: typed_intros typed_net typed_acknowledge split: subscription_kind.splits sum.splits)

lemma loop_tasks_typed:
  assumes "minds_types user" "c \<in> loop_tasks self rounds user"
  shows "safe keeps keeps c"
  using assms(2)
proof cases
  case (transacting sends)
  have "safe keeps keeps (send_all self rounds sends t)" for t
    unfolding send_all_def by (auto intro!: typed_intros typed_transaction_send split: prod.splits)
  then show ?thesis unfolding transacting by (rule typed_client_begin)
qed (use assms(1) in \<open>auto simp: ackable_ack_def ackable_nack_def
    intro!: typed_entering typed_leaving typed_listening typed_background typed_handler typed_client_send
      typed_subscriptions typed_acknowledge typed_intros\<close>)

lemma keeps_resume [simp]: "keeps (resume_task i s) s' = keeps s s'" "keeps s (resume_task i s') = keeps s s'"
  by (simp_all add: keeps_def output_legal_def resume_task_def)

lemma loop_step_keeps: "loop_step s s' \<Longrightarrow> keeps s s'"
  by (induction rule: loop_step.induct)
    (auto simp: time_passes_def release_handler_def unwritten_simps intro!: unwritten_keeps)

interpretation typed_pool: interleaving resume_task "\<lambda>_. keeps" "\<lambda>_. keeps" loop_step keeps
  by unfold_locales (auto intro: keeps_trans loop_step_keeps)

section \<open>Properties\<close>

text \<open>C6. The client sends nothing but well-typed client frames and heart-beats. From a state in which nothing
  has been sent and there are no transactions, in every state that the client's tasks reach, however they are interleaved and
  cancelled, reconnections and replays included, every piece of output on every connection is a
  heart-beat or the encoding of a frame of one of the classes of \<open>AnyClientFrame\<close> that has all the headers that its
  class requires.\<close>

theorem output_well_typed:
  assumes "minds_types user" "\<forall>c. t_out (transport_at s0 c) = []" "transactions s0 = []"
    and "(pool_step resume_task (loop_tasks self rounds user) loop_step)\<^sup>*\<^sup>* (s0, []) (s, ts)"
    and "data \<in> set (t_out (transport_at s c))"
  shows "data = [NEWLINE] \<or>
    (\<exists>f. type_of f \<in> set AnyClientFrame \<and> well_typed f \<and> dump_frame f = Inr data)"
proof -
  have "output_legal s0"
    using assms(2,3) by (simp add: output_legal_def)
  moreover have "keeps s0 s"
    using typed_pool.pool_run [OF assms(4) typed_pool.pool_ok_empty] loop_tasks_typed [OF assms(1)] by blast
  ultimately have "list_all legal (t_out (transport_at s c))" by (simp add: keeps_def output_legal_def)
  with assms(5) have "legal data" by (simp add: list_all_iff)
  then show ?thesis by (auto simp: legal_def client_frame_def)
qed

lemma idle_user_minds_types: "minds_types idle_user"
  by (simp add: minds_types_def idle_user_def typed.safe_Done)

theorem output_well_typed_witness:
  "let s = sample_client quiet_peer;
       m = ackable_ack \<lparr>am_headers = [(lit ''ack'', lit ''7'')], am_body = [], am_subscription = sample_sub,
             am_received_at_reconnection_count = 0\<rparr>;
       out = t_out (transport_at (snd (advance m (resume_task 0 s))) 0) in
   length out = 1 \<and>
   (hd out = [NEWLINE] \<or> (\<exists>f. type_of f \<in> set AnyClientFrame \<and> well_typed f \<and> dump_frame f = Inr (hd out)))"
proof -
  let ?s = "sample_client quiet_peer"
  let ?m = "ackable_ack \<lparr>am_headers = [(lit ''ack'', lit ''7'')], am_body = [], am_subscription = sample_sub,
      am_received_at_reconnection_count = 0\<rparr> :: (client, unit) coro"
  let ?r = "advance ?m (resume_task 0 ?s)" and ?P = "loop_tasks (Client_defaults [sample_parameters]) 1 idle_user"
  let ?out = "t_out (transport_at (snd ?r) 0)"
  have "pool_step resume_task ?P loop_step (?s, []) (snd ?r, [] @ [fst ?r])"
    by (rule pool_step.spawn [OF loop_tasks.acking]) simp
  then have run: "(pool_step resume_task ?P loop_step)\<^sup>*\<^sup>* (?s, []) (snd ?r, [] @ [fst ?r])"
    by (rule r_into_rtranclp)
  have start: "\<forall>c. t_out (transport_at ?s c) = []" "transactions ?s = []"
    by (simp_all add: sample_client_def sample_simps no_transport_def nth_Cons split: nat.splits)
  have "encodes (AckFrame [(lit ''id'', lit ''7''), (lit ''subscription'', lit ''s'')])"
    by (simp add: encodes_encodable encodable_evals)
  then have "length ?out = 1"
    by (auto simp: ackable_ack_def ack_def get_def maybe_write_frame_def sample_client_def sample_state_def
        write_frame_def dispatch_def class_defs reraise_connection_lost_def handle_def encodes_def
        except_lost_def dumped_def writer_write_def drain_def await_def sample_simps upd_transport_def
        accept_bytes_def next_write_def registry_evals sample_sub_def resume_task_def lit_def)
  moreover from this have "hd ?out \<in> set ?out" by (intro hd_in_set) auto
  ultimately show ?thesis
    using output_well_typed [OF idle_user_minds_types start run] unfolding Let_def by blast
qed

end
