(* ===== verification/Client_Laws.thy ===== *)
theory Client_Laws
  imports Transaction_Laws
begin

text \<open>
  The behaviour of the client's parts on an undisturbed connection: acknowledging messages,
  heart-beats, leaving; and connections that nobody closes.
\<close>

section \<open>Handlers\<close>

lemma run_acknowledge:
  fixes s :: "'z subs_scheme"
  assumes "connected_on c s" "contains_by_id (active_subscriptions s) (sub_id sub)"
    and "map_of h (lit ''ack'') = Some a" "a \<noteq> []" "reconnection_count s = e"
  shows "encodes (AckFrame [(lit ''id'', a), (lit ''subscription'', sub_id sub)]) \<Longrightarrow>
      run (ack sub h e) s = (Some (Inr ()), sent c [AckFrame [(lit ''id'', a), (lit ''subscription'', sub_id sub)]] s)"
    and "encodes (NackFrame [(lit ''id'', a), (lit ''subscription'', sub_id sub)]) \<Longrightarrow>
      run (nack sub h e) s = (Some (Inr ()), sent c [NackFrame [(lit ''id'', a), (lit ''subscription'', sub_id sub)]] s)"
  using assms by (auto simp: ack_def nack_def run_simps run_maybe_write_frame split: list.splits)

lemma raises_only_safety_net: "raises_only base_exception (run_handler_with_safety_net m)"
  unfolding run_handler_with_safety_net_def handle_def
  by (induction m) (auto simp: logger_def modify_def split: sum.splits)

section \<open>Heart-beats\<close>

lemma run_write_heartbeat:
  assumes "writable c s"
  shows "run (write_heartbeat c) s = (Some (Inr ()), sent c [HeartbeatFrame] s)"
proof -
  have "upd_transport c (accept_bytes [NEWLINE]) s = sent c [HeartbeatFrame] s"
    unfolding sent_def
    by (rule upd_transport_cong)
      (use assms in \<open>simp add: accept_bytes_def next_write_def writable_def wire_heartbeat\<close>)
  with any.write_heartbeat_sends [of s c] assms show ?thesis by (simp add: writable_def)
qed

lemma connected_on_time [simp]: "connected_on c (s\<lparr>n_time := t\<rparr>) = connected_on c s"
  by (simp add: connected_on_def writable_def transport_at_def)

lemma run_send_heartbeats:
  assumes "connected_on c s" "0 < cm_write_retry_attempts self"
  shows "run (send_heartbeats_forever self enter ms n) s =
     (None, (sent c (replicate n HeartbeatFrame) s)\<lparr>n_time := n_time s + of_nat n * max 0 (of_int ms / 1000)\<rparr>)"
  using assms(1)
proof (induction n arbitrary: s)
  case 0
  then show ?case by simp
next
  case (Suc n)
  let ?s1 = "sent c [HeartbeatFrame] s"
  let ?s2 = "?s1\<lparr>n_time := n_time s + max 0 (of_int ms / 1000)\<rparr>"
  have "run (write_heartbeat_reconnecting self enter) s = (Some (Inr ()), ?s1)"
    unfolding write_heartbeat_reconnecting_def
    by (rule run_write_attempts [OF Suc.prems assms(2)])
      (use Suc.prems in \<open>simp add: run_write_heartbeat connected_on_def\<close>)
  moreover have "sent c (replicate n HeartbeatFrame) ?s2 =
      (sent c (HeartbeatFrame # replicate n HeartbeatFrame) s)\<lparr>n_time := n_time ?s2\<rparr>"
    using Suc.prems by (simp add: sent_def upd_transport_def transport_at_def connected_on_def writable_def)
  ultimately show ?case
    using Suc.IH [of ?s2] Suc.prems by (simp add: run_simps sleep_def algebra_simps)
qed

section \<open>Leaving\<close>

text \<open>Steps that write nothing and close nothing.\<close>

definition reads_only :: "'z net_scheme \<Rightarrow> 'z net_scheme \<Rightarrow> bool" where
  "reads_only s s' \<longleftrightarrow>
     net.more s' = net.more s \<and> n_current s' = n_current s \<and>
     (\<forall>c. t_out (transport_at s' c) = t_out (transport_at s c))"

interpretation reads_only: guarantee "\<lambda>_ _. True" reads_only
  by unfold_locales (auto simp: reads_only_def)

lemma reads_only_fields:
  fixes s s' :: "'z subs_scheme"
  assumes "net.more s' = net.more s"
  shows "active_subscriptions s' = active_subscriptions s \<and> active_connection_state s' = active_connection_state s"
  using assms by (cases s; cases s') simp

lemma reads_only_upd:
  "(\<And>t. t_out (f t) = t_out t) \<Longrightarrow> reads_only s (upd_transport c f s)"
  by (auto simp: reads_only_def upd_transport_def transport_at_def nth_list_update)

lemma reads_only_reraise:
  "safe (\<lambda>_ _. True) reads_only m \<Longrightarrow> safe (\<lambda>_ _. True) reads_only (reraise_connection_lost causes m)"
  unfolding reraise_connection_lost_def
  by (intro reads_only.safe_handle) (auto intro: reads_only.safe_Done split: exn.splits)

lemma reads_only_read_frames:
  assumes "\<And>f. safe (\<lambda>_ _. True) reads_only (body f)"
  shows "safe (\<lambda>_ _. True) reads_only (read_frames c body)"
proof -
  have event: "safe (\<lambda>_ _. True) reads_only (read_event c)"
    unfolding read_event_def
    by (intro reads_only.safe_bind reads_only.safe_await reads_only.safe_Act reads_only.safe_Done reads_only_upd) simp
  have deliver: "safe (\<lambda>_ _. True) reads_only (deliver body fs)" for fs
    by (induction fs) (auto intro!: reads_only.safe_bind reads_only.safe_Done assms split: option.splits)
  have loop: "safe (\<lambda>_ _. True) reads_only (read_frames_loop r c n p body)"
    if "safe (\<lambda>_ _. True) reads_only r" for r n p
    by (induction n arbitrary: p)
      (auto intro!: reads_only.safe_bind reads_only.safe_Done reads_only.safe_never reads_only.safe_modify
        reads_only_upd that deliver split: prod.splits option.splits sum.splits)
  have "safe (\<lambda>_ _. True) reads_only (Connection_read c)" "safe (\<lambda>_ _. True) reads_only (WebSocketConnection_read c)"
    by (auto simp: class_defs intro!: reads_only_reraise reads_only.safe_bind reads_only.safe_Done
        reads_only.safe_get event split: option.splits read_event.splits)
  then show ?thesis
    unfolding read_frames_def Connection_read_frames_def WebSocketConnection_read_frames_def
      read_frames_with_def dispatch_def
    by (auto intro!: reads_only.safe_bind reads_only.safe_get loop split: connection_class.splits)
qed

lemma run_unsubscribe:
  fixes s :: "'z subs_scheme"
  assumes "connected_on c s" "encodes (UnsubscribeFrame [(lit ''id'', sub_id sub)])"
  shows "run (unsubscribe sub) s = (Some (Inr ()), (sent c [UnsubscribeFrame [(lit ''id'', sub_id sub)]] s)
    \<lparr>active_subscriptions := delete_by_id (sub_id sub) (active_subscriptions s)\<rparr>)"
proof -
  let ?s = "s\<lparr>active_subscriptions := delete_by_id (sub_id sub) (active_subscriptions s)\<rparr>"
  have "connected_on c ?s"
    using assms(1) by (auto simp: connected_on_def writable_def transport_at_def)
  with run_maybe_write_frame [OF _ assms(2), of c ?s] show ?thesis
    by (simp add: unsubscribe_def run_simps sent_def upd_transport_def transport_at_def)
qed

lemma run_unsubscribe_all:
  fixes s :: "'z subs_scheme"
  assumes "connected_on c s" "\<forall>sub \<in> set subs. encodes (UnsubscribeFrame [(lit ''id'', sub_id sub)])"
  shows "run (for_each unsubscribe subs) s =
    (Some (Inr ()), (sent c (map (\<lambda>sub. UnsubscribeFrame [(lit ''id'', sub_id sub)]) subs) s)
       \<lparr>active_subscriptions := fold (\<lambda>sub. delete_by_id (sub_id sub)) subs (active_subscriptions s)\<rparr>)"
  using assms
proof (induction subs arbitrary: s)
  case (Cons sub subs)
  let ?s = "(sent c [UnsubscribeFrame [(lit ''id'', sub_id sub)]] s)
    \<lparr>active_subscriptions := delete_by_id (sub_id sub) (active_subscriptions s)\<rparr>"
  have "connected_on c (sent c [UnsubscribeFrame [(lit ''id'', sub_id sub)]] s)" using Cons.prems(1) by simp
  then have c: "connected_on c ?s"
    by (auto simp: connected_on_def writable_def transport_at_def)
  have "sent c fs ?s = (sent c (UnsubscribeFrame [(lit ''id'', sub_id sub)] # fs) s)
    \<lparr>active_subscriptions := delete_by_id (sub_id sub) (active_subscriptions s)\<rparr>" for fs
    using Cons.prems(1) by (simp add: sent_def upd_transport_def transport_at_def connected_on_def writable_def)
  then show ?case
    using Cons.IH [OF c] Cons.prems by (simp add: run_bind run_unsubscribe)
qed simp

lemma unsubscribed_from_all:
  assumes "registry_inv a"
  shows "as_subscriptions (fold (\<lambda>sub. delete_by_id (sub_id sub)) (get_all a) a) = []"
    "as_event (fold (\<lambda>sub. delete_by_id (sub_id sub)) (get_all a) a)"
proof -
  let ?b = "fold (\<lambda>sub. delete_by_id (sub_id sub)) (get_all a) a"
  have subs: "as_subscriptions (fold (\<lambda>sub. delete_by_id (sub_id sub)) subs b) =
      filter (\<lambda>(i, _). i \<notin> sub_id ` set subs) (as_subscriptions b)" for subs b
    by (induction subs arbitrary: b) (auto simp: AList.delete_eq case_prod_unfold intro!: filter_cong)
  have "registry_inv (fold (\<lambda>sub. delete_by_id (sub_id sub)) subs b)" if "registry_inv b" for subs b
    using that by (induction subs arbitrary: b) (simp_all add: subscriptions.inv_delete)
  from this [OF assms] have inv: "registry_inv ?b" .
  show "as_subscriptions ?b = []"
    using assms unfolding subs get_all_def by (force simp: registry_inv_def filter_empty_conv)
  with inv show "as_event ?b" by (simp add: registry_inv_def)
qed

lemma take_receipt_ends:
  "ends (suppress [C_TimeoutError] (wait_for (read_frames c take_receipt_frame))) s
     (\<lambda>r s'. reads_only s s' \<and> (\<forall>e. r = Inl e \<longrightarrow> from_connection e))"
proof (rule prompt_safe_ends [where R = "\<lambda>_ _. True"])
  show "prompt (suppress [C_TimeoutError] (wait_for (read_frames c take_receipt_frame)))"
    by (intro prompt_suppress prompt_wait_for cancellable_read_frames) (simp add: take_receipt_frame_def)
  show "raises_only from_connection (suppress [C_TimeoutError] (wait_for (read_frames c take_receipt_frame)))"
    by (intro raises_only_suppress raises_only_wait_for raises_only_read_frames) (simp_all add: take_receipt_frame_def)
  show "safe (\<lambda>_ _. True) reads_only (suppress [C_TimeoutError] (wait_for (read_frames c take_receipt_frame)))"
    unfolding suppress_def
    by (intro reads_only.safe_handle reads_only.safe_wait_for reads_only_read_frames)
      (auto simp: take_receipt_frame_def intro: reads_only.safe_Done split: exn.splits)
qed (auto simp: reads_only_def)

lemma lifespan_exit_ends:
  fixes s :: "'z subs_scheme"
  assumes "connected_on c s" "registry_inv (active_subscriptions s)"
    and "unsubscribes = map (\<lambda>sub. UnsubscribeFrame [(lit ''id'', sub_id sub)]) (get_all (active_subscriptions s))"
    and "disconnect = DisconnectFrame [(lit ''receipt'', n_uuid s (n_uuid_count s))]"
    and "list_all encodes (unsubscribes @ [disconnect])"
  shows "ends (lifespan_exit c params) s (\<lambda>r s'.
    t_out (transport_at s' c) = t_out (transport_at s c) @ map wire (unsubscribes @ [disconnect]) \<and>
    active_connection_state s' = active_connection_state s \<and>
    as_subscriptions (active_subscriptions s') = [] \<and> as_event (active_subscriptions s') \<and>
    (\<forall>e. r = Inl e \<longrightarrow> from_connection e))"
proof -
  let ?a = "fold (\<lambda>sub. delete_by_id (sub_id sub)) (get_all (active_subscriptions s)) (active_subscriptions s)"
  let ?s1 = "(sent c unsubscribes s)\<lparr>active_subscriptions := ?a\<rparr>"
  let ?s2 = "?s1\<lparr>n_uuid_count := Suc (n_uuid_count s)\<rparr>"
  let ?s3 = "sent c [disconnect] ?s2"
  have c: "c < length (n_transports s)" "writable c s"
    using assms(1) by (simp_all add: connected_on_def writable_def)
  have "run unsubscribe_from_all_active_subscriptions s = (Some (Inr ()), ?s1)"
    using run_unsubscribe_all [OF assms(1), of "get_all (active_subscriptions s)"] assms(3,5)
    by (simp add: unsubscribe_from_all_active_subscriptions_def run_simps list_all_iff)
  moreover have "run uuid4 ?s1 = (Some (Inr (n_uuid s (n_uuid_count s))), ?s2)"
    by (simp add: uuid4_def sent_def upd_transport_def)
  moreover have "writable c ?s2"
    using c by (simp add: writable_def sent_def upd_transport_def transport_at_def)
  then have "run (write_frame c disconnect) ?s2 = (Some (Inr ()), ?s3)"
    using assms(5) by (intro run_write_frame) simp_all
  ultimately have exit: "run (lifespan_exit c params) s =
      run (suppress [C_TimeoutError] (wait_for (read_frames c take_receipt_frame))) ?s3"
    by (simp add: lifespan_exit_def run_bind assms(4))
  have out: "t_out (transport_at ?s3 c) = t_out (transport_at s c) @ map wire (unsubscribes @ [disconnect])"
    using c by (simp add: sent_def upd_transport_def transport_at_def)
  have "active_subscriptions ?s3 = ?a" "active_connection_state ?s3 = active_connection_state s"
    by (simp_all add: sent_def upd_transport_def)
  with out unsubscribed_from_all [OF assms(2)] take_receipt_ends [of c ?s3] show ?thesis
    by (auto simp: ends_def exit reads_only_def dest!: reads_only_fields)
qed

lemma open_exists: "t_open (transport_at s c) \<Longrightarrow> c < length (n_transports s)"
  by (simp add: transport_at_def no_transport_def split: if_splits)

lemma closed_transport:
  "t_out (transport_at (upd_transport c (\<lambda>t. t\<lparr>t_open := False\<rparr>) s) c) = t_out (transport_at s c)"
  "\<not> t_open (transport_at (upd_transport c (\<lambda>t. t\<lparr>t_open := False\<rparr>) s) c)"
  "active_connection_state (upd_transport c f s') = active_connection_state s'"
  "active_subscriptions (upd_transport c f s'') = active_subscriptions s''"
  "transport_at (s'\<lparr>active_connection_state := x\<rparr>) d = transport_at s' d"
  by (auto simp: upd_transport_def transport_at_def no_transport_def)

section \<open>Properties\<close>

text \<open>C22. What becomes of a message whose subscription acknowledges automatically. When the handler returns,
  \<open>ACK\<close> is written; when it raises a suppressed exception, \<open>NACK\<close> is written and the callback is
  called; any other exception is passed on with nothing written. The handler may do anything; what
  counts is the state it leaves: the subscription still active and the connection not changed.\<close>

theorem handler_acknowledges:
  fixes s :: "'z subs_scheme"
  assumes "run (uc_handler user n h body) s = (Some r, s1)" "should_handle_ack_nack sub"
    and "connected_on c s1" "contains_by_id (active_subscriptions s1) (sub_id sub)"
    and "map_of h (lit ''ack'') = Some a" "a \<noteq> []" "reconnection_count s1 = e"
    and "d = [(lit ''id'', a), (lit ''subscription'', sub_id sub)]" "encodes (AckFrame d)" "encodes (NackFrame d)"
  shows "run (run_handler user sub n k suppressed h body e) s =
    (case r of
       Inr _ \<Rightarrow> (Some (Inr ()), sent c [AckFrame d] s1)
     | Inl x \<Rightarrow>
         if suppressed x
         then run (uc_on_suppressed_exception user k x h body) (sent c [NackFrame d] s1)
         else (Some (Inl x), s1))"
  using assms run_acknowledge [OF assms(3-7)]
  by (cases r) (auto simp: run_handler_def run_simps)

theorem handler_acknowledges_witness:
  "let s = sample_client quiet_peer; d = [(lit ''id'', lit ''7''), (lit ''subscription'', lit ''s'')] in
   run (run_handler idle_user sample_sub 0 0 (\<lambda>_. True) [(lit ''ack'', lit ''7'')] [] 0) s =
     (Some (Inr ()), sent 0 [AckFrame d] s)"
proof -
  let ?s = "sample_client quiet_peer" and ?d = "[(lit ''id'', lit ''7''), (lit ''subscription'', lit ''s'')]"
  have 1: "run (uc_handler idle_user 0 [(lit ''ack'', lit ''7'')] []) ?s = (Some (Inr ()), ?s)"
      "should_handle_ack_nack sample_sub"
    by (simp_all add: idle_user_def should_handle_ack_nack_def sample_sub_def)
  have 2: "connected_on 0 ?s" "contains_by_id (active_subscriptions ?s) (sub_id sample_sub)"
      "map_of [(lit ''ack'', lit ''7'')] (lit ''ack'') = Some (lit ''7'')" "lit ''7'' \<noteq> []" "reconnection_count ?s = 0"
    by (simp_all add: connected_on_def sample_client_def sample_state_def writable_def sample_simps registry_evals
        sample_sub_def lit_def)
  have 3: "?d = [(lit ''id'', lit ''7''), (lit ''subscription'', sub_id sample_sub)]"
    by (simp add: sample_sub_def)
  have 4: "encodes (AckFrame ?d)" "encodes (NackFrame ?d)"
    by (simp_all add: encodes_encodable encodable_evals)
  show ?thesis
    using handler_acknowledges [OF 1 2 3 4, of 0 "\<lambda>_. True"] by (simp add: Let_def)
qed

text \<open>No exception of a handler gets out of its task: whatever the handler does, and however it is
  interleaved, the task can only end by returning, by being cancelled or by \<open>SystemExit\<close>, which are no instances
  of \<open>Exception\<close>.\<close>

lemma handlers_never_fail: "raises_only base_exception (handler_task user k task)"
  unfolding handler_task_def finally_do_def
  by (intro raises_only_attempt_bind raises_only_safety_net) (simp_all add: modify_def)



text \<open>C35. Heart-beats are paced by the interval that the server wants: on an undisturbed connection \<open>n\<close> rounds
  write \<open>n\<close> heart-beats and take \<open>n\<close> times the interval. In particular a server that wants none (an interval
  of zero) is sent heart-beats one after the other without any time passing.\<close>

theorem heartbeat_pacing:
  assumes "connected_on c s" "0 < cm_write_retry_attempts self"
  shows "\<exists>s'. run (send_heartbeats_forever self enter ms n) s = (None, s') \<and>
    n_time s' = n_time s + of_nat n * max 0 (of_int ms / 1000) \<and>
    t_out (transport_at s' c) = t_out (transport_at s c) @ replicate n [NEWLINE]"
proof -
  have "c < length (n_transports s)" using assms(1) by (simp add: connected_on_def writable_def)
  then show ?thesis
    using run_send_heartbeats [OF assms, of enter ms n]
    by (simp add: sent_def upd_transport_def transport_at_def wire_heartbeat)
qed

theorem heartbeat_pacing_witness:
  "let s = sample_client quiet_peer; self = client_manager (Client_defaults [sample_parameters]) in
   \<exists>s'. run (send_heartbeats_forever self (\<lambda>_ _. never) 0 3) s = (None, s') \<and> n_time s' = 0 \<and>
    t_out (transport_at s' 0) = [[NEWLINE], [NEWLINE], [NEWLINE]]"
proof -
  let ?s = "sample_client quiet_peer" and ?self = "client_manager (Client_defaults [sample_parameters])"
  have 1: "connected_on 0 ?s" "0 < cm_write_retry_attempts ?self" "n_time ?s = 0" "t_out (transport_at ?s 0) = []"
    by (simp_all add: connected_on_def sample_client_def sample_state_def writable_def sample_simps
        client_manager_def Client_defaults_def)
  show ?thesis
    using heartbeat_pacing [OF 1(1,2), of "\<lambda>_ _. never" 0 3] 1(3,4) by (simp add: Let_def eval_nat_numeral)
qed

text \<open>C36. A connection to a server that announces that it will send no heart-beats is never alive: with
  an announced interval of zero \<open>is_alive\<close> is false at once, whatever has just been received.\<close>

theorem silent_server_never_alive:
  assumes "active_connection_state s = Some st" "will_send_interval_ms (acs_server_heartbeat st) = 0"
    and "acs_connected_at st \<le> n_time s"
    and "\<forall>t. t_last_read_time (transport_at s (acs_connection st)) = Some t \<longrightarrow> t \<le> n_time s"
  shows "\<not> client_is_alive self s"
  using assms
  by (cases "t_last_read_time (transport_at s (acs_connection st))")
    (simp_all add: client_is_alive_def acs_is_alive_def not_less)

theorem silent_server_never_alive_witness:
  "\<not> client_is_alive (Client_defaults [sample_parameters])
     ((sample_client quiet_peer)\<lparr>active_connection_state := Some (sample_state\<lparr>acs_server_heartbeat :=
        \<lparr>will_send_interval_ms = 0, want_to_receive_interval_ms = 0\<rparr>\<rparr>)\<rparr>)"
proof -
  let ?st = "sample_state\<lparr>acs_server_heartbeat := \<lparr>will_send_interval_ms = 0, want_to_receive_interval_ms = 0\<rparr>\<rparr>"
  let ?s = "(sample_client quiet_peer)\<lparr>active_connection_state := Some ?st\<rparr>"
  have "acs_connected_at ?st \<le> n_time ?s"
      "\<forall>t. t_last_read_time (transport_at ?s (acs_connection ?st)) = Some t \<longrightarrow> t \<le> n_time ?s"
    by (simp_all add: sample_client_def sample_state_def sample_simps)
  then show ?thesis by (intro silent_server_never_alive [of ?s ?st]) simp_all
qed



end
