(* ===== verification/Listening_Laws.thy ===== *)
theory Listening_Laws
  imports Client_Laws
begin

text \<open>
  The listening task: bytes that arrive on the active connection become frames, and the messages among
  them start handlers.
\<close>

section \<open>Reading with an effect per frame\<close>

text \<open>An update of a connection that writes nothing and closes nothing.\<close>

definition reading :: "(transport \<Rightarrow> transport) \<Rightarrow> bool" where
  "reading g \<longleftrightarrow> (\<forall>t. t_out (g t) = t_out t \<and> t_open (g t) = t_open t \<and> t_writes (g t) = t_writes t \<and>
     t_class (g t) = t_class t \<and> t_close (g t) = t_close t)"

definition output_kept :: "transport list \<Rightarrow> transport list \<Rightarrow> bool" where
  "output_kept = list_all2 (\<lambda>t t'. t_out t' = t_out t \<and> t_open t' = t_open t \<and> t_writes t' = t_writes t \<and>
     t_class t' = t_class t \<and> t_close t' = t_close t)"

lemma output_kept_upd:
  assumes "output_kept ts (n_transports s)" "reading g"
  shows "output_kept ts (n_transports (upd_transport c g s))"
proof (cases "c < length (n_transports s)")
  case True
  with assms show ?thesis
    by (auto simp: output_kept_def reading_def upd_transport_def transport_at_def list_all2_conv_all_nth nth_list_update)
next
  case False
  with assms show ?thesis by (simp add: upd_transport_def list_update_beyond)
qed

lemma output_kept_at:
  assumes "output_kept (n_transports s) (n_transports s')"
  shows "t_out (transport_at s' c) = t_out (transport_at s c)" "t_open (transport_at s' c) = t_open (transport_at s c)"
    "t_writes (transport_at s' c) = t_writes (transport_at s c)" "t_class (transport_at s' c) = t_class (transport_at s c)"
    "t_close (transport_at s' c) = t_close (transport_at s c)" "length (n_transports s') = length (n_transports s)"
  using assms by (auto simp: output_kept_def list_all2_conv_all_nth transport_at_def)

lemma output_keptD:
  assumes "output_kept (n_transports s) (n_transports s')" "writable c s"
  shows "writable c s'" "t_out (transport_at s' c) = t_out (transport_at s c)"
  using assms output_kept_at [OF assms(1)] by (auto simp: writable_def)

lemma run_deliver_invariant:
  assumes "I ds s"
    and step: "\<And>gs f s. prefix (gs @ [f]) (ds @ fs) \<Longrightarrow> I gs s \<Longrightarrow>
      \<exists>s'. run (body f) s = (Some (Inr None), s') \<and> I (gs @ [f]) s' \<and> n_transports s' = n_transports s"
  shows "\<exists>s'. run (deliver body fs) s = (Some (Inr None), s') \<and> I (ds @ fs) s' \<and> n_transports s' = n_transports s"
  using assms
proof (induction fs arbitrary: s ds)
  case (Cons f fs)
  from Cons.prems(2) [of ds f s] Cons.prems(1) obtain s1 where
    s1: "run (body f) s = (Some (Inr None), s1)" "I (ds @ [f]) s1" "n_transports s1 = n_transports s"
    by auto
  from Cons.IH [OF s1(2)] Cons.prems(2) obtain s2 where
    "run (deliver body fs) s1 = (Some (Inr None), s2)" "I ((ds @ [f]) @ fs) s2" "n_transports s2 = n_transports s1"
    by auto
  with s1 show ?case by (auto simp: run_simps)
qed auto

context abstract_connection
begin

text \<open>An invariant over the frames delivered so far that every frame keeps holds of all of them at the end.\<close>

lemma cls_read_delivers:
  fixes s :: "'z net_scheme" and body :: "frame \<Rightarrow> ('z net_scheme, 'r option) coro"
  assumes "feed parse_byte p (concat chunks) = (fs, Inr p')"
    and "t_in (transport_at s c) = map Chunk chunks @ rest" and "[] \<notin> set chunks"
    and "c < length (n_transports s)" "length chunks \<le> n" "I ds s"
    and step: "\<And>gs f s. prefix (gs @ [f]) (ds @ fs) \<Longrightarrow> I gs s \<Longrightarrow>
      \<exists>s'. run (body f) s = (Some (Inr None), s') \<and> I (gs @ [f]) s' \<and> n_transports s' = n_transports s"
    and upd: "\<And>gs g s. I gs s \<Longrightarrow> reading g \<Longrightarrow> I gs (upd_transport c g s)"
  shows "\<exists>s'. run (read_frames_loop (cls_read c) c n p body) s =
               run (read_frames_loop (cls_read c) c (n - length chunks) p' body) s' \<and>
     I (ds @ fs) s' \<and> t_in (transport_at s' c) = rest \<and> t_open (transport_at s' c) = t_open (transport_at s c)"
  using assms(1-7)
proof (induction chunks arbitrary: s n p fs ds)
  case Nil
  then show ?case by auto
next
  case (Cons chunk chunks)
  then obtain m where n: "n = Suc m" "length chunks \<le> m" by (cases n) auto
  from Cons.prems(1) obtain gs p1 hs where
    f1: "feed parse_byte p chunk = (gs, Inr p1)" and
    f2: "feed parse_byte p1 (concat chunks) = (hs, Inr p')" "fs = gs @ hs"
    by (auto simp: feed_append split: prod.splits sum.splits)
  let ?s1 = "upd_transport c (\<lambda>t. t\<lparr>t_in := tl (t_in t)\<rparr>) s"
  let ?s2 = "upd_transport c (\<lambda>t. t\<lparr>t_last_read_time := Some (n_time ?s1)\<rparr>) ?s1"
  have "I ds ?s2" using Cons.prems(6) by (intro upd) (simp_all add: reading_def)
  then obtain s3 where s3: "run (deliver body gs) ?s2 = (Some (Inr None), s3)" "I (ds @ gs) s3"
      "n_transports s3 = n_transports ?s2"
    using run_deliver_invariant [of I ds ?s2 gs body] Cons.prems(7) f2(2) prefix_prefix [of _ "ds @ gs" hs] by auto
  have "run (cls_read c) s = (Some (Inr chunk), ?s1)"
    using Cons.prems by (intro read_chunk) auto
  with s3(1) n f1 have "run (read_frames_loop (cls_read c) c n p body) s =
      run (read_frames_loop (cls_read c) c m p1 body) s3"
    by (simp add: run_simps parse_frames_from_chunk_def)
  moreover have s3_t: "transport_at s3 c = transport_at ?s2 c" "length (n_transports s3) = length (n_transports s)"
    using s3(3) by (simp_all add: transport_at_def)
  moreover obtain s' where "run (read_frames_loop (cls_read c) c m p1 body) s3 =
        run (read_frames_loop (cls_read c) c (m - length chunks) p' body) s'"
      "I ((ds @ gs) @ hs) s'" "t_in (transport_at s' c) = rest" "t_open (transport_at s' c) = t_open (transport_at s3 c)"
    using Cons.IH [OF f2(1) _ _ _ n(2) s3(2)] Cons.prems(2-4,7) f2(2) s3_t by auto
  ultimately show ?case
    using n f2(2) Cons.prems(4) by (intro exI [of _ s']) auto
qed

end

text \<open>The \<open>read\<close> of each class.\<close>

definition class_read :: "connection_class \<Rightarrow> nat \<Rightarrow> ('z net_scheme, bytes) coro" where
  "class_read cls c = (case cls of Connection \<Rightarrow> Connection_read c | WebSocketConnection \<Rightarrow> WebSocketConnection_read c)"

lemma read_frames_until:
  fixes s :: "'z net_scheme" and body :: "frame \<Rightarrow> ('z net_scheme, 'r option) coro"
  assumes "feed parse_byte FrameParser_init (concat chunks) = (fs, Inr p')"
    and "t_in (transport_at s c) = map Chunk chunks @ rest" and "[] \<notin> set chunks"
    and "c < length (n_transports s)" "I [] s"
    and step: "\<And>gs f s. prefix (gs @ [f]) fs \<Longrightarrow> I gs s \<Longrightarrow>
      \<exists>s'. run (body f) s = (Some (Inr None), s') \<and> I (gs @ [f]) s' \<and> n_transports s' = n_transports s"
    and upd: "\<And>gs g s. I gs s \<Longrightarrow> reading g \<Longrightarrow> I gs (upd_transport c g s)"
  shows "\<exists>s'. run (read_frames c body) s =
      run (read_frames_loop (class_read (t_class (transport_at s c)) c) c (Suc (length rest)) p' body) s' \<and>
    I fs s' \<and> t_in (transport_at s' c) = rest \<and> t_open (transport_at s' c) = t_open (transport_at s c)"
proof -
  have step': "\<exists>s'. run (body f) s = (Some (Inr None), s') \<and> I (gs @ [f]) s' \<and> n_transports s' = n_transports s"
    if "prefix (gs @ [f]) ([] @ fs)" "I gs s" for gs f s
    using step that by simp
  have "Suc (length (map Chunk chunks @ rest)) - length chunks = Suc (length rest)" by simp
  then show ?thesis
    using stream.cls_read_delivers [where n = "Suc (length (map Chunk chunks @ rest))", OF assms(1-4) _ assms(5) step' upd]
      websocket.cls_read_delivers [where n = "Suc (length (map Chunk chunks @ rest))", OF assms(1-4) _ assms(5) step' upd]
    unfolding read_frames_class assms(2) class_read_def [symmetric]
    by (cases "t_class (transport_at s c)") (auto simp: class_read_def simp del: read_frames_loop.simps)
qed

lemma read_frames_delivers:
  fixes s :: "'z net_scheme" and body :: "frame \<Rightarrow> ('z net_scheme, 'r option) coro"
  assumes "feed parse_byte FrameParser_init (concat chunks) = (fs, Inr p')"
    and "t_in (transport_at s c) = map Chunk chunks" and "[] \<notin> set chunks"
    and "c < length (n_transports s)" "t_open (transport_at s c)" "I [] s"
    and step: "\<And>gs f s. prefix (gs @ [f]) fs \<Longrightarrow> I gs s \<Longrightarrow>
      \<exists>s'. run (body f) s = (Some (Inr None), s') \<and> I (gs @ [f]) s' \<and> n_transports s' = n_transports s"
    and upd: "\<And>gs g s. I gs s \<Longrightarrow> reading g \<Longrightarrow> I gs (upd_transport c g s)"
  shows "\<exists>s'. run (read_frames c body) s = (None, s') \<and> I fs s'"
proof -
  have t_in: "t_in (transport_at s c) = map Chunk chunks @ []" using assms(2) by simp
  obtain s' where s': "run (read_frames c body) s =
        run (read_frames_loop (class_read (t_class (transport_at s c)) c) c 1 p' body) s'"
      "I fs s'" "t_in (transport_at s' c) = []" "t_open (transport_at s' c)"
    using read_frames_until [OF assms(1) t_in assms(3,4,6) step upd] assms(5) by auto
  have "run (class_read (t_class (transport_at s c)) c) s' = (None, s')"
    using stream.read_waits [OF s'(3,4)] websocket.read_waits [OF s'(3,4)]
    by (simp add: class_read_def split: connection_class.split)
  with s'(1,2) show ?thesis by (auto simp: run_simps)
qed

text \<open>An event that ends the connection, after the chunks.\<close>

lemma read_frames_delivers_lost:
  fixes s :: "'z net_scheme" and body :: "frame \<Rightarrow> ('z net_scheme, 'r option) coro"
  assumes "feed parse_byte FrameParser_init (concat chunks) = (fs, Inr p')"
    and "t_in (transport_at s c) = map Chunk chunks @ e # rest" and "[] \<notin> set chunks"
    and "lost_by (t_class (transport_at s c)) e = Some r"
    and "c < length (n_transports s)" "I [] s"
    and step: "\<And>gs f s. prefix (gs @ [f]) fs \<Longrightarrow> I gs s \<Longrightarrow>
      \<exists>s'. run (body f) s = (Some (Inr None), s') \<and> I (gs @ [f]) s' \<and> n_transports s' = n_transports s"
    and upd: "\<And>gs g s. I gs s \<Longrightarrow> reading g \<Longrightarrow> I gs (upd_transport c g s)"
  shows "\<exists>s'. run (read_frames c body) s = (Some (Inl (ConnectionLostError r)), s') \<and> I fs s'"
proof -
  obtain s' where s': "run (read_frames c body) s =
        run (read_frames_loop (class_read (t_class (transport_at s c)) c) c (Suc (length (e # rest))) p' body) s'"
      "I fs s'" "t_in (transport_at s' c) = e # rest"
    using read_frames_until [OF assms(1-3,5,6) step upd] by auto
  have "run (class_read (t_class (transport_at s c)) c) s' =
      (Some (Inl (ConnectionLostError r)), upd_transport c (\<lambda>t. t\<lparr>t_in := tl (t_in t)\<rparr>) s')"
    using assms(4) s'(3)
    by (cases e; cases "t_class (transport_at s c)")
      (auto simp: class_read_def class_defs run_simps lost_if_def isinstance_any_def split: if_splits)
  moreover have "I fs (upd_transport c (\<lambda>t. t\<lparr>t_in := tl (t_in t)\<rparr>) s')"
    using s'(2) by (rule upd) (simp add: reading_def)
  ultimately show ?thesis using s'(1) by (auto simp: run_simps)
qed

section \<open>Dispatching\<close>

text \<open>The handler that a frame starts: one for a message of an active subscription.\<close>

definition handler_for :: "ActiveSubscriptions \<Rightarrow> nat \<Rightarrow> frame \<Rightarrow> handler_task option" where
  "handler_for subscriptions epoch f =
     (case f of
        MessageFrame h body \<Rightarrow>
          (case map_of h (lit ''subscription'') of
             None \<Rightarrow> None
           | Some i \<Rightarrow>
               map_option (\<lambda>sub. \<lparr>ht_subscription = sub, ht_headers = h, ht_body = body, ht_epoch = epoch, ht_done = False\<rparr>)
                 (get_by_id subscriptions i))
      | _ \<Rightarrow> None)"

definition handlers_for :: "ActiveSubscriptions \<Rightarrow> nat \<Rightarrow> frame list \<Rightarrow> handler_task list" where
  "handlers_for subscriptions epoch fs = List.map_filter (handler_for subscriptions epoch) fs"

lemma handlers_for_snoc:
  "handlers_for subscriptions epoch (fs @ [f]) =
     handlers_for subscriptions epoch fs @ (case handler_for subscriptions epoch f of None \<Rightarrow> [] | Some t \<Rightarrow> [t])"
  by (simp add: handlers_for_def List.map_filter_def split: option.splits)

definition permits_after :: "nat \<Rightarrow> nat option \<Rightarrow> nat option" where
  "permits_after n permits = map_option (\<lambda>p. p - n) permits"

text \<open>What has changed after some frames were dispatched.\<close>

definition dispatched :: "'z client_scheme \<Rightarrow> frame list \<Rightarrow> 'z client_scheme \<Rightarrow> bool" where
  "dispatched s0 fs s \<longleftrightarrow>
     (let started = handlers_for (active_subscriptions s0) (reconnection_count s0) fs in
      handler_tasks s = handler_tasks s0 @ started \<and>
      handler_permits s = permits_after (length started) (handler_permits s0) \<and>
      active_subscriptions s = active_subscriptions s0 \<and> reconnection_count s = reconnection_count s0 \<and>
      active_connection_state s = active_connection_state s0 \<and> listen_done s = listen_done s0 \<and>
      reconnect_lock s = reconnect_lock s0 \<and> n_rounds s = n_rounds s0 \<and> n_time s = n_time s0 \<and>
      active_transactions s = active_transactions s0 \<and> transactions s = transactions s0 \<and> dicts s = dicts s0 \<and>
      output_kept (n_transports s0) (n_transports s))"

lemma dispatched_upd: "dispatched s0 fs s \<Longrightarrow> reading g \<Longrightarrow> dispatched s0 fs (upd_transport c g s)"
  unfolding dispatched_def Let_def
  by (simp add: output_kept_upd) (simp add: upd_transport_def)

lemma run_dispatch_frame:
  fixes s :: "'z client_scheme"
  assumes "dispatched s0 gs s"
    and "well_typed f" "uc_on_error_frame user = Some default_on_error_frame"
    and "\<forall>p. handler_permits s0 = Some p \<longrightarrow>
      length (handlers_for (active_subscriptions s0) (reconnection_count s0) (gs @ [f])) \<le> p"
  shows "\<exists>s'. run (dispatch_frame user f (reconnection_count s0)) s = (Some (Inr ()), s') \<and>
    dispatched s0 (gs @ [f]) s' \<and> n_transports s' = n_transports s"
proof (cases f)
  case (MessageFrame h body)
  then obtain i where i: "map_of h (lit ''subscription'') = Some i"
    using assms(2) by (auto simp: well_typed_def conforms_iff MessageHeaders_def)
  show ?thesis
  proof (cases "get_by_id (active_subscriptions s0) i")
    case None
    with MessageFrame i assms(1) show ?thesis
      by (simp add: dispatch_frame_def header_item_def run_simps dispatched_def Let_def handlers_for_snoc handler_for_def)
  next
    case (Some sub)
    let ?n = "length (handlers_for (active_subscriptions s0) (reconnection_count s0) gs)"
    have "handler_permits s = None \<or> (\<exists>p. handler_permits s0 = Some p \<and> handler_permits s = Some (p - ?n) \<and> ?n < p)"
      using assms(1,4) MessageFrame i Some
      by (cases "handler_permits s0")
        (auto simp: dispatched_def Let_def permits_after_def handlers_for_snoc handler_for_def)
    then show ?thesis
      using MessageFrame i Some assms(1)
      by (auto simp: dispatch_frame_def header_item_def run_simps dispatched_def Let_def handlers_for_snoc handler_for_def
          acquire_permit_def start_handler_def permits_after_def split: option.splits)
  qed
qed (use assms in \<open>auto simp: dispatch_frame_def run_simps dispatched_def Let_def handlers_for_snoc handler_for_def
    default_on_error_frame_def logger_def\<close>)

lemma dispatched_init: "dispatched s [] s"
  by (cases "handler_permits s")
    (simp_all add: dispatched_def handlers_for_def List.map_filter_def permits_after_def output_kept_def list_all2_conv_all_nth)

lemma dispatch_step:
  fixes s :: "'z client_scheme"
  assumes "prefix (gs @ [f]) fs" "dispatched s gs s'" "list_all well_typed fs"
    and "uc_on_error_frame user = Some default_on_error_frame"
    and "\<forall>p. handler_permits s = Some p \<longrightarrow>
      length (handlers_for (active_subscriptions s) (reconnection_count s) fs) \<le> p"
  shows "\<exists>s''. run (consume (dispatch_frame user) (reconnection_count s) f) s' = (Some (Inr None), s'') \<and>
    dispatched s (gs @ [f]) s'' \<and> n_transports s'' = n_transports s'"
proof -
  have "length (handlers_for (active_subscriptions s) (reconnection_count s) (gs @ [f])) \<le>
      length (handlers_for (active_subscriptions s) (reconnection_count s) fs)"
    using assms(1) by (auto simp: prefix_def handlers_for_def List.map_filter_def)
  moreover have "well_typed f" using assms(1,3) by (auto simp: prefix_def)
  ultimately show ?thesis
    using run_dispatch_frame [OF assms(2) _ assms(4), of f] assms(5) by (fastforce simp: consume_def run_simps)
qed

text \<open>Reading from a connection until it waits, and until it is lost.\<close>

lemma run_read_dispatches:
  fixes s :: "'z client_scheme"
  assumes "feed parse_byte FrameParser_init (concat chunks) = (fs, Inr p')" "[] \<notin> set chunks"
    and "c < length (n_transports s)" "list_all well_typed fs" "uc_on_error_frame user = Some default_on_error_frame"
    and "\<forall>p. handler_permits s = Some p \<longrightarrow>
      length (handlers_for (active_subscriptions s) (reconnection_count s) fs) \<le> p"
  shows "t_in (transport_at s c) = map Chunk chunks \<Longrightarrow> t_open (transport_at s c) \<Longrightarrow>
      \<exists>s'. run (read_frames c (consume (dispatch_frame user) (reconnection_count s))) s = (None, s') \<and> dispatched s fs s'"
    and "t_in (transport_at s c) = map Chunk chunks @ e # rest \<Longrightarrow> lost_by (t_class (transport_at s c)) e = Some r \<Longrightarrow>
      \<exists>s'. run (read_frames c (consume (dispatch_frame user) (reconnection_count s))) s =
        (Some (Inl (ConnectionLostError r)), s') \<and> dispatched s fs s'"
proof -
  note step = dispatch_step [OF _ _ assms(4-6)]
  show "\<exists>s'. run (read_frames c (consume (dispatch_frame user) (reconnection_count s))) s = (None, s') \<and> dispatched s fs s'"
    if "t_in (transport_at s c) = map Chunk chunks" "t_open (transport_at s c)"
    by (rule read_frames_delivers [where I = "dispatched s", OF assms(1) that(1) assms(2,3) that(2) dispatched_init])
      (rule step, assumption+, rule dispatched_upd, assumption+)
  show "\<exists>s'. run (read_frames c (consume (dispatch_frame user) (reconnection_count s))) s =
        (Some (Inl (ConnectionLostError r)), s') \<and> dispatched s fs s'"
    if "t_in (transport_at s c) = map Chunk chunks @ e # rest" "lost_by (t_class (transport_at s c)) e = Some r"
    by (rule read_frames_delivers_lost [where I = "dispatched s", OF assms(1) that(1) assms(2) that(2) assms(3) dispatched_init])
      (rule step, assumption+, rule dispatched_upd, assumption+)
qed

lemma feed_chunks_total:
  assumes "fst (feed parse_frames_from_chunk FrameParser_init chunks) = fs"
  shows "\<exists>p. feed parse_byte FrameParser_init (concat chunks) = (fs, Inr p)"
  using parser.feed_total [OF parser_inv_init, of "concat chunks"] assms
  by (auto simp: parse_frames_from_chunk_def feed_chunks)

lemma run_listen_dispatches:
  fixes s :: "'z client_scheme"
  assumes "active_connection_state s = Some st" "c = acs_connection st" "c < length (n_transports s)"
    and "t_open (transport_at s c)" "t_in (transport_at s c) = map Chunk chunks" "[] \<notin> set chunks"
    and "fst (feed parse_frames_from_chunk FrameParser_init chunks) = fs" "list_all well_typed fs"
    and "uc_on_error_frame user = Some default_on_error_frame"
    and "\<forall>p. handler_permits s = Some p \<longrightarrow>
      length (handlers_for (active_subscriptions s) (reconnection_count s) fs) \<le> p"
  shows "\<exists>s'. run (listen_to_frames self rounds user (Suc n)) s = (None, s') \<and> dispatched s fs s'"
proof -
  obtain p where "feed parse_byte FrameParser_init (concat chunks) = (fs, Inr p)"
    using feed_chunks_total [OF assms(7)] by blast
  from run_read_dispatches(1) [OF this assms(6,3,8-10,5,4)] show ?thesis
    using assms(1,2) by (auto simp: listen_to_frames_def get_active_connection_state_def run_simps)
qed

text \<open>A \<open>MESSAGE\<close> frame in two chunks, for examples.\<close>

definition sample_chunks :: "bytes list" where
  "sample_chunks =
     [''MESSAGE'' @ [NEWLINE] @ ''subscription:s'' @ [NEWLINE] @ ''message-id:1'',
      [NEWLINE] @ ''destination:q'' @ [NEWLINE, NEWLINE] @ ''hi'' @ [NULL]]"

definition sample_headers :: headers where
  "sample_headers =
     [(lit ''subscription'', lit ''s''), (lit ''message-id'', lit ''1''), (lit ''destination'', lit ''q'')]"

lemma parse_sample_chunks:
  "fst (feed parse_frames_from_chunk FrameParser_init sample_chunks) = [MessageFrame sample_headers ''hi'']"
  by code_simp

section \<open>Properties\<close>



end
