(* ===== verification/Delivery_Laws.thy ===== *)
theory Delivery_Laws
  imports Listening_Laws
begin

text \<open>
  The way of a message: from the bytes on the connection through its handler to the acknowledgement; and the life of a
  subscription.
\<close>

section \<open>Answering\<close>

text \<open>What the client writes about a message whose handler ends with a given outcome.\<close>

definition answer :: "(nat \<Rightarrow> headers \<Rightarrow> bytes \<Rightarrow> exn + unit) \<Rightarrow> handler_task \<Rightarrow> frame list" where
  "answer outcome t =
     (case (sub_kind (ht_subscription t), map_of (ht_headers t) (lit ''ack'')) of
        (AutoAckSubscription n k suppressed, Some a) \<Rightarrow>
          (let d = [(lit ''id'', a), (lit ''subscription'', sub_id (ht_subscription t))] in
           case outcome n (ht_headers t) (ht_body t) of
             Inr _ \<Rightarrow> [AckFrame d]
           | Inl e \<Rightarrow> if suppressed e then [NackFrame d] else [])
      | _ \<Rightarrow> [])"

text \<open>A message of a subscription with automatic acknowledgement, which can be acknowledged, and whose handler does not
  raise an exception that is not an \<open>Exception\<close>.\<close>

definition answerable :: "(nat \<Rightarrow> headers \<Rightarrow> bytes \<Rightarrow> exn + unit) \<Rightarrow> handler_task \<Rightarrow> bool" where
  "answerable outcome t \<longleftrightarrow>
     should_handle_ack_nack (ht_subscription t) \<and>
     (\<exists>a n k suppressed. map_of (ht_headers t) (lit ''ack'') = Some a \<and> a \<noteq> [] \<and>
        sub_kind (ht_subscription t) = AutoAckSubscription n k suppressed \<and>
        (\<forall>e. outcome n (ht_headers t) (ht_body t) = Inl e \<longrightarrow> suppressed e \<or> \<not> base_exception e)) \<and>
     list_all encodes (answer outcome t)"

text \<open>The user's functions end with the given outcomes and leave the client alone.\<close>

definition plain_user :: "(nat \<Rightarrow> headers \<Rightarrow> bytes \<Rightarrow> exn + unit) \<Rightarrow> 's user_code \<Rightarrow> bool" where
  "plain_user outcome user \<longleftrightarrow>
     (\<forall>n h body s. run (uc_handler user n h body) s = (Some (outcome n h body), s)) \<and>
     (\<forall>k e h body s. run (uc_on_suppressed_exception user k e h body) s = (Some (Inr ()), s))"

lemma log_kept: "\<exists>l. f s = f (s\<lparr>n_log := l\<rparr>)"
  by (rule exI [of _ "n_log s"]) simp

lemma run_handler_task:
  fixes s :: "'z client_scheme"
  assumes "plain_user outcome user" "answerable outcome t"
    and "connected_on c s" "contains_by_id (active_subscriptions s) (sub_id (ht_subscription t))"
    and "reconnection_count s = ht_epoch t"
  shows "\<exists>l. run (handler_task user k t) s =
    (Some (Inr ()), release_handler k ((sent c (answer outcome t) s)\<lparr>n_log := l\<rparr>))"
proof -
  from assms(2) obtain a n j suppressed where
    t: "map_of (ht_headers t) (lit ''ack'') = Some a" "a \<noteq> []" "should_handle_ack_nack (ht_subscription t)"
      "sub_kind (ht_subscription t) = AutoAckSubscription n j suppressed"
      "\<And>e. outcome n (ht_headers t) (ht_body t) = Inl e \<Longrightarrow> suppressed e \<or> \<not> base_exception e"
      "list_all encodes (answer outcome t)"
    unfolding answerable_def by blast
  note answers = run_acknowledge [OF assms(3,4) t(1,2) assms(5)]
  show ?thesis
    using t assms(1) answers
    by (cases "outcome n (ht_headers t) (ht_body t)")
      (auto simp: handler_task_def handler_coro_def run_handler_def run_handler_with_safety_net_def plain_user_def
        answer_def run_simps logger_def Let_def intro: log_kept)
qed

text \<open>The handlers run one after the other; \<open>k\<close> is the number of the first.\<close>

definition run_handlers :: "'z client_scheme user_code \<Rightarrow> nat \<Rightarrow> handler_task list \<Rightarrow> ('z client_scheme, unit) coro" where
  "run_handlers user k ts = for_each (\<lambda>(j, t). handler_task user j t) (enumerate k ts)"

lemma released_fields:
  fixes s :: "'z client_scheme"
  shows "active_subscriptions (release_handler k ((sent c fs s)\<lparr>n_log := l\<rparr>)) = active_subscriptions s"
    "reconnection_count (release_handler k ((sent c fs s)\<lparr>n_log := l\<rparr>)) = reconnection_count s"
    "handler_permits (release_handler k ((sent c fs s)\<lparr>n_log := l\<rparr>)) = map_option Suc (handler_permits s)"
    "handler_tasks (release_handler k ((sent c fs s)\<lparr>n_log := l\<rparr>)) =
       (handler_tasks s)[k := (handler_tasks s ! k)\<lparr>ht_done := True\<rparr>]"
    "connected_on c (release_handler k ((sent c fs s)\<lparr>n_log := l\<rparr>)) \<longleftrightarrow> connected_on c s"
    "connected_on c s \<Longrightarrow> t_out (transport_at (release_handler k ((sent c fs s)\<lparr>n_log := l\<rparr>)) c) =
       t_out (transport_at s c) @ map wire fs"
  by (simp_all add: release_handler_def sent_def upd_transport_def connected_on_def writable_def transport_at_def)

lemma run_handlers_answers:
  fixes s :: "'z client_scheme"
  assumes "plain_user outcome user" "connected_on c s" "k + length ts \<le> length (handler_tasks s)"
    and "\<forall>t \<in> set ts. answerable outcome t \<and> ht_epoch t = reconnection_count s \<and>
      contains_by_id (active_subscriptions s) (sub_id (ht_subscription t))"
  shows "\<exists>s'. run (run_handlers user k ts) s = (Some (Inr ()), s') \<and>
    t_out (transport_at s' c) = t_out (transport_at s c) @ map wire (concat (map (answer outcome) ts)) \<and>
    handler_permits s' = map_option (\<lambda>p. p + length ts) (handler_permits s) \<and>
    handler_tasks s' = take k (handler_tasks s) @
      map (\<lambda>t. t\<lparr>ht_done := True\<rparr>) (take (length ts) (drop k (handler_tasks s))) @
      drop (k + length ts) (handler_tasks s)"
  using assms(2-4)
proof (induction ts arbitrary: s k)
  case Nil
  then show ?case by (simp add: run_handlers_def option.map_ident)
next
  case (Cons t ts)
  obtain l where r: "run (handler_task user k t) s =
      (Some (Inr ()), release_handler k ((sent c (answer outcome t) s)\<lparr>n_log := l\<rparr>))" (is "_ = (_, ?s1)")
    using run_handler_task [OF assms(1), of t c s k] Cons.prems by auto
  from Cons.IH [of ?s1 "Suc k"] Cons.prems obtain s' where
    s': "run (run_handlers user (Suc k) ts) ?s1 = (Some (Inr ()), s')"
      "t_out (transport_at s' c) = t_out (transport_at ?s1 c) @ map wire (concat (map (answer outcome) ts))"
      "handler_permits s' = map_option (\<lambda>p. p + length ts) (handler_permits ?s1)"
      "handler_tasks s' = take (Suc k) (handler_tasks ?s1) @
        map (\<lambda>t. t\<lparr>ht_done := True\<rparr>) (take (length ts) (drop (Suc k) (handler_tasks ?s1))) @
        drop (Suc k + length ts) (handler_tasks ?s1)"
    by (auto simp: released_fields)
  have k: "k < length (handler_tasks s)" using Cons.prems(2) by simp
  have "run (run_handlers user k (t # ts)) s = (Some (Inr ()), s')"
    using r s'(1) by (simp add: run_handlers_def run_simps)
  moreover have "handler_permits s' = map_option (\<lambda>p. p + length (t # ts)) (handler_permits s)"
    using s'(3) by (simp add: released_fields option.map_comp comp_def)
  moreover have "handler_tasks s' = take k (handler_tasks s) @
      map (\<lambda>t. t\<lparr>ht_done := True\<rparr>) (take (length (t # ts)) (drop k (handler_tasks s))) @
      drop (k + length (t # ts)) (handler_tasks s)"
    using s'(4) k by (simp add: released_fields take_Suc_conv_app_nth drop_update_cancel Cons_nth_drop_Suc [symmetric])
  ultimately show ?case
    using s'(2) Cons.prems(1) by (intro exI [of _ s']) (simp add: released_fields)
qed

lemma started_active:
  assumes "t \<in> set (handlers_for a e fs)" "registry_inv a"
  shows "contains_by_id a (sub_id (ht_subscription t))" "ht_epoch t = e" "\<not> ht_done t"
proof -
  from assms(1) obtain f where "handler_for a e f = Some t"
    by (auto simp: handlers_for_def List.map_filter_def)
  then obtain i sub where t: "get_by_id a i = Some sub" "ht_subscription t = sub" "ht_epoch t = e" "\<not> ht_done t"
    by (auto simp: handler_for_def split: frame.splits option.splits)
  then have "(i, sub) \<in> set (as_subscriptions a)" by (auto simp: get_by_id_def dest: map_of_SomeD)
  then have "sub_id sub = i" using assms(2) by (auto simp: registry_inv_def)
  with t show "contains_by_id a (sub_id (ht_subscription t))" "ht_epoch t = e" "\<not> ht_done t"
    by (auto simp: contains_by_id_def get_by_id_def dest: map_of_SomeD intro: rev_image_eqI)
qed

text \<open>Two \<open>MESSAGE\<close> frames in three chunks, and a user whose handler raises for one of them, for examples.\<close>

definition auto_sub :: subscription where
  "auto_sub = sample_sub\<lparr>sub_kind := AutoAckSubscription 0 0 (\<lambda>_. True)\<rparr>"

definition two_messages :: "bytes list" where
  "two_messages =
     [''MESSAGE'' @ [NEWLINE] @ ''subscription:s'' @ [NEWLINE] @ ''message-id:1'' @ [NEWLINE] @ ''destination:q'',
      [NEWLINE] @ ''ack:7'' @ [NEWLINE, NEWLINE] @ ''hi'' @ [NULL] @ ''MESSAGE'' @ [NEWLINE] @ ''subscription:s'',
      [NEWLINE] @ ''message-id:2'' @ [NEWLINE] @ ''destination:q'' @ [NEWLINE] @ ''ack:8'' @ [NEWLINE, NEWLINE] @ ''no'' @ [NULL]]"

definition ack_headers :: "string \<Rightarrow> string \<Rightarrow> headers" where
  "ack_headers i a =
     [(lit ''subscription'', lit ''s''), (lit ''message-id'', lit i), (lit ''destination'', lit ''q''), (lit ''ack'', lit a)]"

definition picky_outcome :: "nat \<Rightarrow> headers \<Rightarrow> bytes \<Rightarrow> exn + unit" where
  "picky_outcome n h body = (if body = ''hi'' then Inr () else Inl (Raised (UserException 0)))"

definition picky_user :: "'z client_scheme user_code" where
  "picky_user = idle_user\<lparr>uc_handler := \<lambda>n h body. Done (picky_outcome n h body),
     uc_on_error_frame := Some default_on_error_frame\<rparr>"

lemma parse_two_messages:
  "fst (feed parse_frames_from_chunk FrameParser_init two_messages) =
    [MessageFrame (ack_headers ''1'' ''7'') ''hi'', MessageFrame (ack_headers ''2'' ''8'') ''no'']"
  by code_simp

section \<open>Subscriptions\<close>

lemma subscribe_frame_headers:
  "\<exists>d. subscribe_frame sub = SubscribeFrame d \<and> map_of d = (map_of (case sub_headers sub of None \<Rightarrow> [] | Some h \<Rightarrow> h))
     (lit ''id'' \<mapsto> sub_id sub, lit ''destination'' \<mapsto> sub_destination sub, lit ''ack'' \<mapsto> ack_str (sub_ack sub))"
  by (auto simp: subscribe_frame_def SubscribeFrame_build_def dict_laws fun_eq_iff split: option.splits)

lemma run_client_subscribe:
  fixes s :: "'z client_scheme"
  assumes "connected_on c s" "0 < clt_write_retry_attempts self" "encodes (subscribe_frame sub)"
    and "sub = \<lparr>sub_id = n_uuid s (n_uuid_count s), sub_destination = destination, sub_headers = headers, sub_ack = mode,
                sub_kind = kind\<rparr>"
  shows "run (client_subscribe self rounds destination headers mode kind) s =
    (Some (Inr sub), (sent c [subscribe_frame sub] (s\<lparr>n_uuid_count := Suc (n_uuid_count s)\<rparr>))
       \<lparr>active_subscriptions := add sub (active_subscriptions s)\<rparr>)"
proof -
  have "connected_on c (s\<lparr>n_uuid_count := Suc (n_uuid_count s)\<rparr>)"
    using assms(1) by (auto simp: connected_on_def writable_def transport_at_def)
  from run_write_frame_reconnecting [OF this _ assms(3), of "client_manager self" "client_enter self rounds"] assms(2)
  show ?thesis
    by (simp add: client_subscribe_def uuid4_def subscribe_def run_simps client_manager_def assms(4) Let_def)
qed

lemma run_ack_inactive:
  fixes s :: "'z subs_scheme"
  assumes "get_by_id (active_subscriptions s) (sub_id sub) = None" "map_of h (lit ''message-id'') \<noteq> None"
  shows "\<exists>l. run (ack sub h e) s = (Some (Inr ()), s\<lparr>n_log := l\<rparr>)" "\<exists>l. run (nack sub h e) s = (Some (Inr ()), s\<lparr>n_log := l\<rparr>)"
proof -
  obtain m where m: "map_of h (lit ''message-id'') = Some m" using assms(2) by blast
  have "\<not> contains_by_id (active_subscriptions s) (sub_id sub)"
    using assms(1) by (simp add: get_by_id_def contains_by_id_def map_of_eq_None_iff)
  with m show "\<exists>l. run (ack sub h e) s = (Some (Inr ()), s\<lparr>n_log := l\<rparr>)" "\<exists>l. run (nack sub h e) s = (Some (Inr ()), s\<lparr>n_log := l\<rparr>)"
    by (auto simp: ack_def nack_def log_message_id_def logger_def run_simps)
qed

section \<open>Properties\<close>

text \<open>C9. From bytes to acknowledgements. The bytes that have arrived on the active connection are parsed, every \<open>MESSAGE\<close> of
  an active subscription with automatic acknowledgement starts its handler, and once the handlers have run, one
  after the other, the client has written one answer per message on this connection, in order: \<open>ACK\<close> when the handler
  returned, \<open>NACK\<close> when it raised a suppressed exception, nothing when it raised another \<open>Exception\<close>, which stops
  neither its task nor the others. All permits of the semaphore are back and all started tasks are
  done. The user's functions are arbitrary but for leaving the client's state alone.\<close>

theorem messages_acknowledged:
  fixes s :: "'z client_scheme"
  assumes "active_connection_state s = Some st" "c = acs_connection st" "writable c s" "registry_inv (active_subscriptions s)"
    and "t_in (transport_at s c) = map Chunk chunks" "[] \<notin> set chunks"
    and "fst (feed parse_frames_from_chunk FrameParser_init chunks) = fs" "list_all well_typed fs"
    and "uc_on_error_frame user = Some default_on_error_frame" "plain_user outcome user"
    and "started = handlers_for (active_subscriptions s) (reconnection_count s) fs" "list_all (answerable outcome) started"
    and "\<forall>p. handler_permits s = Some p \<longrightarrow> length started \<le> p"
  shows "\<exists>s' s''. run (listen_to_frames self rounds user (Suc n)) s = (None, s') \<and>
    run (run_handlers user (length (handler_tasks s)) started) s' = (Some (Inr ()), s'') \<and>
    t_out (transport_at s'' c) = t_out (transport_at s c) @ map wire (concat (map (answer outcome) started)) \<and>
    handler_permits s'' = handler_permits s \<and>
    handler_tasks s'' = handler_tasks s @ map (\<lambda>t. t\<lparr>ht_done := True\<rparr>) started"
proof -
  have c: "c < length (n_transports s)" "t_open (transport_at s c)" using assms(3) by (simp_all add: writable_def)
  obtain s' where s': "run (listen_to_frames self rounds user (Suc n)) s = (None, s')" "dispatched s fs s'"
    using run_listen_dispatches [OF assms(1,2) c assms(5-9), of self rounds n] assms(11,13) by auto
  have d: "handler_tasks s' = handler_tasks s @ started" "handler_permits s' = permits_after (length started) (handler_permits s)"
    "active_subscriptions s' = active_subscriptions s" "reconnection_count s' = reconnection_count s"
    "active_connection_state s' = active_connection_state s" "output_kept (n_transports s) (n_transports s')"
    using s'(2) assms(11) by (simp_all add: dispatched_def Let_def)
  have "connected_on c s'"
    using output_keptD(1) [OF d(6) assms(3)] d(5) assms(1,2) by (simp add: connected_on_def)
  then obtain s'' where
    "run (run_handlers user (length (handler_tasks s)) started) s' = (Some (Inr ()), s'')"
    "t_out (transport_at s'' c) = t_out (transport_at s' c) @ map wire (concat (map (answer outcome) started))"
    "handler_permits s'' = map_option (\<lambda>p. p + length started) (handler_permits s')"
    "handler_tasks s'' = take (length (handler_tasks s)) (handler_tasks s') @
      map (\<lambda>t. t\<lparr>ht_done := True\<rparr>) (take (length started) (drop (length (handler_tasks s)) (handler_tasks s'))) @
      drop (length (handler_tasks s) + length started) (handler_tasks s')"
    using run_handlers_answers [OF assms(10), of c s' "length (handler_tasks s)" started] assms(4,11,12) d
    by (auto simp: list_all_iff dest: started_active)
  moreover have "map_option (\<lambda>p. p + length started) (handler_permits s') = handler_permits s"
    using d(2) assms(13) by (cases "handler_permits s") (auto simp: permits_after_def)
  ultimately show ?thesis
    using s'(1) d(1) output_keptD(2) [OF d(6) assms(3)] by (intro exI [of _ s'] exI [of _ s'']) simp
qed

theorem messages_acknowledged_witness:
  "let s = (sample_client (quiet_peer\<lparr>peer_reads := map Chunk two_messages\<rparr>))\<lparr>active_subscriptions := add auto_sub ActiveSubscriptions_init\<rparr>;
       tasks = [\<lparr>ht_subscription = auto_sub, ht_headers = ack_headers ''1'' ''7'', ht_body = ''hi'', ht_epoch = 0, ht_done = False\<rparr>,
                \<lparr>ht_subscription = auto_sub, ht_headers = ack_headers ''2'' ''8'', ht_body = ''no'', ht_epoch = 0, ht_done = False\<rparr>] in
   \<exists>s' s''. run (listen_to_frames (Client_defaults [sample_parameters]) 9 picky_user 1) s = (None, s') \<and>
     run (run_handlers picky_user 0 tasks) s' = (Some (Inr ()), s'') \<and>
     t_out (transport_at s'' 0) =
       [wire (AckFrame [(lit ''id'', lit ''7''), (lit ''subscription'', lit ''s'')]),
        wire (NackFrame [(lit ''id'', lit ''8''), (lit ''subscription'', lit ''s'')])] \<and>
     handler_permits s'' = Some 100"
proof -
  let ?s = "(sample_client (quiet_peer\<lparr>peer_reads := map Chunk two_messages\<rparr>))\<lparr>active_subscriptions := add auto_sub ActiveSubscriptions_init\<rparr>"
  let ?fs = "[MessageFrame (ack_headers ''1'' ''7'') ''hi'', MessageFrame (ack_headers ''2'' ''8'') ''no'']"
  let ?t1 = "\<lparr>ht_subscription = auto_sub, ht_headers = ack_headers ''1'' ''7'', ht_body = ''hi'', ht_epoch = 0, ht_done = False\<rparr>"
  let ?t2 = "\<lparr>ht_subscription = auto_sub, ht_headers = ack_headers ''2'' ''8'', ht_body = ''no'', ht_epoch = 0, ht_done = False\<rparr>"
  have 1: "active_connection_state ?s = Some sample_state" "0 = acs_connection sample_state" "writable 0 ?s"
      "registry_inv (active_subscriptions ?s)" "t_in (transport_at ?s 0) = map Chunk two_messages"
    by (simp_all add: sample_client_def sample_state_def sample_simps writable_def subscriptions.inv_insert subscriptions.inv_empty)
  have 2: "[] \<notin> set two_messages" by (simp add: two_messages_def)
  have 3: "list_all well_typed ?fs"
    by (simp add: well_typed_def conforms_iff MessageHeaders_def ack_headers_def lit_def)
  have 4: "uc_on_error_frame (picky_user :: client user_code) = Some default_on_error_frame" by (simp add: picky_user_def)
  have 5: "plain_user picky_outcome (picky_user :: client user_code)"
    by (simp add: plain_user_def picky_user_def idle_user_def)
  have 6: "[?t1, ?t2] = handlers_for (active_subscriptions ?s) (reconnection_count ?s) ?fs"
    by (simp add: handlers_for_def handler_for_def List.map_filter_def ack_headers_def lit_def sample_client_def registry_evals auto_sub_def sample_sub_def get_by_id_def)
  have a: "answer picky_outcome ?t1 = [AckFrame [(lit ''id'', lit ''7''), (lit ''subscription'', lit ''s'')]]"
      "answer picky_outcome ?t2 = [NackFrame [(lit ''id'', lit ''8''), (lit ''subscription'', lit ''s'')]]"
    by (simp_all add: answer_def picky_outcome_def ack_headers_def auto_sub_def sample_sub_def lit_def)
  have 7: "list_all (answerable picky_outcome) [?t1, ?t2]"
    by (simp add: answerable_def a encodes_encodable encodable_evals)
      (simp add: should_handle_ack_nack_def auto_sub_def sample_sub_def ack_headers_def lit_def picky_outcome_def)
  have 8: "handler_permits ?s = Some 100" "handler_tasks ?s = []" "t_out (transport_at ?s 0) = []"
    by (simp_all add: sample_client_def sample_simps)
  show ?thesis
    using messages_acknowledged [OF 1 2 parse_two_messages 3 4 5 6 7, of "Client_defaults [sample_parameters]" 9 0] 8
    unfolding Let_def by (auto simp: a)
qed

text \<open>C10. The life of a subscription. On an undisturbed connection \<open>subscribe\<close> writes \<open>SUBSCRIBE\<close> with a fresh
  identifier, the destination and the mode of acknowledgement, which the user's headers cannot override, and registers the
  subscription; from then on its messages start handlers. \<open>unsubscribe\<close> writes \<open>UNSUBSCRIBE\<close> with this identifier and
  restores the registry: messages that still arrive start no handler, and acknowledging one that is
  still being handled writes nothing.\<close>

theorem subscription_lifecycle:
  fixes s :: "'z client_scheme"
  assumes "connected_on c s" "registry_inv (active_subscriptions s)" "0 < clt_write_retry_attempts self"
    and "i = n_uuid s (n_uuid_count s)" "get_by_id (active_subscriptions s) i = None"
    and "sub = \<lparr>sub_id = i, sub_destination = destination, sub_headers = headers, sub_ack = mode, sub_kind = kind\<rparr>"
    and "encodes (subscribe_frame sub)" "encodes (UnsubscribeFrame [(lit ''id'', i)])"
  shows "\<exists>d s1 s2. run (client_subscribe self rounds destination headers mode kind) s = (Some (Inr sub), s1) \<and>
    t_out (transport_at s1 c) = t_out (transport_at s c) @ [wire (SubscribeFrame d)] \<and>
    map_of d = (map_of (case headers of None \<Rightarrow> [] | Some h \<Rightarrow> h))
      (lit ''id'' \<mapsto> i, lit ''destination'' \<mapsto> destination, lit ''ack'' \<mapsto> ack_str mode) \<and>
    (\<forall>h body e. map_of h (lit ''subscription'') = Some i \<longrightarrow>
       handler_for (active_subscriptions s1) e (MessageFrame h body) =
         Some \<lparr>ht_subscription = sub, ht_headers = h, ht_body = body, ht_epoch = e, ht_done = False\<rparr>) \<and>
    run (unsubscribe sub) s1 = (Some (Inr ()), s2) \<and>
    t_out (transport_at s2 c) = t_out (transport_at s1 c) @ [wire (UnsubscribeFrame [(lit ''id'', i)])] \<and>
    get_by_id (active_subscriptions s2) = get_by_id (active_subscriptions s) \<and>
    (\<forall>h body e. map_of h (lit ''subscription'') = Some i \<longrightarrow>
       handler_for (active_subscriptions s2) e (MessageFrame h body) = None) \<and>
    (\<forall>h e. map_of h (lit ''message-id'') \<noteq> None \<longrightarrow>
       (\<exists>l. run (ack sub h e) s2 = (Some (Inr ()), s2\<lparr>n_log := l\<rparr>)) \<and>
       (\<exists>l. run (nack sub h e) s2 = (Some (Inr ()), s2\<lparr>n_log := l\<rparr>)))"
proof -
  let ?s1 = "(sent c [subscribe_frame sub] (s\<lparr>n_uuid_count := Suc (n_uuid_count s)\<rparr>))
    \<lparr>active_subscriptions := add sub (active_subscriptions s)\<rparr>"
  let ?s2 = "(sent c [UnsubscribeFrame [(lit ''id'', i)]] ?s1)
    \<lparr>active_subscriptions := delete_by_id i (active_subscriptions ?s1)\<rparr>"
  obtain d where d: "subscribe_frame sub = SubscribeFrame d"
      "map_of d = (map_of (case headers of None \<Rightarrow> [] | Some h \<Rightarrow> h))
        (lit ''id'' \<mapsto> i, lit ''destination'' \<mapsto> destination, lit ''ack'' \<mapsto> ack_str mode)"
    using subscribe_frame_headers [of sub] assms(6) by auto
  have 1: "run (client_subscribe self rounds destination headers mode kind) s = (Some (Inr sub), ?s1)"
    using run_client_subscribe [OF assms(1,3,7)] assms(4,6) by blast
  have c: "connected_on c ?s1" "c < length (n_transports s)"
    using assms(1) by (auto simp: connected_on_def writable_def sent_def upd_transport_def transport_at_def)
  have 2: "run (unsubscribe sub) ?s1 = (Some (Inr ()), ?s2)"
    using run_unsubscribe [OF c(1), of sub] assms(6,8) by simp
  have out: "t_out (transport_at ?s1 c) = t_out (transport_at s c) @ [wire (SubscribeFrame d)]"
      "t_out (transport_at ?s2 c) = t_out (transport_at ?s1 c) @ [wire (UnsubscribeFrame [(lit ''id'', i)])]"
    using c(2) d(1) by (simp_all add: sent_def upd_transport_def transport_at_def)
  have look: "get_by_id (active_subscriptions ?s1) = (get_by_id (active_subscriptions s))(i \<mapsto> sub)"
      "get_by_id (active_subscriptions ?s2) = get_by_id (active_subscriptions s)"
    using subscriptions.lookup_insert [OF assms(2), of sub] assms(5,6)
      subscriptions.lookup_delete [OF subscriptions.inv_insert [OF assms(2), of sub], of i]
    by (simp_all add: fun_upd_idem_iff)
  have gone: "get_by_id (active_subscriptions ?s2) (sub_id sub) = None" using look(2) assms(5,6) by simp
  have handled: "handler_for (active_subscriptions ?s1) e (MessageFrame h body) =
        Some \<lparr>ht_subscription = sub, ht_headers = h, ht_body = body, ht_epoch = e, ht_done = False\<rparr>"
      "handler_for (active_subscriptions ?s2) e (MessageFrame h body) = None"
    if "map_of h (lit ''subscription'') = Some i" for h body e
    unfolding handler_for_def frame.case that option.case look by (simp_all add: assms(5))
  show ?thesis
    by (rule exI [of _ d], rule exI [of _ ?s1], rule exI [of _ ?s2])
      (intro conjI allI impI 1 out d(2) 2 look(2) run_ack_inactive [OF gone] handled; assumption)
qed

theorem subscription_lifecycle_witness:
  "let s = sample_client quiet_peer; i = lit ''0'';
       sub = \<lparr>sub_id = i, sub_destination = lit ''q'', sub_headers = Some [(lit ''id'', lit ''mine'')], sub_ack = Client,
              sub_kind = ManualAckSubscription 0\<rparr> in
   \<exists>d s1 s2. run (client_subscribe (Client_defaults [sample_parameters]) 9 (lit ''q'') (Some [(lit ''id'', lit ''mine'')]) Client
       (ManualAckSubscription 0)) s = (Some (Inr sub), s1) \<and>
     t_out (transport_at s1 0) = [wire (SubscribeFrame d)] \<and> map_of d (lit ''id'') = Some i \<and>
     run (unsubscribe sub) s1 = (Some (Inr ()), s2) \<and>
     t_out (transport_at s2 0) = [wire (SubscribeFrame d), wire (UnsubscribeFrame [(lit ''id'', i)])]"
proof -
  let ?s = "sample_client quiet_peer" and ?i = "lit ''0''" and ?h = "Some [(lit ''id'', lit ''mine'')]"
  let ?sub = "\<lparr>sub_id = ?i, sub_destination = lit ''q'', sub_headers = ?h, sub_ack = Client, sub_kind = ManualAckSubscription 0\<rparr>"
  have 1: "connected_on 0 ?s" "registry_inv (active_subscriptions ?s)" "0 < clt_write_retry_attempts (Client_defaults [sample_parameters])"
    by (simp_all add: connected_on_def sample_client_def sample_state_def writable_def sample_simps Client_defaults_def
        subscriptions.inv_insert subscriptions.inv_empty)
  have 2: "?i = n_uuid ?s (n_uuid_count ?s)" "get_by_id (active_subscriptions ?s) ?i = None"
    by (simp_all add: sample_client_def str_nat.simps lit_def registry_evals sample_sub_def get_by_id_def)
  have 3: "encodes (subscribe_frame ?sub)" "encodes (UnsubscribeFrame [(lit ''id'', ?i)])"
    by (simp_all add: subscribe_frame_def SubscribeFrame_build_def encodes_encodable encodable_evals dict_update_def)
  have 4: "t_out (transport_at ?s 0) = []" by (simp add: sample_client_def sample_simps)
  obtain d s1 s2 where
    r: "run (client_subscribe (Client_defaults [sample_parameters]) 9 (lit ''q'') ?h Client (ManualAckSubscription 0)) ?s = (Some (Inr ?sub), s1)"
      "t_out (transport_at s1 0) = t_out (transport_at ?s 0) @ [wire (SubscribeFrame d)]"
      "map_of d = (map_of (case ?h of None \<Rightarrow> [] | Some h \<Rightarrow> h))
        (lit ''id'' \<mapsto> ?i, lit ''destination'' \<mapsto> lit ''q'', lit ''ack'' \<mapsto> ack_str Client)"
      "run (unsubscribe ?sub) s1 = (Some (Inr ()), s2)"
      "t_out (transport_at s2 0) = t_out (transport_at s1 0) @ [wire (UnsubscribeFrame [(lit ''id'', ?i)])]"
    using subscription_lifecycle [OF 1 2 refl 3, of 9] by (elim exE conjE)
  have "map_of d (lit ''id'') = Some ?i" by (simp add: r(3) lit_def)
  with r(1,2,4,5) 4 show ?thesis unfolding Let_def by auto
qed

end
