(* ===== verification/Resume_Laws.thy ===== *)
theory Resume_Laws
  imports Listening_Laws Reconnect_Laws
begin

text \<open>
  Losing a connection and coming back: how a connection is given up, by the listening task or after a silence,
  how a new one is opened in its place, and that listening goes on there.
\<close>

section \<open>Losing the connection\<close>

lemma run_close:
  "t_close (transport_at s c) = None \<Longrightarrow>
   run (close c) s = (Some (Inr ()), upd_transport c (\<lambda>t. t\<lparr>t_open := False\<rparr>) s)"
  by (cases "t_class (transport_at s c)")
    (auto simp: close_def dispatch_def class_defs suppress_def run_simps transport_at_def upd_transport_def)

text \<open>The state after the active connection was given up.\<close>

definition discarded :: "nat \<Rightarrow> 'z manager_scheme \<Rightarrow> 'z manager_scheme" where
  "discarded c s = upd_transport c (\<lambda>t. t\<lparr>t_open := False\<rparr>)
     (s\<lparr>n_log := n_log s @ [(Warning, ''connection lost'')], active_connection_state := None,
        reconnection_count := Suc (reconnection_count s)\<rparr>)"

lemma run_discard:
  assumes "active_connection_state s = Some st" "t_close (transport_at s (acs_connection st)) = None"
  shows "run (discard_failed_connection_state st r) s = (Some (Inr ()), discarded (acs_connection st) s)"
proof -
  let ?s = "s\<lparr>n_log := n_log s @ [(Warning, ''connection lost'')], active_connection_state := None,
        reconnection_count := Suc (reconnection_count s)\<rparr>"
  have "t_close (transport_at ?s (acs_connection st)) = None" using assms(2) by (auto simp: transport_at_def split: if_splits)
  from run_close [OF this] assms(1) show ?thesis
    by (simp add: discard_failed_connection_state_def is_active_def logger_def run_simps discarded_def)
qed

lemma discarded_fields [simp]:
  "active_connection_state (discarded c s) = None" "reconnection_count (discarded c s) = Suc (reconnection_count s)"
  "reconnect_lock (discarded c s) = reconnect_lock s" "n_rounds (discarded c s) = n_rounds s" "n_time (discarded c s) = n_time s"
  "length (n_transports (discarded c s)) = length (n_transports s)"
  by (simp_all add: discarded_def upd_transport_def)

lemma discarded_client_fields [simp]:
  "active_subscriptions (discarded c s) = active_subscriptions s"
  "active_transactions (discarded c s') = active_transactions s'"
  "transactions (discarded c s') = transactions s'" "dicts (discarded c s') = dicts s'"
  "handler_tasks (discarded c s'') = handler_tasks s''" "handler_permits (discarded c s'') = handler_permits s''"
  "listen_done (discarded c s'') = listen_done s''"
  by (simp_all add: discarded_def upd_transport_def)

lemma discarded_closes: "c < length (n_transports s) \<Longrightarrow> \<not> t_open (transport_at (discarded c s) c)"
  by (simp add: discarded_def)

section \<open>Connecting again\<close>

lemma run_create_opened:
  assumes "valid_address (cm_connection_class self) server"
  shows "\<exists>address. run (create_connection_to_one_server self server (Opened p)) s =
    (Some (Inr (Some (length (n_transports s), server))), s\<lparr>n_transports := n_transports s @
       [new_transport (cm_connection_class self) address (cm_ssl self) (cm_read_max_chunk_size self) p]\<rparr>)"
  using assms
  by (auto simp: create_connection_to_one_server_def connect_def Connection_connect_def
      WebSocketConnection_connect_def open_transport_def none_on_def run_simps valid_address_def
      split: connection_class.splits)

text \<open>A round of attempts in which servers fail until one accepts.\<close>

lemma run_first_opened:
  assumes "\<forall>(server, event) \<in> set failing. valid_address (cm_connection_class self) server \<and> unreachable event"
    and "valid_address (cm_connection_class self) server"
  shows "\<exists>address. run (first_connection self (failing @ (server, Opened p) # pending)) s =
    (Some (Inr (Some (length (n_transports s), server))), s\<lparr>n_transports := n_transports s @
       [new_transport (cm_connection_class self) address (cm_ssl self) (cm_read_max_chunk_size self) p],
       m_abandoned := m_abandoned s @ pending\<rparr>)"
  using assms(1)
proof (induction failing)
  case Nil
  from run_create_opened [OF assms(2), of p s] show ?case by (auto simp: run_simps abandon_def)
next
  case (Cons a failing)
  then show ?case by (auto simp: run_simps run_create_unreachable)
qed

lemma run_connect_opened:
  assumes "n_rounds s = outcomes # more_rounds" "completions (cm_servers self) outcomes = failing @ (server, Opened p) # pending"
    and "\<forall>(server, event) \<in> set failing. valid_address (cm_connection_class self) server \<and> unreachable event"
    and "valid_address (cm_connection_class self) server"
  shows "\<exists>address. \<forall>s1 s2 hb.
    s1 = s\<lparr>n_rounds := more_rounds, n_transports := n_transports s @
       [new_transport (cm_connection_class self) address (cm_ssl self) (cm_read_max_chunk_size self) p],
       m_abandoned := m_abandoned s @ pending\<rparr> \<longrightarrow>
    run (enter (length (n_transports s)) server) s1 = (Some (Inr (Inl hb)), s2) \<longrightarrow>
    run (connect_to_any_server self enter) s =
      (Some (Inr (Inl \<lparr>acs_connection = length (n_transports s), acs_parameters = server, acs_server_heartbeat = hb,
         acs_connected_at = n_time s2\<rparr>)), s2)"
proof -
  let ?s = "s\<lparr>n_rounds := more_rounds\<rparr>"
  obtain address where a: "run (first_connection self (failing @ (server, Opened p) # pending)) ?s =
    (Some (Inr (Some (length (n_transports s), server))), ?s\<lparr>n_transports := n_transports s @
       [new_transport (cm_connection_class self) address (cm_ssl self) (cm_read_max_chunk_size self) p],
       m_abandoned := m_abandoned s @ pending\<rparr>)"
    using run_first_opened [OF assms(3,4), of p pending ?s] by auto
  show ?thesis
    by (rule exI [of _ address])
      (auto simp: connect_to_any_server_def create_connection_to_any_server_def next_round_def enter_connection_def
        except_lost_def assms(1,2) a run_simps)
qed
lemma completions_servers: "(server, event) \<in> set (completions servers outcomes) \<Longrightarrow> server \<in> set servers"
  using set_clearjunk [of "filter (\<lambda>(i, _). i < length servers) outcomes"]
  by (auto simp: completions_def Let_def)

text \<open>The script of the environment: for \<open>k\<close> rounds no server can be reached; then \<open>server\<close> is the first to accept,
  and its peer is \<open>p\<close>.\<close>

definition accepts_after :: "ConnectionManager \<Rightarrow> nat \<Rightarrow> ConnectionParameters \<Rightarrow> peer \<Rightarrow> 'z net_scheme \<Rightarrow> bool" where
  "accepts_after self k server p s \<longleftrightarrow>
     (\<forall>server \<in> set (cm_servers self). valid_address (cm_connection_class self) server) \<and>
     (\<forall>outcomes \<in> set (take k (n_rounds s)). \<forall>(i, event) \<in> set outcomes. unreachable event) \<and>
     k < length (n_rounds s) \<and>
     (\<exists>failing pending. completions (cm_servers self) (n_rounds s ! k) = failing @ (server, Opened p) # pending \<and>
        (\<forall>(server, event) \<in> set failing. unreachable event))"

lemma accepts_after_cong: "n_rounds s' = n_rounds s \<Longrightarrow> accepts_after self k server p s' = accepts_after self k server p s"
  by (simp add: accepts_after_def)

definition opened :: "ConnectionManager \<Rightarrow> nat \<Rightarrow> peer \<Rightarrow> 'z manager_scheme \<Rightarrow> 'z manager_scheme \<Rightarrow> bool" where
  "opened self k p s s1 \<longleftrightarrow>
     (\<exists>address pending. s1 = s\<lparr>n_rounds := drop (Suc k) (n_rounds s), n_time := n_time s + pauses self 0 k,
        n_transports := n_transports s @
          [new_transport (cm_connection_class self) address (cm_ssl self) (cm_read_max_chunk_size self) p],
        m_abandoned := m_abandoned s @ pending, reconnect_lock := Some (n_current s)\<rparr>)"

definition activated :: "ConnectionManager \<Rightarrow> ActiveConnectionState \<Rightarrow> 'z manager_scheme \<Rightarrow> 'z manager_scheme" where
  "activated self st s =
     (let s1 = s\<lparr>active_connection_state := Some st, last_message_received_time := n_time s\<rparr>;
          s2 = (case monitor_no_message_task s of None \<Rightarrow> s1
                | Some i \<Rightarrow> s1\<lparr>m_tasks := (m_tasks s)[i := (fst (m_tasks s ! i), True)]\<rparr>);
          s3 = (case cm_no_message_restart_interval self of None \<Rightarrow> s2
                | Some interval \<Rightarrow> s2\<lparr>m_tasks := m_tasks s2 @ [(MonitorNoMessageTimeout interval, False)],
                    monitor_no_message_task := Some (length (m_tasks s2))\<rparr>)
      in s3\<lparr>n_log := n_log s3 @ [(Warning, ''reconnected after connection failure'')]\<rparr>)"

lemma run_activate: "run (activate self False st) s = (Some (Inr st), activated self st s)"
  by (simp add: activate_def activated_def restart_no_message_monitor_def create_task_def cancel_task_def logger_def
      run_simps Let_def split: option.splits)

lemma run_reconnect:
  assumes "accepts_after self k server p s" "k < nat (cm_connect_retry_attempts self)"
    and "active_connection_state s = None" "reconnect_lock s = None"
  shows "\<exists>s1. opened self k p s s1 \<and> (\<forall>s2 hb.
    run (enter (length (n_transports s)) server) s1 = (Some (Inr (Inl hb)), s2) \<longrightarrow>
    (let st = \<lparr>acs_connection = length (n_transports s), acs_parameters = server, acs_server_heartbeat = hb,
               acs_connected_at = n_time s2\<rparr>
     in run (get_active_connection_state self enter False) s =
       (Some (Inr st), (activated self st s2)\<lparr>reconnect_lock := None\<rparr>)))"
proof -
  from assms(1) obtain failing pending where
    valid: "\<forall>server \<in> set (cm_servers self). valid_address (cm_connection_class self) server" and
    un: "\<forall>outcomes \<in> set (take k (n_rounds s)). \<forall>(i, event) \<in> set outcomes. unreachable event" and
    k: "k < length (n_rounds s)" and
    comps: "completions (cm_servers self) (n_rounds s ! k) = failing @ (server, Opened p) # pending" and
    failing: "\<forall>(server, event) \<in> set failing. unreachable event"
    unfolding accepts_after_def by blast
  have "valid_address (cm_connection_class self) srv" if "(srv, event) \<in> set (failing @ (server, Opened p) # pending)" for srv event
    using completions_servers [of srv event "cm_servers self" "n_rounds s ! k"] that comps valid by simp
  then have failing': "\<forall>(server, event) \<in> set failing. valid_address (cm_connection_class self) server \<and> unreachable event"
    and server: "valid_address (cm_connection_class self) server"
    using failing by fastforce+
  let ?s0 = "s\<lparr>reconnect_lock := Some (n_current s)\<rparr>"
  let ?s1 = "?s0\<lparr>n_rounds := drop k (n_rounds s), n_time := n_time s + pauses self 0 k\<rparr>"
  obtain n where n: "nat (cm_connect_retry_attempts self) = k + Suc n"
    using assms(2) less_imp_Suc_add by fastforce
  obtain more where skip: "run (connect_attempts self enter False (k + Suc n) 0 []) ?s0 =
      run (connect_attempts self enter False (Suc n) (int k) more) ?s1"
    using run_attempts_skip [OF valid, of k ?s0 enter False "Suc n" 0 "[]"] un by auto
  have round: "n_rounds ?s1 = n_rounds s ! k # drop (Suc k) (n_rounds s)"
    using k by (simp add: Cons_nth_drop_Suc)
  let ?t = "\<lambda>address. new_transport (cm_connection_class self) address (cm_ssl self) (cm_read_max_chunk_size self) p"
  let ?s2 = "\<lambda>address. ?s1\<lparr>n_rounds := drop (Suc k) (n_rounds s), n_transports := n_transports s @ [?t address],
       m_abandoned := m_abandoned s @ pending\<rparr>"
  obtain address where conn: "\<And>s2 hb. run (enter (length (n_transports s)) server) (?s2 address) = (Some (Inr (Inl hb)), s2) \<Longrightarrow>
      run (connect_to_any_server self enter) ?s1 =
      (Some (Inr (Inl \<lparr>acs_connection = length (n_transports s), acs_parameters = server, acs_server_heartbeat = hb,
         acs_connected_at = n_time s2\<rparr>)), s2)"
    using run_connect_opened [OF round comps failing' server, of enter] by auto
  show ?thesis
  proof (intro exI [of _ "?s2 address"] conjI allI impI)
    show "opened self k p s (?s2 address)"
      unfolding opened_def by (rule exI [of _ address], rule exI [of _ pending]) simp
    fix s2 hb
    assume "run (enter (length (n_transports s)) server) (?s2 address) = (Some (Inr (Inl hb)), s2)"
    note conn [OF this]
    then show "let st = \<lparr>acs_connection = length (n_transports s), acs_parameters = server, acs_server_heartbeat = hb,
               acs_connected_at = n_time s2\<rparr>
     in run (get_active_connection_state self enter False) s =
       (Some (Inr st), (activated self st s2)\<lparr>reconnect_lock := None\<rparr>)"
      using skip assms(3,4) n
      by (simp add: get_active_connection_state_def with_reconnect_lock_def run_simps run_activate Let_def)
  qed
qed

section \<open>The client on its new connection\<close>

text \<open>The server of a peer answers the handshake at once, with headers \<open>h\<close>, and then sends the given chunks.\<close>

definition greets :: "ConnectionLifespan \<Rightarrow> peer \<Rightarrow> headers \<Rightarrow> bytes list \<Rightarrow> bool" where
  "greets cl p h chunks \<longleftrightarrow>
     peer_reads p = Chunk (wire (ConnectedFrame h)) # map Chunk chunks \<and> peer_writes p = [] \<and>
     dumpable (ConnectedFrame h) \<and> sort h = h \<and>
     map_of h (lit ''version'') = Some (cl_protocol_version cl) \<and>
     (\<exists>v hb. map_of h (lit ''heart-beat'') = Some v \<and> from_header v = Inr hb)"

text \<open>The frames with which a client introduces itself on a new connection.\<close>

definition introduction :: "ConnectionLifespan \<Rightarrow> ConnectionParameters \<Rightarrow> pystr \<Rightarrow> 'z trans_scheme \<Rightarrow> frame list" where
  "introduction cl params heartbeat s =
     ConnectFrame (connect_headers cl params heartbeat) #
     map subscribe_frame (get_all (active_subscriptions s)) @ concat (map (replay_frames s) (active_transactions s))"

lemma same_but_net_client:
  fixes s s' :: "'z client_scheme"
  assumes "same_but_net s s'"
  shows "handler_tasks s' = handler_tasks s" "handler_permits s' = handler_permits s" "listen_done s' = listen_done s"
    "reconnection_count s' = reconnection_count s"
proof -
  obtain x y where "s' = s\<lparr>n_transports := x, n_lists := y\<rparr>"
    using assms unfolding same_but_net_def by blast
  then show "handler_tasks s' = handler_tasks s" "handler_permits s' = handler_permits s" "listen_done s' = listen_done s"
    "reconnection_count s' = reconnection_count s"
    by simp_all
qed

lemma activated_fields [simp]:
  "active_connection_state (activated self st s) = Some st" "reconnection_count (activated self st s) = reconnection_count s"
  "n_transports (activated self st s) = n_transports s"
  by (simp_all add: activated_def Let_def split: option.splits)

lemma activated_client_fields [simp]:
  "active_subscriptions (activated self st s) = active_subscriptions s"
  "active_transactions (activated self st s') = active_transactions s'"
  "handler_tasks (activated self st s'') = handler_tasks s''" "handler_permits (activated self st s'') = handler_permits s''"
  "listen_done (activated self st s'') = listen_done s''"
  by (simp_all add: activated_def Let_def split: option.splits)

lemma heartbeats_restarted_client_fields [simp]:
  "reconnection_count (heartbeats_restarted hb s) = reconnection_count s"
  "handler_tasks (heartbeats_restarted hb s'') = handler_tasks s''" "handler_permits (heartbeats_restarted hb s'') = handler_permits s''"
  "listen_done (heartbeats_restarted hb s'') = listen_done s''"
  by (simp_all add: heartbeats_restarted_def Let_def)

lemma sent_client_fields [simp]:
  "reconnection_count (sent c fs s) = reconnection_count s"
  "handler_tasks (sent c fs s'') = handler_tasks s''" "handler_permits (sent c fs s'') = handler_permits s''"
  "listen_done (sent c fs s'') = listen_done s''"
  by (simp_all add: sent_def upd_transport_def)

text \<open>What the client keeps when it reconnects.\<close>

definition client_kept :: "'z client_scheme \<Rightarrow> 'z client_scheme \<Rightarrow> bool" where
  "client_kept s s' \<longleftrightarrow>
     handler_tasks s' = handler_tasks s \<and> handler_permits s' = handler_permits s \<and> listen_done s' = listen_done s \<and>
     active_subscriptions s' = active_subscriptions s \<and> reconnection_count s' = reconnection_count s"

lemma client_reconnects:
  fixes s :: "'z client_scheme" and self :: Client and rounds :: nat
  defines "m \<equiv> client_manager self" and "cl \<equiv> client_lifespan self rounds" and "c \<equiv> length (n_transports s)"
  assumes "accepts_after m k server p s" "k < nat (cm_connect_retry_attempts m)"
    and "active_connection_state s = None" "reconnect_lock s = None"
    and "greets cl p h chunks" "to_header (cl_client_heartbeat cl) = Inr heartbeat"
    and "list_all encodes (introduction cl server heartbeat s)"
    and "\<forall>t \<in> set (active_transactions s). length (replay_frames s t) \<le> rounds"
  shows "\<exists>st s'. run (get_active_connection_state m (client_enter self rounds) False) s = (Some (Inr st), s') \<and>
    acs_connection st = c \<and> acs_parameters st = server \<and> active_connection_state s' = Some st \<and>
    client_kept s s' \<and> active_transactions s' = [] \<and> writable c s' \<and>
    t_in (transport_at s' c) = map Chunk chunks \<and>
    t_out (transport_at s' c) = map wire (introduction cl server heartbeat s) \<and>
    (\<forall>c' < c. \<not> t_open (transport_at s c') \<longrightarrow> \<not> t_open (transport_at s' c'))"
proof -
  obtain s1 where s1: "opened m k p s s1" and
    conn: "\<And>s2 hb. run (client_enter self rounds c server) s1 = (Some (Inr (Inl hb)), s2) \<Longrightarrow>
      \<exists>st. acs_connection st = c \<and> acs_parameters st = server \<and>
        run (get_active_connection_state m (client_enter self rounds) False) s =
         (Some (Inr st), (activated m st s2)\<lparr>reconnect_lock := None\<rparr>)"
    using run_reconnect [OF assms(4-7), of "client_enter self rounds"] unfolding Let_def c_def by fastforce
  obtain address pending where eq: "s1 = s\<lparr>n_rounds := drop (Suc k) (n_rounds s), n_time := n_time s + pauses m 0 k,
        n_transports := n_transports s @ [new_transport (cm_connection_class m) address (cm_ssl m) (cm_read_max_chunk_size m) p],
        m_abandoned := m_abandoned s @ pending, reconnect_lock := Some (n_current s)\<rparr>"
    using s1 unfolding opened_def by blast
  have t: "n_transports s1 = n_transports s @ [new_transport (cm_connection_class m) address (cm_ssl m) (cm_read_max_chunk_size m) p]"
    by (simp add: eq)
  have same: "active_subscriptions s1 = active_subscriptions s" "active_transactions s1 = active_transactions s"
      "replay_frames s1 = replay_frames s" "client_kept s s1"
    by (simp_all add: eq replay_frames_def transaction_at_def client_kept_def fun_eq_iff)
  have c: "transport_at s1 c = new_transport (cm_connection_class m) address (cm_ssl m) (cm_read_max_chunk_size m) p"
    by (simp add: transport_at_def t c_def)
  have clen: "c < length (n_transports s1)" by (simp add: c_def t)
  have w: "writable c s1" and ans: "answers c s1 [] h (map Chunk chunks)"
    using assms(8) clen by (auto simp: greets_def writable_def c new_transport_def intro: answers_first)
  from assms(8) obtain v hb where hb: "map_of h (lit ''version'') = Some (cl_protocol_version cl)"
      "map_of h (lit ''heart-beat'') = Some v" "from_header v = Inr hb"
    unfolding greets_def by blast
  have enc: "encodes (ConnectFrame (connect_headers cl server heartbeat))"
      "\<forall>sub \<in> set (get_all (active_subscriptions s1)). encodes (subscribe_frame sub)"
      "\<forall>t \<in> set (active_transactions s1). list_all encodes (replay_frames s1 t) \<and> length (replay_frames s1 t) \<le> cl_rounds cl"
    using assms(10,11) by (auto simp: introduction_def same list_all_iff cl_def client_lifespan_def)
  obtain s2 where s2: "same_but_net s1 s2" "writable c s2" "t_in (transport_at s2 c) = map Chunk chunks"
      "t_out (transport_at s2 c) = [wire (ConnectFrame (connect_headers cl server heartbeat))]"
    and enter: "run (lifespan_enter cl c server) s1 = (Some (Inr (Inl hb)),
      (sent c (tl (introduction cl server heartbeat s)) (heartbeats_restarted hb s2))\<lparr>active_transactions := []\<rparr>)"
    using run_lifespan_enter [OF assms(9) enc(1) w ans hb enc(2,3)]
    by (auto simp: introduction_def same c new_transport_def)
  let ?s3 = "(sent c (tl (introduction cl server heartbeat s)) (heartbeats_restarted hb s2))\<lparr>active_transactions := []\<rparr>"
  obtain st where st: "acs_connection st = c" "acs_parameters st = server"
      "run (get_active_connection_state m (client_enter self rounds) False) s =
         (Some (Inr st), (activated m st ?s3)\<lparr>reconnect_lock := None\<rparr>)"
    using conn enter unfolding cl_def by blast
  let ?s4 = "(activated m st ?s3)\<lparr>reconnect_lock := None\<rparr>"
  have "ends (lifespan_enter cl c server) s1 (\<lambda>r s'. s' = ?s3 \<and> quiet (n_current s1) s1 s')"
    using enter by (intro quiet_ends [OF lifespan.enter_quiet]) (simp add: ends_def)
  then have evolves: "net_evolves s1 ?s3" by (auto simp: ends_def quiet_def)
  have s4: "transport_at ?s4 = transport_at ?s3" "n_transports ?s4 = n_transports ?s3"
    by (simp_all add: transport_at_def fun_eq_iff)
  have closed: "\<not> t_open (transport_at ?s4 c')" if "c' < c" "\<not> t_open (transport_at s c')" for c'
  proof -
    have "transport_at s1 c' = transport_at s c'" using that(1) by (simp add: transport_at_def t c_def nth_append)
    with evolves that show ?thesis unfolding s4 by (auto simp: net_evolves_def evolves_def t c_def)
  qed
  have t3: "transport_at ?s3 c = (transport_at s2 c)\<lparr>t_out := map wire (introduction cl server heartbeat s)\<rparr>"
    using s2(2,4) by (simp add: transport_at_def sent_def upd_transport_def writable_def
        heartbeats_restarted_def Let_def introduction_def)
  have kept: "client_kept s ?s4"
    using same(1,4) same_but_net_client [OF s2(1)] same_but_net_fields [OF s2(1)] by (simp add: client_kept_def)
  have w4: "writable c ?s4"
    using s2(2) t3 unfolding writable_def s4 by (simp add: sent_def upd_transport_def heartbeats_restarted_def Let_def)
  show ?thesis
    by (rule exI [of _ st], rule exI [of _ ?s4], intro conjI allI impI, fact st(3), fact st(1), fact st(2))
      (use closed kept w4 t3 s2(3) s4 in auto)
qed

lemma introduction_cong:
  "active_subscriptions s' = active_subscriptions s \<Longrightarrow> active_transactions s' = active_transactions s \<Longrightarrow>
   transactions s' = transactions s \<Longrightarrow> dicts s' = dicts s \<Longrightarrow>
   replay_frames s' = replay_frames s \<and> introduction cl server heartbeat s' = introduction cl server heartbeat s"
  by (simp add: introduction_def replay_frames_def [abs_def] transaction_at_def cong: if_cong)

section \<open>Listening across the loss\<close>

text \<open>The round of the listening task in which the connection is lost.\<close>

lemma run_round_lost:
  fixes s :: "'z client_scheme"
  assumes "active_connection_state s = Some st" "c = acs_connection st" "c < length (n_transports s)"
    and "t_in (transport_at s c) = map Chunk chunks @ e # rest" "[] \<notin> set chunks"
    and "lost_by (t_class (transport_at s c)) e = Some r" "t_close (transport_at s c) = None"
    and "fst (feed parse_frames_from_chunk FrameParser_init chunks) = fs" "list_all well_typed fs"
    and "uc_on_error_frame user = Some default_on_error_frame"
    and "\<forall>n. handler_permits s = Some n \<longrightarrow>
      length (handlers_for (active_subscriptions s) (reconnection_count s) fs) \<le> n"
  shows "\<exists>s1. run (read_frames_reconnecting m enter (dispatch_frame user) (Suc n)) s =
      run (read_frames_reconnecting m enter (dispatch_frame user) n) (discarded c s1) \<and> dispatched s fs s1"
proof -
  obtain p where p: "feed parse_byte FrameParser_init (concat chunks) = (fs, Inr p)"
    using feed_chunks_total [OF assms(8)] by blast
  obtain s1 where s1: "run (read_frames c (consume (dispatch_frame user) (reconnection_count s))) s =
      (Some (Inl (ConnectionLostError r)), s1)" "dispatched s fs s1"
    using run_read_dispatches(2) [OF p assms(5,3,9-11,4,6)] by blast
  have "run (discard_failed_connection_state st r) s1 = (Some (Inr ()), discarded c s1)"
    using run_discard [of s1 st r] s1(2) output_kept_at(5) [of s s1] assms(1,2,7)
    by (simp add: dispatched_def Let_def)
  with s1 assms(1,2) show ?thesis
    by (intro exI [of _ s1]) (simp add: run_simps get_active_connection_state_def)
qed

text \<open>The round in which it is replaced, and what has arrived on the new connection is dispatched.\<close>

lemma run_round_resumed:
  fixes s :: "'z client_scheme"
  assumes "run (get_active_connection_state m enter False) s = (Some (Inr st), s1)" "c = acs_connection st"
    and "writable c s1" "t_in (transport_at s1 c) = map Chunk chunks" "[] \<notin> set chunks"
    and "fst (feed parse_frames_from_chunk FrameParser_init chunks) = fs" "list_all well_typed fs"
    and "uc_on_error_frame user = Some default_on_error_frame"
    and "\<forall>n. handler_permits s1 = Some n \<longrightarrow>
      length (handlers_for (active_subscriptions s1) (reconnection_count s1) fs) \<le> n"
  shows "\<exists>s2. run (read_frames_reconnecting m enter (dispatch_frame user) (Suc n)) s = (None, s2) \<and> dispatched s1 fs s2"
proof -
  obtain p where p: "feed parse_byte FrameParser_init (concat chunks) = (fs, Inr p)"
    using feed_chunks_total [OF assms(6)] by blast
  have "c < length (n_transports s1)" "t_open (transport_at s1 c)"
    using assms(3) by (simp_all add: writable_def)
  from run_read_dispatches(1) [OF p assms(5) this(1) assms(7-9,4) this(2)] show ?thesis
    using assms(1,2) by (auto simp: run_simps)
qed

text \<open>The reconnection between the two.\<close>

lemma client_reconnects_after_loss:
  fixes s s1 :: "'z client_scheme"
  assumes "dispatched s fs s1" "c < length (n_transports s)" "reconnect_lock s = None"
    and "accepts_after (client_manager self) k server p s" "k < nat (clt_connect_retry_attempts self)"
    and "greets (client_lifespan self rounds) p h chunks" "to_header (clt_heartbeat self) = Inr heartbeat"
    and "introductory = introduction (client_lifespan self rounds) server heartbeat s" "list_all encodes introductory"
    and "\<forall>t \<in> set (active_transactions s). length (replay_frames s t) \<le> rounds"
    and "c' = length (n_transports s)"
  shows "\<exists>st s'. run (get_active_connection_state (client_manager self) (client_enter self rounds) False) (discarded c s1) =
        (Some (Inr st), s') \<and>
    acs_connection st = c' \<and> acs_parameters st = server \<and> active_connection_state s' = Some st \<and>
    client_kept (discarded c s1) s' \<and> active_transactions s' = [] \<and> writable c' s' \<and>
    t_in (transport_at s' c') = map Chunk chunks \<and> t_out (transport_at s' c') = map wire introductory \<and>
    \<not> t_open (transport_at s' c)"
proof -
  note d = assms(1) [unfolded dispatched_def Let_def]
  let ?s = "discarded c s1" and ?cl = "client_lifespan self rounds"
  have len: "length (n_transports ?s) = c'" using output_kept_at(6) [of s s1] d assms(11) by simp
  have same: "replay_frames ?s = replay_frames s" "introduction ?cl server heartbeat ?s = introductory"
    using introduction_cong [of ?s s ?cl server heartbeat] d assms(8) by simp_all
  have 1: "accepts_after (client_manager self) k server p ?s"
    using assms(4) accepts_after_cong [of ?s s] d by simp
  have 2: "k < nat (cm_connect_retry_attempts (client_manager self))" "to_header (cl_client_heartbeat ?cl) = Inr heartbeat"
    using assms(5,7) by (simp_all add: client_manager_def client_lifespan_def)
  have 3: "active_connection_state ?s = None" "reconnect_lock ?s = None" using assms(3) d by simp_all
  have 4: "list_all encodes (introduction ?cl server heartbeat ?s)"
      "\<forall>t \<in> set (active_transactions ?s). length (replay_frames ?s t) \<le> rounds"
    using assms(9,10) d by (simp_all add: same)
  have closed: "\<not> t_open (transport_at ?s c)"
    using discarded_closes [of c s1] len assms(2,11) by simp
  show ?thesis
    using client_reconnects [OF 1 2(1) 3 assms(6) 2(2) 4] closed assms(2,11)
    unfolding same len by auto
qed

section \<open>The monitor\<close>

lemma run_monitor_idle:
  assumes "active_connection_state s = None" "0 \<le> interval" "last_message_received_time s + interval \<le> n_time s"
  shows "run (monitor_no_message_timeout interval n) s = (None, s\<lparr>n_time := n_time s + of_nat n * interval\<rparr>)"
  using assms(1,3)
proof (induction n arbitrary: s)
  case (Suc n)
  have "run (monitor_no_message_timeout interval (Suc n)) s =
      run (monitor_no_message_timeout interval n) (s\<lparr>n_time := n_time s + interval\<rparr>)"
    using Suc.prems assms(2) by (simp add: run_simps sleep_def Let_def)
  with Suc.IH [of "s\<lparr>n_time := n_time s + interval\<rparr>"] Suc.prems assms(2) show ?case
    by (simp add: algebra_simps)
qed simp

section \<open>Properties\<close>

text \<open>C5. Listening goes on after the connection is lost. The peer sends some bytes, in whatever chunks, and goes away; for
  some rounds of attempts no server can be reached, then one accepts, confirms the connection and sends more.
  Then the listening task has started the handlers of all messages before and after the loss, those after it tagged with
  the next reconnection count, and waits for more: the old connection is closed, the new one is the active one, and what was written on it
  is \<open>CONNECT\<close>, one \<open>SUBSCRIBE\<close> per active subscription and the frames and \<open>COMMIT\<close> of the transactions that were open.\<close>

theorem listening_resumes:
  fixes s :: "'z client_scheme"
  assumes "active_connection_state s = Some st" "c = acs_connection st" "c < length (n_transports s)" "reconnect_lock s = None"
    and "t_in (transport_at s c) = map Chunk chunks @ e # rest" "[] \<notin> set chunks"
    and "lost_by (t_class (transport_at s c)) e = Some r" "t_close (transport_at s c) = None"
    and "accepts_after (client_manager self) k server p s" "k < nat (clt_connect_retry_attempts self)"
    and "greets (client_lifespan self rounds) p h chunks'" "[] \<notin> set chunks'" "to_header (clt_heartbeat self) = Inr heartbeat"
    and "introductory = introduction (client_lifespan self rounds) server heartbeat s" "list_all encodes introductory"
    and "\<forall>t \<in> set (active_transactions s). length (replay_frames s t) \<le> rounds"
    and "fst (feed parse_frames_from_chunk FrameParser_init chunks) = fs" "list_all well_typed fs"
    and "fst (feed parse_frames_from_chunk FrameParser_init chunks') = fs'" "list_all well_typed fs'"
    and "uc_on_error_frame user = Some default_on_error_frame"
    and "started = handlers_for (active_subscriptions s) (reconnection_count s) fs @
      handlers_for (active_subscriptions s) (Suc (reconnection_count s)) fs'"
    and "\<forall>n. handler_permits s = Some n \<longrightarrow> length started \<le> n"
  shows "\<exists>st' s'. run (listen_to_frames self rounds user (Suc (Suc n))) s = (None, s') \<and>
    handler_tasks s' = handler_tasks s @ started \<and> listen_done s' = listen_done s \<and>
    active_connection_state s' = Some st' \<and> acs_connection st' = length (n_transports s) \<and> acs_parameters st' = server \<and>
    reconnection_count s' = Suc (reconnection_count s) \<and>
    active_subscriptions s' = active_subscriptions s \<and> active_transactions s' = [] \<and>
    t_out (transport_at s' (acs_connection st')) = map wire introductory \<and>
    t_open (transport_at s' (acs_connection st')) \<and> \<not> t_open (transport_at s' c)"
proof -
  have permits: "\<forall>n. handler_permits s = Some n \<longrightarrow>
      length (handlers_for (active_subscriptions s) (reconnection_count s) fs) \<le> n"
    using assms(22,23) by auto
  obtain s1 where s1: "run (listen_to_frames self rounds user (Suc (Suc n))) s =
      run (finally_do (read_frames_reconnecting (client_manager self) (client_enter self rounds) (dispatch_frame user) (Suc n))
        (modify (\<lambda>s. s\<lparr>listen_done := True\<rparr>))) (discarded c s1)" "dispatched s fs s1"
    using run_round_lost [OF assms(1-3,5-8,17,18,21) permits, of "client_manager self" "client_enter self rounds" "Suc n"]
    unfolding listen_to_frames_def run_finally by auto
  note d1 = s1(2) [unfolded dispatched_def Let_def]
  obtain st' s2 where s2: "run (get_active_connection_state (client_manager self) (client_enter self rounds) False) (discarded c s1) =
        (Some (Inr st'), s2)"
      "length (n_transports s) = acs_connection st'" "acs_parameters st' = server" "active_connection_state s2 = Some st'"
      "client_kept (discarded c s1) s2" "active_transactions s2 = []" "writable (length (n_transports s)) s2"
      "t_in (transport_at s2 (length (n_transports s))) = map Chunk chunks'"
      "t_out (transport_at s2 (length (n_transports s))) = map wire introductory" "\<not> t_open (transport_at s2 c)"
    using client_reconnects_after_loss [OF s1(2) assms(3,4,9-11,13-16) refl] by metis
  note k2 = s2(5) [unfolded client_kept_def]
  have "\<forall>n. handler_permits s2 = Some n \<longrightarrow>
      length (handlers_for (active_subscriptions s2) (reconnection_count s2) fs') \<le> n"
    using assms(22,23) d1 k2 by (auto simp: permits_after_def)
  from run_round_resumed [OF s2(1,2,7,8) assms(12,19-21) this] obtain s3 where
    s3: "run (read_frames_reconnecting (client_manager self) (client_enter self rounds) (dispatch_frame user) (Suc n)) (discarded c s1) =
      (None, s3)" "dispatched s2 fs' s3" by blast
  have "run (listen_to_frames self rounds user (Suc (Suc n))) s = (None, s3)"
    unfolding s1(1) run_finally by (simp add: s3(1) del: read_frames_reconnecting.simps)
  then show ?thesis
    using s3(2) d1 k2 s2(2-10) assms(22) output_kept_at [of s2 s3] by (auto simp: dispatched_def Let_def writable_def)
qed

theorem listening_resumes_witness:
  "let self = Client_defaults [sample_parameters]; user = idle_user\<lparr>uc_on_error_frame := Some default_on_error_frame\<rparr>;
       p = quiet_peer\<lparr>peer_reads := Chunk (wire (ConnectedFrame sample_connected)) # map Chunk sample_chunks\<rparr>;
       s = (sample_client (quiet_peer\<lparr>peer_reads := map Chunk sample_chunks @ [Chunk []]\<rparr>))
         \<lparr>n_rounds := [[(0, OpenFails ConnectionError)], [(0, Opened p)]]\<rparr>;
       f = ConnectFrame (connect_headers (client_lifespan self 5) sample_parameters (lit ''1000,1000''));
       t = \<lparr>ht_subscription = sample_sub, ht_headers = sample_headers, ht_body = ''hi'', ht_epoch = 0, ht_done = False\<rparr> in
   \<exists>s'. run (listen_to_frames self 5 user 2) s = (None, s') \<and> handler_tasks s' = [t, t\<lparr>ht_epoch := 1\<rparr>] \<and>
     t_out (transport_at s' 1) = map wire [f, subscribe_frame sample_sub] \<and> \<not> t_open (transport_at s' 0)"
proof -
  let ?self = "Client_defaults [sample_parameters]"
  let ?user = "idle_user\<lparr>uc_on_error_frame := Some default_on_error_frame\<rparr> :: client user_code"
  let ?p = "quiet_peer\<lparr>peer_reads := Chunk (wire (ConnectedFrame sample_connected)) # map Chunk sample_chunks\<rparr>"
  let ?s = "(sample_client (quiet_peer\<lparr>peer_reads := map Chunk sample_chunks @ [Chunk []]\<rparr>))
         \<lparr>n_rounds := [[(0, OpenFails ConnectionError)], [(0, Opened ?p)]]\<rparr>"
  let ?f = "ConnectFrame (connect_headers (client_lifespan ?self 5) sample_parameters (lit ''1000,1000''))"
  let ?t = "\<lparr>ht_subscription = sample_sub, ht_headers = sample_headers, ht_body = ''hi'', ht_epoch = 0, ht_done = False\<rparr>"
  let ?fs = "[MessageFrame sample_headers ''hi'']"
  have 1: "active_connection_state ?s = Some sample_state" "0 = acs_connection sample_state" "0 < length (n_transports ?s)"
      "reconnect_lock ?s = None" "t_in (transport_at ?s 0) = map Chunk sample_chunks @ Chunk [] # []" "[] \<notin> set sample_chunks"
      "lost_by (t_class (transport_at ?s 0)) (Chunk []) = Some (Reason_text ''eof'')" "t_close (transport_at ?s 0) = None"
    by (simp_all add: sample_client_def sample_state_def sample_simps sample_chunks_def)
  have path: "cp_ws_uri_path sample_parameters = None"
    by (simp add: sample_parameters_def new_parameters_def)
  have 2: "accepts_after (client_manager ?self) 1 sample_parameters ?p ?s"
    by (simp add: accepts_after_def client_manager_def Client_defaults_def valid_address_def path unreachable_def
        completions_def) (rule exI [of _ "[]"], simp)
  have attempts: "1 < nat (clt_connect_retry_attempts ?self)"
    by (simp add: Client_defaults_def)
  have 3: "greets (client_lifespan ?self 5) ?p sample_connected sample_chunks"
    by (simp add: greets_def quiet_peer_def sample_connected_dumpable sample_connected_sorted sample_connected_fields client_lifespan_def)
  have 4: "to_header (clt_heartbeat ?self) = Inr (lit ''1000,1000'')"
    using sample_connect(1) by (simp add: client_lifespan_def)
  have 5: "[?f, subscribe_frame sample_sub] = introduction (client_lifespan ?self 5) sample_parameters (lit ''1000,1000'') ?s"
      "list_all encodes [?f, subscribe_frame sample_sub]" "\<forall>t \<in> set (active_transactions ?s). length (replay_frames ?s t) \<le> 5"
    by (simp_all add: introduction_def sample_client_def registry_evals get_all_def sample_connect(2) sample_sub_encodes)
  have 6: "list_all well_typed ?fs"
    by (simp add: well_typed_def conforms_iff MessageHeaders_def sample_headers_def lit_def)
  have 7: "[?t, ?t\<lparr>ht_epoch := 1\<rparr>] = handlers_for (active_subscriptions ?s) (reconnection_count ?s) ?fs @
      handlers_for (active_subscriptions ?s) (Suc (reconnection_count ?s)) ?fs"
    by (simp add: handlers_for_def handler_for_def List.map_filter_def sample_headers_def lit_def sample_client_def
        registry_evals sample_sub_def get_by_id_def)
  have 8: "handler_permits ?s = Some 100" "handler_tasks ?s = []" "length (n_transports ?s) = 1"
    by (simp_all add: sample_client_def)
  show ?thesis
    using listening_resumes [OF 1 2 attempts 3 1(6) 4 5 parse_sample_chunks 6 parse_sample_chunks 6 _ 7, of ?user 0] 8
    unfolding Let_def by (auto simp: numeral_2_eq_2)
qed

text \<open>C14. A silent connection is given up. While no message arrives, the monitor does nothing until the interval has passed since the
  last one; at that moment it closes the active connection and counts the reconnection, once, however long the
  silence lasts, and leaves it to the other tasks to connect again.\<close>

theorem silence_gives_up_connection:
  assumes "active_connection_state s = Some st" "c = acs_connection st" "t_close (transport_at s c) = None"
    and "latest = last_message_received_time s" "n_time s < latest + interval" "latest \<le> n_time s"
    and "s1 = s\<lparr>n_log := n_log s @ [(Warning, ''no messages received, forcing reconnect'')]\<rparr>"
  shows "run (monitor_no_message_timeout interval 1) s = (None, s\<lparr>n_time := latest + interval\<rparr>) \<and>
    run (monitor_no_message_timeout interval (Suc (Suc n))) s =
      (None, (discarded c s1)\<lparr>n_time := latest + of_nat (Suc (Suc n)) * interval\<rparr>)"
proof -
  let ?s = "s\<lparr>n_time := latest + interval\<rparr>" and ?s1 = "s\<lparr>n_time := latest + interval, n_log := n_log s1\<rparr>"
  have wait: "run (monitor_no_message_timeout interval (Suc k)) s = run (monitor_no_message_timeout interval k) ?s" for k
    using assms(4,5) by (simp add: run_simps sleep_def Let_def add.commute)
  have "transport_at ?s1 c = transport_at s c" by (simp add: transport_at_def)
  then have discard: "run (discard_failed_connection_state st r) ?s1 = (Some (Inr ()), discarded c ?s1)" for r
    using run_discard [of ?s1 st r] assms(1-3,7) by simp
  let ?s2 = "(discarded c ?s1)\<lparr>n_time := latest + interval + interval\<rparr>"
  have "run (monitor_no_message_timeout interval (Suc n)) ?s = run (monitor_no_message_timeout interval n) ?s2"
    using discard assms(1,4-7) by (simp add: run_simps sleep_def Let_def logger_def)
  also have "\<dots> = (None, ?s2\<lparr>n_time := latest + interval + interval + of_nat n * interval\<rparr>)"
    using run_monitor_idle [of ?s2 interval n] assms(4-7) by (simp add: discarded_def upd_transport_def)
  finally show ?thesis
    using wait [of 0] wait [of "Suc n"] assms(7) by (simp add: algebra_simps discarded_def upd_transport_def transport_at_def)
qed

theorem silence_gives_up_connection_witness:
  "let s = sample_client quiet_peer in
   run (monitor_no_message_timeout 3600 1) s = (None, s\<lparr>n_time := 3600\<rparr>) \<and>
   active_connection_state (snd (run (monitor_no_message_timeout 3600 2) s)) = None \<and>
   reconnection_count (snd (run (monitor_no_message_timeout 3600 9) s)) = 1 \<and>
   \<not> t_open (transport_at (snd (run (monitor_no_message_timeout 3600 2) s)) 0)"
proof -
  let ?s = "sample_client quiet_peer"
  have 1: "active_connection_state ?s = Some sample_state" "0 = acs_connection sample_state" "t_close (transport_at ?s 0) = None"
      "0 = last_message_received_time ?s" "n_time ?s < 0 + 3600" "0 \<le> n_time ?s"
    by (simp_all add: sample_client_def sample_state_def sample_simps)
  have 2: "reconnection_count ?s = 0" "length (n_transports ?s) = 1" by (simp_all add: sample_client_def)
  have "transport_at (s\<lparr>n_time := x\<rparr>) c = transport_at s c" for s :: client and x c
    by (simp add: transport_at_def)
  then show ?thesis
    using silence_gives_up_connection [OF 1 refl, of 0] silence_gives_up_connection [OF 1 refl, of 7] 2
      discarded_closes [of 0 "?s\<lparr>n_log := n_log ?s @ [(Warning, ''no messages received, forcing reconnect'')]\<rparr>"]
    by (simp add: Let_def eval_nat_numeral del: monitor_no_message_timeout.simps)
qed

end
