(* ===== verification/Keep_Alive.thy ===== *)
theory Keep_Alive
  imports Reconnect_Laws
begin

text \<open>
  \<open>keep_alive_on_connection_failure\<close>: the background tasks of a client that is told to keep trying never
  give up.
\<close>

section \<open>The exceptions of connecting\<close>

text \<open>The errors with which an operation gives up trying.\<close>

fun gave_up :: "exn \<Rightarrow> bool" where
  "gave_up (FailedAllConnectAttemptsError _ _) = True"
| "gave_up (FailedAllWriteAttemptsError _) = True"
| "gave_up _ = False"

lemma from_connection_not_gave_up: "from_connection e \<Longrightarrow> \<not> gave_up e"
  by (auto simp: from_connection_def split: exn.splits)

lemma plain_not_gave_up: "plain e \<Longrightarrow> \<not> gave_up e"
  by (auto simp: plain_def split: exn.splits)

lemma raises_only_write_sent_frames: "raises_only from_connection (write_sent_frames n k c t)"
  by (induction n arbitrary: k)
    (auto simp: write_send_frame_def intro!: raises_only_intros raises_only_methods)

lemma raises_only_commit_each: "raises_only from_connection (commit_each n m c ts)"
  by (induction ts) (auto simp: check_set_size_def transaction_id_def
      intro!: raises_only_intros raises_only_methods raises_only_write_sent_frames)

lemma raises_only_lifespan_enter: "raises_only from_connection (lifespan_enter cl c params)"
  unfolding lifespan_enter_def resubscribe_to_active_subscriptions_def commit_pending_transactions_def
  by (auto intro!: raises_only_intros raises_only_establish raises_only_methods raises_only_commit_each split: sum.splits)

text \<open>Getting a connection raises nothing that says that writing was given up.\<close>

definition connect_error :: "exn \<Rightarrow> bool" where
  "connect_error e \<longleftrightarrow> (\<exists>a i. e = FailedAllConnectAttemptsError a i) \<or> plain e"

lemma raises_only_connect_to_any:
  assumes "\<And>c p. raises_only from_connection (enter c p)"
  shows "raises_only plain (connect_to_any_server self enter)"
proof -
  have "raises_only plain (enter_connection enter c p)" for c p
    unfolding enter_connection_def except_lost_def handle_def
    by (rule raises_only_catch [where P = from_connection])
      (auto simp: from_connection_def plain_def intro!: raises_only_bind raises_only_get assms split: sum.splits exn.splits)
  then have "raises_only plain (bind (attempt (enter_connection enter c p))
      (\<lambda>r. case r of Inr (Inl _) \<Rightarrow> Done r | _ \<Rightarrow> seq (close c) (Done r)))" for c p
    by (rule raises_only_attempt_bind) (auto intro!: raises_only_bind raises_only_methods split: sum.splits)
  then show ?thesis
    unfolding connect_to_any_server_def
    by (auto intro!: raises_only_bind raises_only_create_connection split: option.splits)
qed

lemma raises_only_get_active:
  assumes "\<And>c p. raises_only from_connection (enter c p)"
  shows "raises_only connect_error (get_active_connection_state self enter initial)"
proof -
  have plain: "connect_error e" if "plain e" for e using that by (simp add: connect_error_def)
  have activate: "raises_only connect_error (activate self initial st)" for st
    by (auto simp: activate_def restart_no_message_monitor_def create_task_def cancel_task_def logger_def
        intro!: raises_only_bind raises_only_get raises_only_modify split: option.splits)
  have attempts: "raises_only connect_error (connect_attempts self enter initial n k issues)" for n k issues
  proof (induction n arbitrary: k issues)
    case (Suc n)
    have "raises_only connect_error (sleep t)" for t
      by (auto simp: sleep_def plain intro!: raises_only_bind raises_only_await raises_only_modify)
    with Suc show ?case
      using raises_only_mono [OF raises_only_connect_to_any [OF assms] plain]
      by (auto intro!: raises_only_bind activate split: sum.splits)
  qed (simp add: connect_error_def)
  show ?thesis
    unfolding get_active_connection_state_def with_reconnect_lock_def
    by (auto simp: plain intro!: raises_only_bind raises_only_get raises_only_await raises_only_modify
        raises_only_finally attempts split: option.splits)
qed

lemma raises_only_discard: "raises_only plain (discard_failed_connection_state st r)"
  unfolding discard_failed_connection_state_def
  by (auto simp: logger_def intro!: raises_only_bind raises_only_get raises_only_modify raises_only_methods)

section \<open>The background tasks\<close>

text \<open>The exceptions of the consumer of an asynchronous iteration, which are carried as values.\<close>

lemma returns_only_consume:
  assumes "raises_only P (body f e)"
  shows "returns_only (pred_option P) (consume body e f)"
proof -
  have "returns_only (\<lambda>r. case r of Inl e \<Rightarrow> P e | Inr _ \<Rightarrow> True) (attempt m)" if "raises_only P m" for m :: "('s, unit) coro"
    using that by (induction m) auto
  then show ?thesis
    unfolding consume_def by (rule returns_only_bind [OF _]) (use assms in \<open>auto split: sum.splits\<close>)
qed

lemma returns_only_read_frames:
  assumes "\<And>f. returns_only (pred_option V) (body f)"
  shows "returns_only V (read_frames c body)"
proof -
  have deliver: "returns_only (pred_option V) (deliver body fs)" for fs
    by (induction fs) (auto intro!: returns_only_bind [OF assms] split: option.splits)
  have loop: "returns_only V (read_frames_loop r c n p body)" for r n p
    by (induction n arbitrary: p)
      (auto intro!: returns_only_then returns_only_bind [OF deliver] split: prod.splits option.splits sum.splits)
  show ?thesis
    unfolding read_frames_def Connection_read_frames_def WebSocketConnection_read_frames_def
      read_frames_with_def dispatch_def
    by (auto intro!: returns_only_then loop split: connection_class.splits)
qed

lemma raises_only_sleep: "raises_only (\<lambda>e. \<not> gave_up e) (sleep t)"
  by (auto simp: sleep_def intro!: raises_only_bind raises_only_await raises_only_modify)

lemma raises_only_logger: "raises_only P (logger level msg)"
  by (simp add: logger_def modify_def)

lemma keeps_reading:
  assumes "cm_keep_alive_on_connection_failure self" "\<And>c p. raises_only from_connection (enter c p)"
    and "\<And>f e. raises_only (\<lambda>e. \<not> gave_up e) (body f e)"
  shows "raises_only (\<lambda>e. \<not> gave_up e) (read_frames_reconnecting self enter body n)"
proof (induction n)
  case (Suc n)
  let ?P = "\<lambda>e. \<not> gave_up e"
  let ?read = "\<lambda>c e st. except_lost (bind (read_frames c (consume body e)) (\<lambda>e. ret (Some e)))
      (\<lambda>error. seq (discard_failed_connection_state st error) (ret None))"
  have "raises_only from_connection (consume body e f)" for e f
    unfolding consume_def by (intro raises_only_bind raises_only_attempt) simp
  then have frames: "raises_only ?P (read_frames c (consume body e))" for c e
    by (rule raises_only_mono [OF raises_only_read_frames]) (rule from_connection_not_gave_up)
  have discard: "raises_only ?P (discard_failed_connection_state st r)" for st r
    by (rule raises_only_mono [OF raises_only_discard]) (rule plain_not_gave_up)
  have 1: "raises_only ?P (?read c e st)" for c e st
    by (intro raises_only_except_lost raises_only_bind frames discard) simp_all
  have 2: "returns_only (pred_option ?P) (?read c e st)" for c e st
    by (intro returns_only_except_lost returns_only_bind [OF returns_only_read_frames [OF returns_only_consume]] assms(3))
      (simp_all add: returns_only_then assms(3))
  show ?case
    unfolding read_frames_reconnecting.simps
    by (rule raises_only_catch [OF raises_only_get_active [OF assms(2)]])
      (auto simp: assms(1) connect_error_def plain_def
        intro!: Suc raises_only_bind [OF raises_only_logger] raises_only_bind [OF raises_only_sleep]
          raises_only_bind [OF raises_only_get] raises_only_returned [OF 1 2]
        split: exn.splits option.splits)
qed simp

lemma keeps_beating:
  assumes "cm_keep_alive_on_connection_failure self"
  shows "raises_only (\<lambda>e. \<not> gave_up e) (send_heartbeats_forever self enter ms n)"
proof (induction n)
  case (Suc n)
  then show ?case
    unfolding send_heartbeats_forever.simps
    by (intro raises_only_bind raises_only_attempt)
      (auto simp: assms intro!: raises_only_bind [OF raises_only_logger] raises_only_sleep
        split: sum.splits exn.splits)
qed simp

section \<open>Properties\<close>

text \<open>C15. A client that is told to keep trying never gives up. However its tasks are interleaved and cancelled, and whatever
  the servers do, neither the listening task nor the task that sends heart-beats ends with
  \<open>FailedAllConnectAttemptsError\<close> or \<open>FailedAllWriteAttemptsError\<close>, as long as the user's own callback for \<open>ERROR\<close> frames raises none.\<close>

theorem keep_alive_never_gives_up:
  assumes "clt_keep_alive_on_connection_failure self"
    and "\<forall>f h body. uc_on_error_frame user = Some f \<longrightarrow> raises_only (\<lambda>e. \<not> gave_up e) (f h body)"
  shows "raises_only (\<lambda>e. \<not> gave_up e) (listen_to_frames self rounds user n) \<and>
    raises_only (\<lambda>e. \<not> gave_up e) (send_heartbeats_forever (client_manager self) (client_enter self rounds) ms n)"
proof -
  have alive: "cm_keep_alive_on_connection_failure (client_manager self)"
    using assms(1) by (simp add: client_manager_def)
  have "raises_only (\<lambda>e. \<not> gave_up e) (dispatch_frame user f e)" for f e
    using assms(2)
    by (cases f) (auto simp: dispatch_frame_def header_item_def acquire_permit_def start_handler_def
        intro!: raises_only_bind raises_only_get raises_only_modify raises_only_await split: option.splits)
  with alive raises_only_lifespan_enter
  have "raises_only (\<lambda>e. \<not> gave_up e)
      (read_frames_reconnecting (client_manager self) (client_enter self rounds) (dispatch_frame user) n)"
    by (rule keeps_reading)
  then show ?thesis
    unfolding listen_to_frames_def by (intro conjI raises_only_finally raises_only_modify keeps_beating [OF alive])
qed

theorem keep_alive_never_gives_up_witness:
  "let self = (Client_defaults [sample_parameters])\<lparr>clt_keep_alive_on_connection_failure := True\<rparr> in
   raises_only (\<lambda>e. \<not> gave_up e) (listen_to_frames self 5 (idle_user :: client user_code) 7) \<and>
   raises_only (\<lambda>e. \<not> gave_up e)
     (send_heartbeats_forever (client_manager self) (client_enter self 5 :: unit client_enter) 1000 7)"
  unfolding Let_def
  by (rule keep_alive_never_gives_up) (simp_all add: idle_user_def)

end
