(* ===== verification/Faststream.thy ===== *)
theory Faststream
  imports Client_Laws
begin

text \<open>
  \<open>faststream_stomp\<close>: the broker that puts the client behind the interface of the FastStream
  framework.

  FastStream itself is not part of the repository. What the code calls of it is a parameter of
  the definitions, the record \<open>framework\<close> (an argument that a call does not pass is \<open>None\<close>); the properties that need to know something of it say so
  in their hypotheses.
\<close>

section \<open>What the code uses of FastStream\<close>

datatype AckStatus = ACKED | NACKED | REJECTED

datatype AckPolicy = MANUAL | NACK_ON_ERROR

datatype PublishType = PUBLISH | REPLY | REQUEST

text \<open>A publish command: its body and the further bodies of a batch; the headers are a dictionary
  object.\<close>

record 'm StompPublishCommand =
  pc_body :: 'm
  pc_extra_bodies :: "'m list"
  pc_publish_type :: PublishType
  pc_reply_to :: pystr
  pc_destination :: pystr
  pc_correlation_id :: "pystr option"
  pc_headers :: ref

text \<open>
  The state of a broker: the client's, the attribute \<open>committed\<close> of the message objects and
  \<open>_subscription\<close> of the subscriber objects, by their numbers, and the fields of the broker.
\<close>

record broker = client +
  b_committed :: "nat \<rightharpoonup> AckStatus"
  b_subscriptions :: "nat \<rightharpoonup> subscription"
  b_attempted_to_connect :: bool
  b_stopping :: bool
  b_running :: bool
  b_connection :: bool
  b_listen_callback :: bool

text \<open>
  \<open>fw_encode_message\<close> with the serializer in it; the methods of the superclasses of message, subscriber and
  broker objects; the constructor of \<open>BatchPublishCommand\<close> and its property \<open>batch_bodies\<close>; publishing through the middlewares with a
  given producer method.
\<close>

record ('s, 'm) framework =
  fw_encode_message :: "'m \<Rightarrow> py_exn + (bytes \<times> pystr option)"
  fw_message_ack :: "nat \<Rightarrow> ('s, unit) coro"
  fw_message_nack :: "nat \<Rightarrow> ('s, unit) coro"
  fw_message_reject :: "nat \<Rightarrow> ('s, unit) coro"
  fw_command :: "'m list \<Rightarrow> PublishType \<Rightarrow> pystr option \<Rightarrow> pystr \<Rightarrow> pystr option \<Rightarrow> ref option
                   \<Rightarrow> ('s, 'm StompPublishCommand) coro"
  fw_batch_bodies :: "'m StompPublishCommand \<Rightarrow> 'm list"
  fw_patch_command :: "'m StompPublishCommand \<Rightarrow> ('s, 'm StompPublishCommand) coro"
  fw_basic_publish :: "('m StompPublishCommand \<Rightarrow> ('s, unit) coro) \<Rightarrow> 'm StompPublishCommand \<Rightarrow> ('s, unit) coro"
  fw_basic_publish_batch :: "('m StompPublishCommand \<Rightarrow> ('s, unit) coro) \<Rightarrow> 'm StompPublishCommand \<Rightarrow> ('s, unit) coro"
  fw_basic_request :: "('m StompPublishCommand \<Rightarrow> ('s, unit) coro) \<Rightarrow> 'm StompPublishCommand \<Rightarrow> ('s, unit) coro"
  fw_subscriber_start :: "nat \<Rightarrow> ('s, unit) coro"
  fw_subscriber_post_start :: "nat \<Rightarrow> ('s, unit) coro"
  fw_subscriber_stop :: "nat \<Rightarrow> ('s, unit) coro"
  fw_broker_connect :: "('s, unit) coro \<Rightarrow> ('s, unit) coro"
  fw_broker_start :: "('s, unit) coro"
  fw_process_message :: "nat \<Rightarrow> AckableMessageFrame \<Rightarrow> ('s, unit) coro"

section \<open>Messages\<close>

record StompStreamMessage =
  sm_raw_message :: AckableMessageFrame
  sm_body :: bytes
  sm_headers :: headers
  sm_content_type :: "pystr option"
  sm_message_id :: pystr
  sm_correlation_id :: pystr

text \<open>\<open>gen_cor_id\<close> is the identifier that the framework generates.\<close>

definition from_frame :: "pystr \<Rightarrow> AckableMessageFrame \<Rightarrow> py_exn + StompStreamMessage" where
  "from_frame gen_cor_id message =
     (case map_of (am_headers message) (lit ''message-id'') of
        None \<Rightarrow> Inl (KeyError (lit ''message-id''))
      | Some message_id \<Rightarrow>
          Inr \<lparr>sm_raw_message = message, sm_body = am_body message, sm_headers = am_headers message,
               sm_content_type = map_of (am_headers message) (lit ''content-type''),
               sm_message_id = message_id,
               sm_correlation_id =
                 (case map_of (am_headers message) (lit ''correlation-id'') of
                    None \<Rightarrow> gen_cor_id | Some i \<Rightarrow> i)\<rparr>)"

definition StompStreamMessage_ack ::
  "('z broker_scheme, 'm) framework \<Rightarrow> nat \<Rightarrow> AckableMessageFrame \<Rightarrow> ('z broker_scheme, unit) coro" where
  "StompStreamMessage_ack fw k raw_message =
     bind (get (\<lambda>s. b_committed s k)) (\<lambda>committed.
       seq (if committed = None then ackable_ack raw_message else ret ()) (fw_message_ack fw k))"

definition StompStreamMessage_nack ::
  "('z broker_scheme, 'm) framework \<Rightarrow> nat \<Rightarrow> AckableMessageFrame \<Rightarrow> ('z broker_scheme, unit) coro" where
  "StompStreamMessage_nack fw k raw_message =
     bind (get (\<lambda>s. b_committed s k)) (\<lambda>committed.
       seq (if committed = None then ackable_nack raw_message else ret ()) (fw_message_nack fw k))"

definition StompStreamMessage_reject ::
  "('z broker_scheme, 'm) framework \<Rightarrow> nat \<Rightarrow> AckableMessageFrame \<Rightarrow> ('z broker_scheme, unit) coro" where
  "StompStreamMessage_reject fw k raw_message =
     bind (get (\<lambda>s. b_committed s k)) (\<lambda>committed.
       seq (if committed = None then ackable_nack raw_message else ret ()) (fw_message_reject fw k))"

section \<open>Configurations\<close>

definition from_cmd ::
  "('s, 'm) framework \<Rightarrow> 'm StompPublishCommand \<Rightarrow> ('s, 'm StompPublishCommand) coro" where
  "from_cmd fw cmd =
     fw_command fw (fw_batch_bodies fw cmd) (pc_publish_type cmd) (Some (pc_reply_to cmd)) (pc_destination cmd)
       (pc_correlation_id cmd) (Some (pc_headers cmd))"

record StompSubscriberUsecaseConfig =
  sc_prefix :: pystr
  sc_destination_without_prefix :: pystr
  sc_ack_mode :: AckMode
  sc_headers :: "headers option"

definition ack_policy :: "StompSubscriberUsecaseConfig \<Rightarrow> AckPolicy" where
  "ack_policy config = (if sc_ack_mode config = Auto then MANUAL else NACK_ON_ERROR)"

definition subscriber_full_destination :: "StompSubscriberUsecaseConfig \<Rightarrow> pystr" where
  "subscriber_full_destination config = sc_prefix config @ sc_destination_without_prefix config"

record StompPublisherUsecaseConfig =
  pb_prefix :: pystr
  pb_destination_without_prefix :: pystr

definition publisher_full_destination :: "StompPublisherUsecaseConfig \<Rightarrow> pystr" where
  "publisher_full_destination config = pb_prefix config @ pb_destination_without_prefix config"

definition publisher_name :: "StompPublisherUsecaseConfig \<Rightarrow> pystr" where
  "publisher_name config =
     pb_prefix config @ pb_destination_without_prefix config @ lit '':Publisher''"

definition subscriber_name :: "pystr \<Rightarrow> StompSubscriberUsecaseConfig \<Rightarrow> pystr" where
  "subscriber_name call_name config =
     sc_prefix config @ sc_destination_without_prefix config @ lit '':'' @ call_name"

section \<open>The producer\<close>

text \<open>The items of the copied dictionary; the empty string is no correlation identifier.\<close>

definition publish_headers :: "pystr option \<Rightarrow> headers \<Rightarrow> headers" where
  "publish_headers correlation_id h =
     (case correlation_id of
        None \<Rightarrow> h
      | Some [] \<Rightarrow> h
      | Some i \<Rightarrow> AList.update (lit ''correlation-id'') i h)"

definition make_headers_for_publish ::
  "'m StompPublishCommand \<Rightarrow> ('z trans_scheme, ref) coro" where
  "make_headers_for_publish cmd =
     Act (\<lambda>s. s\<lparr>dicts := snd (alloc (dicts s) (publish_headers (pc_correlation_id cmd)
                                (deref (dicts s) (pc_headers cmd))))\<rparr>)
       (\<lambda>s. ret (fst (alloc (dicts s) (publish_headers (pc_correlation_id cmd)
                                (deref (dicts s) (pc_headers cmd))))))"

definition StompProducer_publish ::
  "('z client_scheme, 'm) framework \<Rightarrow> Client \<Rightarrow> nat \<Rightarrow> 'm StompPublishCommand \<Rightarrow> ('z client_scheme, unit) coro" where
  "StompProducer_publish fw client rounds cmd =
     bind (call (fw_encode_message fw (pc_body cmd))) (\<lambda>(body, content_type).
       bind (make_headers_for_publish cmd) (\<lambda>headers.
         client_send client rounds body (pc_destination cmd) content_type True (Some headers)))"

definition StompProducer_request :: "'m StompPublishCommand \<Rightarrow> ('s, unit) coro" where
  "StompProducer_request cmd = raise_py NotImplementedError"

definition StompProducer_publish_batch ::
  "('z client_scheme, 'm) framework \<Rightarrow> Client \<Rightarrow> nat \<Rightarrow> 'm StompPublishCommand \<Rightarrow> ('z client_scheme, unit) coro" where
  "StompProducer_publish_batch fw client rounds cmd =
     client_begin client rounds (\<lambda>transaction.
       for_each (\<lambda>one_body.
         bind (call (fw_encode_message fw one_body)) (\<lambda>(body, content_type).
           bind (make_headers_for_publish cmd) (\<lambda>headers.
             transaction_send (client_manager client) (client_enter client rounds) transaction body
               (pc_destination cmd) content_type True (Some headers))))
         (fw_batch_bodies fw cmd))"

section \<open>Publishers\<close>

definition StompPublisher_publish_cmd ::
  "('z client_scheme, 'm) framework \<Rightarrow> Client \<Rightarrow> nat \<Rightarrow> StompPublisherUsecaseConfig
     \<Rightarrow> 'm StompPublishCommand \<Rightarrow> ('z client_scheme, unit) coro" where
  "StompPublisher_publish_cmd fw client rounds config cmd =
     bind (from_cmd fw cmd) (\<lambda>publish_command.
       fw_basic_publish fw (StompProducer_publish fw client rounds)
         (publish_command\<lparr>pc_destination := publisher_full_destination config\<rparr>))"

definition StompPublisher_publish ::
  "('z client_scheme, 'm) framework \<Rightarrow> Client \<Rightarrow> nat \<Rightarrow> StompPublisherUsecaseConfig
     \<Rightarrow> 'm \<Rightarrow> pystr option \<Rightarrow> ref option \<Rightarrow> ('z client_scheme, unit) coro" where
  "StompPublisher_publish fw client rounds config message correlation_id headers =
     bind (fw_command fw [message] PUBLISH None (publisher_full_destination config) correlation_id headers)
       (fw_basic_publish fw (StompProducer_publish fw client rounds))"

definition StompPublisher_request ::
  "('s, 'm) framework \<Rightarrow> StompPublisherUsecaseConfig \<Rightarrow> 'm \<Rightarrow> pystr option \<Rightarrow> ref option \<Rightarrow> ('s, unit) coro" where
  "StompPublisher_request fw config message correlation_id headers =
     bind (fw_command fw [message] REQUEST None (publisher_full_destination config) correlation_id headers)
       (fw_basic_request fw StompProducer_request)"

definition StompPublisher_publish_batch ::
  "('z client_scheme, 'm) framework \<Rightarrow> Client \<Rightarrow> nat \<Rightarrow> StompPublisherUsecaseConfig
     \<Rightarrow> 'm list \<Rightarrow> pystr option \<Rightarrow> ref option \<Rightarrow> ('z client_scheme, unit) coro" where
  "StompPublisher_publish_batch fw client rounds config messages correlation_id headers =
     bind (fw_command fw messages PUBLISH None (publisher_full_destination config) correlation_id headers)
       (fw_basic_publish_batch fw (StompProducer_publish_batch fw client rounds))"

section \<open>Subscribers\<close>

text \<open>A subscriber object is referred to by its position among the broker's subscribers; \<open>handler\<close> is the
  number of its \<open>consume\<close> method.\<close>

definition set_subscription :: "nat \<Rightarrow> subscription \<Rightarrow> ('z broker_scheme, unit) coro" where
  "set_subscription k sub = modify (\<lambda>s. s\<lparr>b_subscriptions := (b_subscriptions s)(k \<mapsto> sub)\<rparr>)"

definition StompSubscriber_start ::
  "('z broker_scheme, 'm) framework \<Rightarrow> Client \<Rightarrow> nat \<Rightarrow> StompSubscriberUsecaseConfig \<Rightarrow> nat \<Rightarrow> nat
     \<Rightarrow> ('z broker_scheme, unit) coro" where
  "StompSubscriber_start fw client rounds config handler k =
     seq (fw_subscriber_start fw k)
       (bind (client_subscribe client rounds (subscriber_full_destination config) (sc_headers config)
                (sc_ack_mode config) (ManualAckSubscription handler))
          (\<lambda>sub. seq (set_subscription k sub) (fw_subscriber_post_start fw k)))"

definition StompSubscriber_stop ::
  "('z broker_scheme, 'm) framework \<Rightarrow> nat \<Rightarrow> ('z broker_scheme, unit) coro" where
  "StompSubscriber_stop fw k =
     seq (bind (get (\<lambda>s. b_subscriptions s k)) (\<lambda>sub. case sub of None \<Rightarrow> ret () | Some sub \<Rightarrow> unsubscribe sub))
       (fw_subscriber_stop fw k)"

definition StompSubscriber_get_one :: "('s, 'a) coro" where
  "StompSubscriber_get_one = raise_py NotImplementedError"

definition StompSubscriber_aiter :: "('s, 'a) coro" where
  "StompSubscriber_aiter = raise_py NotImplementedError"

definition patch_command ::
  "('s, 'm) framework \<Rightarrow> pystr \<Rightarrow> 'm StompPublishCommand \<Rightarrow> ('s, 'm StompPublishCommand) coro" where
  "patch_command fw reply_to cmd =
     bind (fw_patch_command fw cmd) (\<lambda>cmd.
       bind (from_cmd fw cmd) (\<lambda>real_cmd. ret (real_cmd\<lparr>pc_destination := reply_to\<rparr>)))"

text \<open>\<open>headers[key]\<close> of a message.\<close>

definition message_header :: "StompStreamMessage \<Rightarrow> string \<Rightarrow> py_exn + pystr" where
  "message_header message key =
     (case map_of (am_headers (sm_raw_message message)) (lit key) of
        None \<Rightarrow> Inl (KeyError (lit key)) | Some v \<Rightarrow> Inr v)"

definition get_log_context ::
  "StompSubscriberUsecaseConfig \<Rightarrow> StompStreamMessage option \<Rightarrow> py_exn + headers" where
  "get_log_context config message =
     (case message of
        None \<Rightarrow>
          Inr [(lit ''destination'', subscriber_full_destination config), (lit ''message_id'', [])]
      | Some m \<Rightarrow>
          (case message_header m ''destination'' of
             Inl e \<Rightarrow> Inl e
           | Inr destination \<Rightarrow>
               Inr [(lit ''destination'', destination), (lit ''message_id'', sm_message_id m)]))"

section \<open>The broker\<close>

text \<open>How the listening task ended: \<open>exception()\<close> of a task is an exception, in a group or not.\<close>

datatype task_exception = ExceptionGroup "exn list" | OtherException exn

datatype task_end = TaskCancelled | TaskReturned | TaskFailed task_exception

definition handle_listen_task_done :: "task_end \<Rightarrow> ('z net_scheme, unit) coro" where
  "handle_listen_task_done listen_task =
     (case listen_task of
        TaskCancelled \<Rightarrow> ret ()
      | TaskReturned \<Rightarrow> ret ()
      | TaskFailed (ExceptionGroup (FailedAllConnectAttemptsError _ _ # _)) \<Rightarrow> raise_py (SystemExit 1)
      | TaskFailed _ \<Rightarrow> logger Error ''listen task exited with unhandled exception'')"

definition StompBroker_connect :: "Client \<Rightarrow> nat \<Rightarrow> ('z broker_scheme, unit) coro" where
  "StompBroker_connect client rounds =
     bind (get b_attempted_to_connect) (\<lambda>attempted.
       if attempted then ret ()
       else
         seq (modify (\<lambda>s. s\<lparr>b_attempted_to_connect := True\<rparr>))
           (seq (client_aenter client rounds) (modify (\<lambda>s. s\<lparr>b_listen_callback := True\<rparr>))))"

definition StompBroker_start ::
  "('z broker_scheme, 'm) framework \<Rightarrow> Client \<Rightarrow> nat \<Rightarrow> ('z broker_scheme, unit) coro" where
  "StompBroker_start fw client rounds =
     seq (fw_broker_connect fw (StompBroker_connect client rounds)) (fw_broker_start fw)"

definition StompBroker_stop ::
  "('z broker_scheme, 'm) framework \<Rightarrow> nat list \<Rightarrow> bool \<Rightarrow> exn option \<Rightarrow> ('z broker_scheme, unit) coro" where
  "StompBroker_stop fw subscribers failed group_failure =
     seq (modify (\<lambda>s. s\<lparr>b_stopping := True\<rparr>))
       (seq (for_each (StompSubscriber_stop fw) subscribers)
          (seq (bind (get b_connection) (\<lambda>connection.
                  if connection then client_aexit failed group_failure else ret ()))
             (modify (\<lambda>s. s\<lparr>b_running := False\<rparr>))))"

text \<open>The polling loop of \<open>ping\<close> inside \<open>anyio.move_on_after(timeout)\<close>: a sleep ends at the latest when the
  deadline is reached. The number bounds the polls.\<close>

definition expired :: "rat option \<Rightarrow> rat \<Rightarrow> bool" where
  "expired deadline now \<longleftrightarrow> (case deadline of None \<Rightarrow> False | Some d \<Rightarrow> d \<le> now)"

fun ping_loop :: "Client \<Rightarrow> rat option \<Rightarrow> rat \<Rightarrow> nat \<Rightarrow> ('z broker_scheme, bool) coro" where
  "ping_loop client deadline sleep_time 0 = never"
| "ping_loop client deadline sleep_time (Suc n) =
     bind (get n_time) (\<lambda>now.
       if expired deadline now then ret False
       else
         bind (get (client_is_alive client)) (\<lambda>alive.
           if alive then ret True
           else
             seq (sleep (case deadline of None \<Rightarrow> sleep_time | Some d \<Rightarrow> min sleep_time (d - now)))
               (ping_loop client deadline sleep_time n)))"

definition StompBroker_ping :: "Client \<Rightarrow> rat option \<Rightarrow> nat \<Rightarrow> ('z broker_scheme, bool) coro" where
  "StompBroker_ping client timeout n =
     bind (get b_stopping) (\<lambda>stopping.
       if stopping then ret False
       else
         bind (get n_time) (\<lambda>now.
           bind (get b_connection) (\<lambda>connection.
             if \<not> connection then ret False
             else
               ping_loop client (map_option (\<lambda>t. now + t) timeout)
                 ((case timeout of None \<Rightarrow> 10 | Some t \<Rightarrow> if t = 0 then 10 else t) / 10) n)))"

definition StompBroker_publish ::
  "('z client_scheme, 'm) framework \<Rightarrow> Client \<Rightarrow> nat \<Rightarrow> 'm \<Rightarrow> pystr \<Rightarrow> pystr option \<Rightarrow> ref option
     \<Rightarrow> ('z client_scheme, unit) coro" where
  "StompBroker_publish fw client rounds message destination correlation_id headers =
     bind (fw_command fw [message] PUBLISH None destination correlation_id headers)
       (fw_basic_publish fw (StompProducer_publish fw client rounds))"

definition StompBroker_request ::
  "('s, 'm) framework \<Rightarrow> 'm \<Rightarrow> pystr \<Rightarrow> pystr option \<Rightarrow> ref option \<Rightarrow> ('s, unit) coro" where
  "StompBroker_request fw message destination correlation_id headers =
     bind (fw_command fw [message] REQUEST None destination correlation_id headers)
       (fw_basic_request fw StompProducer_request)"

definition StompBroker_publish_batch ::
  "('z client_scheme, 'm) framework \<Rightarrow> Client \<Rightarrow> nat \<Rightarrow> 'm list \<Rightarrow> pystr \<Rightarrow> pystr option \<Rightarrow> ref option
     \<Rightarrow> ('z client_scheme, unit) coro" where
  "StompBroker_publish_batch fw client rounds messages destination correlation_id headers =
     bind (fw_command fw messages PUBLISH None destination correlation_id headers)
       (fw_basic_publish_batch fw (StompProducer_publish_batch fw client rounds))"

section \<open>Telemetry\<close>

text \<open>The attribute names are constants of the telemetry packages.\<close>

datatype attribute =
    MESSAGING_SYSTEM | MESSAGING_MESSAGE_ID | MESSAGING_MESSAGE_CONVERSATION_ID
  | MESSAGING_MESSAGE_PAYLOAD_SIZE_BYTES | MESSAGING_DESTINATION_PUBLISH_NAME | MESSAGING_DESTINATION_NAME

datatype attribute_value = Text pystr | Number nat

definition messaging_system :: pystr where
  "messaging_system = lit ''stomp''"

definition get_consume_destination_name :: "StompStreamMessage \<Rightarrow> py_exn + pystr" where
  "get_consume_destination_name msg = message_header msg ''destination''"

definition get_consume_attrs_from_message ::
  "StompStreamMessage \<Rightarrow> py_exn + (attribute \<times> attribute_value) list" where
  "get_consume_attrs_from_message msg =
     (case message_header msg ''destination'' of
        Inl e \<Rightarrow> Inl e
      | Inr destination \<Rightarrow>
          Inr [(MESSAGING_SYSTEM, Text messaging_system),
               (MESSAGING_MESSAGE_ID, Text (sm_message_id msg)),
               (MESSAGING_MESSAGE_CONVERSATION_ID, Text (sm_correlation_id msg)),
               (MESSAGING_MESSAGE_PAYLOAD_SIZE_BYTES, Number (length (sm_body msg))),
               (MESSAGING_DESTINATION_PUBLISH_NAME, Text destination)])"

definition get_publish_attrs_from_cmd ::
  "'m StompPublishCommand \<Rightarrow> (attribute \<times> attribute_value) list" where
  "get_publish_attrs_from_cmd cmd =
     [(MESSAGING_SYSTEM, Text messaging_system), (MESSAGING_DESTINATION_NAME, Text (pc_destination cmd))] @
     (case pc_correlation_id cmd of
        None \<Rightarrow> [] | Some [] \<Rightarrow> []
      | Some i \<Rightarrow> [(MESSAGING_MESSAGE_CONVERSATION_ID, Text i)])"

definition get_publish_destination_name :: "'m StompPublishCommand \<Rightarrow> pystr" where
  "get_publish_destination_name cmd = pc_destination cmd"

text \<open>The consume attributes of the metrics provider.\<close>

record ConsumeAttrs =
  ca_destination_name :: pystr
  ca_message_size :: nat
  ca_messages_count :: nat

definition metrics_consume_attrs :: "StompStreamMessage \<Rightarrow> py_exn + ConsumeAttrs" where
  "metrics_consume_attrs msg =
     (case message_header msg ''destination'' of
        Inl e \<Rightarrow> Inl e
      | Inr destination \<Rightarrow>
          Inr \<lparr>ca_destination_name = destination, ca_message_size = length (sm_body msg),
               ca_messages_count = 1\<rparr>)"

definition get_publish_destination_name_from_cmd :: "'m StompPublishCommand \<Rightarrow> pystr" where
  "get_publish_destination_name_from_cmd cmd = pc_destination cmd"

end
