(* ===== verification/Registration.thy ===== *)
theory Registration
  imports Faststream
begin

text \<open>
  \<open>faststream_stomp/registrator.py\<close> and the routes of \<open>router.py\<close>: how subscribers and publishers are registered,
  at once or through a router. Arguments are bound to parameters as in a Python call. A route is
  proved to be a delayed registration.
\<close>

section \<open>Calling a Python function\<close>

text \<open>
  A value passed to a constructor: the types the code knows, and objects it only passes on (dependencies, custom callables,
  schemas, middlewares).
\<close>

datatype 'v argument =
    PyNone | PyStr pystr | PyBool bool | PyMode AckMode | PyHeaders headers | PyItems "'v list" | PyObject 'v

type_synonym 'v kwargs = "(string, 'v argument) dict"
type_synonym 'v signature = "(string \<times> 'v argument option) list"

text \<open>
  The binding of arguments to the parameters of a signature: first the positional ones, then those that can be given by
  name only; a parameter without a default has to be given.
\<close>

fun bind_parameters :: "'v signature \<Rightarrow> 'v kwargs \<Rightarrow> py_exn + 'v kwargs" where
  "bind_parameters [] given = Inr []"
| "bind_parameters ((name, default_value) # parameters) given =
     (case (map_of given name, default_value) of
        (None, None) \<Rightarrow> Inl TypeError
      | (None, Some v) \<Rightarrow> map_sum id (Cons (name, v)) (bind_parameters parameters given)
      | (Some v, _) \<Rightarrow> map_sum id (Cons (name, v)) (bind_parameters parameters given))"

definition python_call ::
  "'v signature \<Rightarrow> 'v signature \<Rightarrow> 'v argument list \<Rightarrow> 'v kwargs \<Rightarrow> py_exn + 'v kwargs" where
  "python_call positional keyword_only args kwargs =
     (let taken = take (length args) (map fst positional) in
      if length positional < length args \<or>
         (\<exists>name \<in> fst ` set kwargs. name \<in> set taken \<or> name \<notin> fst ` set (positional @ keyword_only))
      then Inl TypeError
      else bind_parameters (positional @ keyword_only) (zip taken args @ kwargs))"

section \<open>Signatures\<close>

definition subscriber_positional :: "'v signature" where
  "subscriber_positional = [(''destination'', None)]"

definition subscriber_keywords :: "'v signature" where
  "subscriber_keywords =
     [(''ack_mode'', Some (PyMode ClientIndividual)), (''headers'', Some PyNone), (''dependencies'', Some (PyItems [])),
      (''parser'', Some PyNone), (''decoder'', Some PyNone), (''title'', Some PyNone), (''description'', Some PyNone),
      (''include_in_schema'', Some (PyBool True))]"

definition publisher_keywords :: "'v signature" where
  "publisher_keywords =
     [(''schema_'', Some PyNone), (''title_'', Some PyNone), (''description_'', Some PyNone),
      (''include_in_schema'', Some (PyBool True))]"

text \<open>\<open>StompRoutePublisher\<close> and \<open>StompRoute\<close>: the keyword arguments that are passed to the superclass.\<close>

definition route_publisher_keywords :: "'v signature" where
  "route_publisher_keywords =
     [(''schema_'', Some PyNone), (''title_'', Some PyNone), (''description_'', Some PyNone),
      (''include_in_schema'', Some (PyBool True))]"

definition route_keywords :: "'v signature" where
  "route_keywords =
     [(''ack_mode'', Some (PyMode ClientIndividual)), (''headers'', Some PyNone), (''publishers'', Some (PyItems [])),
      (''dependencies'', Some (PyItems [])), (''parser'', Some PyNone), (''decoder'', Some PyNone),
      (''title'', Some PyNone), (''description'', Some PyNone), (''include_in_schema'', Some (PyBool True))]"

text \<open>The local variable of a call, and a call that passes local variables on by keyword.\<close>

definition local_value :: "'v kwargs \<Rightarrow> string \<Rightarrow> 'v argument" where
  "local_value env name = (case map_of env name of None \<Rightarrow> PyNone | Some v \<Rightarrow> v)"

definition pass_on :: "(string \<times> string) list \<Rightarrow> 'v kwargs \<Rightarrow> 'v kwargs" where
  "pass_on keywords env = map (\<lambda>(keyword, name). (keyword, local_value env name)) keywords"

definition StompRoutePublisher :: "'v argument list \<Rightarrow> 'v kwargs \<Rightarrow> py_exn + 'v kwargs" where
  "StompRoutePublisher args kwargs =
     map_sum id
       (pass_on [(''destination'', ''destination''), (''schema_'', ''schema_''), (''title_'', ''title_''),
                 (''description_'', ''description_''), (''include_in_schema'', ''include_in_schema'')])
       (python_call [(''destination'', None)] route_publisher_keywords args kwargs)"

definition StompRoute :: "'v argument list \<Rightarrow> 'v kwargs \<Rightarrow> py_exn + 'v kwargs" where
  "StompRoute args kwargs =
     map_sum id
       (pass_on [(''call'', ''call''), (''destination'', ''destination''), (''ack_mode'', ''ack_mode''),
                 (''headers'', ''headers''), (''publishers'', ''publishers''), (''dependencies'', ''dependencies''),
                 (''parser'', ''parser''), (''decoder'', ''decoder''), (''title'', ''title''),
                 (''description'', ''description''), (''include_in_schema'', ''include_in_schema'')])
       (python_call [(''call'', None), (''destination'', None)] route_keywords args kwargs)"

section \<open>Registering subscribers and publishers\<close>

text \<open>The parser and decoder of a configuration default to \<open>StompStreamMessage.from_frame\<close> and
  \<open>to_async(decode_message)\<close>.\<close>

datatype default_callable = From_frame | Decode_message

text \<open>The outer configuration is an object of the framework, whose prefix is read when it is used.\<close>

record 'c subscriber_config =
  su_outer_config :: 'c
  su_destination_without_prefix :: pystr
  su_ack_mode :: AckMode
  su_headers :: "headers option"
  su_parser :: default_callable
  su_decoder :: default_callable

definition resolve_subscriber_config :: "('c \<Rightarrow> pystr) \<Rightarrow> 'c subscriber_config \<Rightarrow> StompSubscriberUsecaseConfig" where
  "resolve_subscriber_config prefix_of config =
     \<lparr>sc_prefix = prefix_of (su_outer_config config),
      sc_destination_without_prefix = su_destination_without_prefix config,
      sc_ack_mode = su_ack_mode config, sc_headers = su_headers config\<rparr>"

record ('v, 'c) StompSubscriberSpecification =
  ssp_outer_config :: 'c
  ssp_title :: "'v argument"
  ssp_description :: "'v argument"
  ssp_include_in_schema :: "'v argument"
  ssp_destination_without_prefix :: pystr
  ssp_ack_mode :: AckMode
  ssp_headers :: "headers option"
  ssp_parser :: default_callable
  ssp_decoder :: default_callable
  ssp_calls :: nat

record 'c publisher_config =
  pu_outer_config :: 'c
  pu_destination_without_prefix :: pystr

definition resolve_publisher_config :: "('c \<Rightarrow> pystr) \<Rightarrow> 'c publisher_config \<Rightarrow> StompPublisherUsecaseConfig" where
  "resolve_publisher_config prefix_of config =
     \<lparr>pb_prefix = prefix_of (pu_outer_config config),
      pb_destination_without_prefix = pu_destination_without_prefix config\<rparr>"

record ('v, 'c) StompPublisherSpecification =
  psp_outer_config :: 'c
  psp_title :: "'v argument"
  psp_description :: "'v argument"
  psp_schema :: "'v argument"
  psp_include_in_schema :: "'v argument"
  psp_destination_without_prefix :: pystr

text \<open>
  What registering uses of FastStream and of Python: the registrator's \<open>config\<close>, \<open>_parser\<close> and \<open>_decoder\<close>, new objects, the
  constructors of the superclasses, \<open>super().subscriber\<close>, \<open>add_call\<close> and \<open>super().publisher\<close>.
\<close>

record ('s, 'v, 'c) registrator =
  rg_config :: 'c
  rg_parser :: "'s \<Rightarrow> 'v argument"
  rg_decoder :: "'s \<Rightarrow> 'v argument"
  rg_new_object :: "('s, nat) coro"
  rg_subscriber_init :: "nat \<Rightarrow> 'c subscriber_config \<Rightarrow> ('v, 'c) StompSubscriberSpecification \<Rightarrow> nat \<Rightarrow> ('s, unit) coro"
  rg_register_subscriber :: "nat \<Rightarrow> ('s, unit) coro"
  rg_add_call :: "nat \<Rightarrow> 'v argument \<Rightarrow> 'v argument \<Rightarrow> 'v argument \<Rightarrow> ('s, nat) coro"
  rg_publisher_init :: "nat \<Rightarrow> 'c publisher_config \<Rightarrow> ('v, 'c) StompPublisherSpecification \<Rightarrow> ('s, unit) coro"
  rg_register_publisher :: "nat \<Rightarrow> ('s, unit) coro"

text \<open>Arguments of the types that the code declares; any other is an error here.\<close>

fun str_argument :: "'v argument \<Rightarrow> py_exn + pystr" where
  "str_argument (PyStr s) = Inr s"
| "str_argument _ = Inl TypeError"

fun mode_argument :: "'v argument \<Rightarrow> py_exn + AckMode" where
  "mode_argument (PyMode a) = Inr a"
| "mode_argument _ = Inl TypeError"

fun headers_argument :: "'v argument \<Rightarrow> py_exn + headers option" where
  "headers_argument PyNone = Inr None"
| "headers_argument (PyHeaders h) = Inr (Some h)"
| "headers_argument _ = Inl TypeError"

text \<open>\<open>a or b\<close> for an optional callable.\<close>

definition or_else :: "'v argument \<Rightarrow> 'v argument \<Rightarrow> 'v argument" where
  "or_else a b = (if a = PyNone then b else a)"

definition StompSubscriber_init ::
  "('z broker_scheme, 'v, 'c) registrator \<Rightarrow> nat \<Rightarrow> 'c subscriber_config \<Rightarrow> ('v, 'c) StompSubscriberSpecification
     \<Rightarrow> nat \<Rightarrow> ('z broker_scheme, unit) coro" where
  "StompSubscriber_init reg k config specification calls =
     seq (modify (\<lambda>s. s\<lparr>b_subscriptions := (b_subscriptions s)(k := None)\<rparr>))
       (rg_subscriber_init reg k config specification calls)"

definition new_subscriber_config :: "'c \<Rightarrow> pystr \<Rightarrow> AckMode \<Rightarrow> headers option \<Rightarrow> 'c subscriber_config" where
  "new_subscriber_config outer_config destination ack_mode headers =
     \<lparr>su_outer_config = outer_config, su_destination_without_prefix = destination, su_ack_mode = ack_mode,
      su_headers = headers, su_parser = From_frame, su_decoder = Decode_message\<rparr>"

definition StompRegistrator_subscriber ::
  "('z broker_scheme, 'v, 'c) registrator \<Rightarrow> 'v argument list \<Rightarrow> 'v kwargs \<Rightarrow> ('z broker_scheme, nat) coro" where
  "StompRegistrator_subscriber reg args kwargs =
     bind (call (python_call subscriber_positional subscriber_keywords args kwargs)) (\<lambda>env.
       bind (call (str_argument (local_value env ''destination''))) (\<lambda>destination.
         bind (call (mode_argument (local_value env ''ack_mode''))) (\<lambda>ack_mode.
           bind (call (headers_argument (local_value env ''headers''))) (\<lambda>headers.
             bind (rg_new_object reg) (\<lambda>calls.
               bind (rg_new_object reg) (\<lambda>k.
                 seq (StompSubscriber_init reg k
                        (new_subscriber_config (rg_config reg) destination ack_mode headers)
                        \<lparr>ssp_outer_config = rg_config reg, ssp_title = local_value env ''title'',
                         ssp_description = local_value env ''description'',
                         ssp_include_in_schema = local_value env ''include_in_schema'',
                         ssp_destination_without_prefix = destination, ssp_ack_mode = ack_mode,
                         ssp_headers = headers, ssp_parser = From_frame, ssp_decoder = Decode_message,
                         ssp_calls = calls\<rparr>
                        calls)
                   (seq (rg_register_subscriber reg k)
                      (bind (get (rg_parser reg)) (\<lambda>own_parser.
                         bind (get (rg_decoder reg)) (\<lambda>own_decoder.
                           rg_add_call reg k (or_else (local_value env ''parser'') own_parser)
                             (or_else (local_value env ''decoder'') own_decoder)
                             (local_value env ''dependencies'')))))))))))"

definition new_publisher_config :: "'c \<Rightarrow> pystr \<Rightarrow> 'c publisher_config" where
  "new_publisher_config outer_config destination =
     \<lparr>pu_outer_config = outer_config, pu_destination_without_prefix = destination\<rparr>"

definition StompPublisher_init ::
  "('s, 'v, 'c) registrator \<Rightarrow> nat \<Rightarrow> 'c publisher_config \<Rightarrow> ('v, 'c) StompPublisherSpecification \<Rightarrow> ('s, unit) coro" where
  "StompPublisher_init reg k config specification = rg_publisher_init reg k config specification"

definition StompRegistrator_publisher ::
  "('s, 'v, 'c) registrator \<Rightarrow> 'v argument list \<Rightarrow> 'v kwargs \<Rightarrow> ('s, nat) coro" where
  "StompRegistrator_publisher reg args kwargs =
     bind (call (python_call [(''destination'', None)] publisher_keywords args kwargs)) (\<lambda>env.
       bind (call (str_argument (local_value env ''destination''))) (\<lambda>destination.
         bind (rg_new_object reg) (\<lambda>k.
           seq (StompPublisher_init reg k (new_publisher_config (rg_config reg) destination)
                  \<lparr>psp_outer_config = rg_config reg, psp_title = local_value env ''title_'',
                   psp_description = local_value env ''description_'', psp_schema = local_value env ''schema_'',
                   psp_include_in_schema = local_value env ''include_in_schema'',
                   psp_destination_without_prefix = destination\<rparr>)
             (seq (rg_register_publisher reg k) (ret k)))))"

section \<open>Properties of routes\<close>

lemma bind_parameters_error: "bind_parameters ps given = Inl e \<Longrightarrow> e = TypeError"
proof (induction ps)
  case (Cons p ps)
  then show ?case
    by (cases p; cases "bind_parameters ps given"; cases "map_of given (fst p)"; cases "snd p") simp_all
qed simp

lemma bind_parameters_names: "bind_parameters ps given = Inr env \<Longrightarrow> map fst env = map fst ps"
proof (induction ps arbitrary: env)
  case (Cons p ps)
  then show ?case
    by (cases p; cases "bind_parameters ps given"; cases "map_of given (fst p)"; cases "snd p") auto
qed simp

lemma bind_parameters_given:
  "map fst env = map fst ps \<Longrightarrow> \<forall>(n, v) \<in> set env. map_of given n = Some v \<Longrightarrow> bind_parameters ps given = Inr env"
  by (induction ps given arbitrary: env rule: bind_parameters.induct) (auto simp: Cons_eq_map_conv)

lemma bind_parameters_again:
  assumes "bind_parameters ps given = Inr env" "distinct (map fst ps)"
  shows "bind_parameters ps env = Inr env"
  using assms bind_parameters_names [OF assms(1)] by (intro bind_parameters_given) (auto intro!: map_of_is_SomeI)

lemma bind_parameters_cong:
  "\<forall>n \<in> fst ` set ps. map_of given n = map_of given' n \<Longrightarrow> bind_parameters ps given = bind_parameters ps given'"
  by (induction ps) (auto split: option.splits)

lemma bind_parameters_filter:
  assumes "\<forall>(n, d) \<in> set ps. P n \<or> d \<noteq> None \<or> map_of given n \<noteq> None"
  shows "bind_parameters (filter (\<lambda>(n, d). P n) ps) given = map_sum id (filter (\<lambda>(n, v). P n)) (bind_parameters ps given)"
  using assms
proof (induction ps)
  case (Cons p ps)
  then show ?case
    by (cases p; cases "bind_parameters ps given") (auto split: option.splits)
qed simp

lemma pass_on_same:
  assumes "map fst env = names" "distinct names"
  shows "pass_on (map (\<lambda>n. (n, n)) names) env = env"
  using assms by (auto simp: pass_on_def local_value_def intro!: map_idI)

lemma python_call_error: "python_call pos kw args kwargs = Inl e \<Longrightarrow> e = TypeError"
  by (auto simp: python_call_def Let_def dest: bind_parameters_error split: if_splits)

lemma python_call_names: "python_call pos kw args kwargs = Inr env \<Longrightarrow> map fst env = map fst (pos @ kw)"
  by (auto simp: python_call_def Let_def dest: bind_parameters_names split: if_splits)

lemma python_call_again:
  assumes "python_call pos kw args kwargs = Inr env" "distinct (map fst (pos @ kw))"
  shows "python_call pos kw [] env = Inr env"
proof -
  have names: "fst ` set env = fst ` set (pos @ kw)"
    using python_call_names [OF assms(1)] by (metis list.set_map)
  have "bind_parameters (pos @ kw) env = Inr env"
    using assms by (intro bind_parameters_again) (auto simp: python_call_def Let_def split: if_splits)
  then show ?thesis by (simp add: python_call_def names)
qed

lemma route_signature:
  "filter (\<lambda>(n, d). n \<notin> {''call'', ''publishers''}) ([(''call'', None), (''destination'', None)] @ route_keywords) =
    subscriber_positional @ subscriber_keywords"
  by (simp add: route_keywords_def subscriber_positional_def subscriber_keywords_def)

lemma map_of_without: "n \<noteq> p \<Longrightarrow> map_of [(n, v) \<leftarrow> kwargs. n \<noteq> p] n = map_of kwargs n"
  by (induction kwargs) auto

lemma accepted_names:
  assumes "B = insert c (insert p A)" "c \<notin> A" "p \<notin> T" "c \<noteq> p"
  shows "(\<exists>name \<in> fst ` set [(n, v) \<leftarrow> kwargs. n \<noteq> p]. name \<in> T \<or> name \<notin> A) \<longleftrightarrow>
    (\<exists>name \<in> fst ` set kwargs. name \<in> insert c T \<or> name \<notin> B)"
proof -
  have "fst ` set [(n, v) \<leftarrow> kwargs. n \<noteq> p] = {n \<in> fst ` set kwargs. n \<noteq> p}" by force
  then show ?thesis using assms by auto
qed

lemma route_call:
  fixes c :: "'v argument"
  shows "python_call subscriber_positional subscriber_keywords args [(n, v) \<leftarrow> kwargs. n \<noteq> ''publishers''] =
    map_sum id (filter (\<lambda>(n, v). n \<notin> {''call'', ''publishers''}))
      (python_call [(''call'', None), (''destination'', None)] route_keywords (c # args) kwargs)"
  (is "?direct = map_sum id ?f ?route")
proof -
  let ?S = "[(''call'', None), (''destination'', None)] @ (route_keywords :: 'v signature)"
  let ?D = "subscriber_positional @ (subscriber_keywords :: 'v signature)"
  let ?given = "zip (''call'' # take (length args) [''destination'']) (c # args) @ kwargs"
  let ?direct_given = "zip (take (length args) [''destination'']) args @ [(n, v) \<leftarrow> kwargs. n \<noteq> ''publishers'']"
  let ?bad = "length args > 1 \<or> (\<exists>name \<in> fst ` set kwargs.
    name \<in> set (''call'' # take (length args) [''destination'']) \<or> name \<notin> fst ` set ?S)"
  have route: "?route = (if ?bad then Inl TypeError else bind_parameters ?S ?given)"
    by (simp add: python_call_def)
  have direct: "?direct = (if ?bad then Inl TypeError else bind_parameters ?D ?direct_given)"
  proof -
    have 1: "fst ` set ?S = insert ''call'' (insert ''publishers'' (fst ` set ?D))"
      "''call'' \<notin> fst ` set ?D" "map fst (subscriber_positional :: 'v signature) = [''destination'']"
      "length (subscriber_positional :: 'v signature) = 1"
      by (auto simp: route_keywords_def subscriber_positional_def subscriber_keywords_def)
    have 2: "''publishers'' \<notin> set (take (length args) [''destination''])" "''call'' \<noteq> ''publishers''"
      by (auto dest: in_set_takeD)
    show ?thesis
      unfolding python_call_def Let_def 1(3,4) accepted_names [OF 1(1,2) 2] list.set(2) by (rule refl)
  qed
  have "bind_parameters ?D ?direct_given =
      bind_parameters ?D ?given"
  proof (intro bind_parameters_cong ballI)
    fix n
    assume "n \<in> fst ` set ?D"
    then have "n \<noteq> ''call''" "n \<noteq> ''publishers''" by (auto simp: subscriber_positional_def subscriber_keywords_def)
    then show "map_of ?direct_given n = map_of ?given n"
      by (simp add: map_add_def map_of_without cong: option.case_cong)
  qed
  also have "\<dots> = map_sum id ?f (bind_parameters ?S ?given)"
    unfolding route_signature [symmetric]
    by (rule bind_parameters_filter) (auto simp: route_keywords_def)
  finally have "bind_parameters ?D ?direct_given = map_sum id ?f (bind_parameters ?S ?given)" .
  then show ?thesis unfolding route direct by (cases ?bad) (simp_all only: if_True if_False map_sum.simps id_apply)
qed


lemma route_stored:
  "StompRoute args kwargs = python_call [(''call'', None), (''destination'', None)] route_keywords args kwargs" (is "_ = ?call")
proof (cases ?call)
  case (Inr env)
  have "pass_on (map (\<lambda>n. (n, n)) (map fst ([(''call'', None), (''destination'', None)] @ route_keywords))) env = env"
    using python_call_names [OF Inr] by (intro pass_on_same) (simp_all add: route_keywords_def)
  with Inr show ?thesis by (simp add: StompRoute_def route_keywords_def)
qed (simp add: StompRoute_def)

lemma route_publisher_stored:
  "StompRoutePublisher args kwargs = python_call [(''destination'', None)] publisher_keywords args kwargs" (is "_ = ?call")
proof (cases ?call)
  case (Inr env)
  have "pass_on (map (\<lambda>n. (n, n)) (map fst ([(''destination'', None)] @ publisher_keywords))) env = env"
    using python_call_names [OF Inr] by (intro pass_on_same) (simp_all add: publisher_keywords_def)
  with Inr show ?thesis
    by (simp add: StompRoutePublisher_def route_publisher_keywords_def publisher_keywords_def)
qed (simp add: StompRoutePublisher_def route_publisher_keywords_def publisher_keywords_def)

text \<open>C24. A route is a delayed registration. The keyword arguments that \<open>StompRoute(call, ...)\<close> hands to the framework, without
  \<open>call\<close> and \<open>publishers\<close>, register the same subscriber when they are given to \<open>subscriber\<close> later as the
  arguments of the route would at once: every parameter, given or left to its default, by position or by name.
  \<open>StompRoute\<close> raises \<open>TypeError\<close> exactly when \<open>subscriber\<close> would. The same holds for
  \<open>StompRoutePublisher\<close> and \<open>publisher\<close>.\<close>

theorem route_registers_directly:
  fixes reg :: "('z broker_scheme, 'v, 'c) registrator"
  shows "(case StompRoute (handler # args) kwargs of
       Inl e \<Rightarrow> e = TypeError \<and>
         StompRegistrator_subscriber reg args [(n, v) \<leftarrow> kwargs. n \<noteq> ''publishers''] = raise_py TypeError
     | Inr stored \<Rightarrow>
         StompRegistrator_subscriber reg [] [(n, v) \<leftarrow> stored. n \<notin> {''call'', ''publishers''}] =
         StompRegistrator_subscriber reg args [(n, v) \<leftarrow> kwargs. n \<noteq> ''publishers'']) \<and>
    (case StompRoutePublisher args' kwargs' of
       Inl e \<Rightarrow> e = TypeError \<and> StompRegistrator_publisher reg args' kwargs' = raise_py TypeError
     | Inr stored \<Rightarrow> StompRegistrator_publisher reg [] stored = StompRegistrator_publisher reg args' kwargs')"
proof (intro conjI)
  let ?f = "filter (\<lambda>(n, v). n \<notin> {''call'', ''publishers''})"
  let ?direct = "python_call subscriber_positional subscriber_keywords args [(n, v) \<leftarrow> kwargs. n \<noteq> ''publishers'']"
  have direct: "?direct = map_sum id ?f (StompRoute (handler # args) kwargs)"
    using route_call [of args kwargs handler] by (simp only: route_stored)
  show "case StompRoute (handler # args) kwargs of
       Inl e \<Rightarrow> e = TypeError \<and>
         StompRegistrator_subscriber reg args [(n, v) \<leftarrow> kwargs. n \<noteq> ''publishers''] = raise_py TypeError
     | Inr stored \<Rightarrow> StompRegistrator_subscriber reg [] (?f stored) =
         StompRegistrator_subscriber reg args [(n, v) \<leftarrow> kwargs. n \<noteq> ''publishers'']"
  proof (cases "StompRoute (handler # args) kwargs")
    case (Inl e)
    then show ?thesis
      using direct python_call_error [of _ _ _ _ e] by (simp add: StompRegistrator_subscriber_def call_def route_stored)
  next
    case (Inr stored)
    then have "?direct = Inr (?f stored)" using direct by simp
    moreover from this have "python_call subscriber_positional subscriber_keywords [] (?f stored) = Inr (?f stored)"
      by (rule python_call_again) (simp add: subscriber_positional_def subscriber_keywords_def)
    ultimately show ?thesis using Inr by (simp add: StompRegistrator_subscriber_def)
  qed
  show "case StompRoutePublisher args' kwargs' of
       Inl e \<Rightarrow> e = TypeError \<and> StompRegistrator_publisher reg args' kwargs' = raise_py TypeError
     | Inr stored \<Rightarrow> StompRegistrator_publisher reg [] stored = StompRegistrator_publisher reg args' kwargs'"
  proof (cases "StompRoutePublisher args' kwargs'")
    case (Inl e)
    then show ?thesis
      using python_call_error [of _ _ _ _ e] by (simp add: StompRegistrator_publisher_def call_def route_publisher_stored)
  next
    case (Inr stored)
    then have "python_call [(''destination'', None)] publisher_keywords [] stored = Inr stored"
      unfolding route_publisher_stored by (rule python_call_again) (simp add: publisher_keywords_def)
    with Inr show ?thesis by (simp add: StompRegistrator_publisher_def route_publisher_stored)
  qed
qed

end
