(* ===== verification/Faststream_Testing.thy ===== *)
theory Faststream_Testing
  imports Registration
begin

text \<open>
  \<open>faststream_stomp/testing.py\<close>: the in-memory broker for tests. Publishing hands the message to
  the subscribers of the destination instead of sending it.
\<close>

section \<open>Subscribers of a test broker\<close>

text \<open>\<open>create_publisher_fake_subscriber\<close>: the first subscriber with the publisher's destination, or a new
  one. The broker's subscribers are given by their configurations; \<open>outer_prefix\<close> is the broker's.\<close>

fun find_subscriber :: "pystr \<Rightarrow> StompSubscriberUsecaseConfig list \<Rightarrow> nat \<Rightarrow> nat option" where
  "find_subscriber destination [] k = None"
| "find_subscriber destination (config # configs) k =
     (if subscriber_full_destination config = destination then Some k
      else find_subscriber destination configs (Suc k))"

definition create_publisher_fake_subscriber ::
  "pystr \<Rightarrow> StompSubscriberUsecaseConfig list \<Rightarrow> StompPublisherUsecaseConfig
     \<Rightarrow> (nat \<times> bool) \<times> StompSubscriberUsecaseConfig list" where
  "create_publisher_fake_subscriber outer_prefix subscribers publisher =
     (case find_subscriber (publisher_full_destination publisher) subscribers 0 of
        None \<Rightarrow>
          ((length subscribers, False),
           subscribers @ [resolve_subscriber_config (\<lambda>_. outer_prefix)
                            (new_subscriber_config () (publisher_full_destination publisher) ClientIndividual None)])
      | Some k \<Rightarrow> ((k, True), subscribers))"

section \<open>The fake producer\<close>

text \<open>The headers of the message that is delivered.\<close>

definition fake_headers ::
  "headers \<Rightarrow> pystr \<Rightarrow> pystr \<Rightarrow> pystr \<Rightarrow> pystr option \<Rightarrow> pystr option \<Rightarrow> headers" where
  "fake_headers h destination message_id subscription_id correlation_id content_type =
     (let h1 = dict_update h [(lit ''destination'', destination), (lit ''message-id'', message_id),
                 (lit ''subscription'', subscription_id)];
          h2 = (case correlation_id of
                  None \<Rightarrow> h1 | Some [] \<Rightarrow> h1 | Some i \<Rightarrow> AList.update (lit ''correlation-id'') i h1)
      in case content_type of
           None \<Rightarrow> h2 | Some [] \<Rightarrow> h2 | Some c \<Rightarrow> AList.update (lit ''content-type'') c h2)"

text \<open>\<open>dump_frame(SendFrame.build(...))\<close> for its exceptions only; \<open>build\<close> gets the command's own
  dictionary.\<close>

definition check_dump ::
  "bytes \<Rightarrow> pystr option \<Rightarrow> 'm StompPublishCommand \<Rightarrow> ('z trans_scheme, unit) coro" where
  "check_dump body content_type cmd =
     bind (build_send_frame body (pc_destination cmd) None content_type False (Some (pc_headers cmd)))
       (\<lambda>sf. bind (get (\<lambda>s. send_frame_of (dicts s) sf))
          (\<lambda>f. bind (call (dump_frame f)) (\<lambda>_. ret ())))"

definition FakeStompProducer_publish ::
  "('z trans_scheme, 'm) framework \<Rightarrow> subscription \<Rightarrow> StompSubscriberUsecaseConfig list
     \<Rightarrow> 'm StompPublishCommand \<Rightarrow> ('z trans_scheme, unit) coro" where
  "FakeStompProducer_publish fw mock_subscription subscribers cmd =
     bind (call (fw_encode_message fw (pc_body cmd))) (\<lambda>(body, content_type).
       bind (get (\<lambda>s. deref (dicts s) (pc_headers cmd))) (\<lambda>h.
         bind uuid4 (\<lambda>message_id.
           bind uuid4 (\<lambda>subscription_id.
             seq (check_dump body content_type cmd)
               (let frame = \<lparr>am_headers = fake_headers h (pc_destination cmd) message_id subscription_id
                               (pc_correlation_id cmd) content_type,
                             am_body = body, am_subscription = mock_subscription,
                             am_received_at_reconnection_count = 0\<rparr>
                in for_each (\<lambda>(k, config).
                     if subscriber_full_destination config = pc_destination cmd
                     then fw_process_message fw k frame else ret ())
                     (enumerate 0 subscribers))))))"

text \<open>\<open>copy.deepcopy(cmd)\<close> gives every body a command with a dictionary of its own.\<close>

definition copy_command ::
  "'m StompPublishCommand \<Rightarrow> 'm \<Rightarrow> ('z trans_scheme, 'm StompPublishCommand) coro" where
  "copy_command cmd one_body =
     Act (\<lambda>s. s\<lparr>dicts := snd (alloc (dicts s) (deref (dicts s) (pc_headers cmd)))\<rparr>)
       (\<lambda>s. ret (cmd\<lparr>pc_body := one_body, pc_extra_bodies := [],
                     pc_headers := fst (alloc (dicts s) (deref (dicts s) (pc_headers cmd)))\<rparr>))"

definition FakeStompProducer_publish_batch ::
  "('z trans_scheme, 'm) framework \<Rightarrow> subscription \<Rightarrow> StompSubscriberUsecaseConfig list
     \<Rightarrow> 'm StompPublishCommand \<Rightarrow> ('z trans_scheme, unit) coro" where
  "FakeStompProducer_publish_batch fw mock_subscription subscribers cmd =
     for_each (\<lambda>one_body.
       bind (copy_command cmd one_body) (FakeStompProducer_publish fw mock_subscription subscribers))
       (fw_batch_bodies fw cmd)"

end
