(* ===== verification/Faststream_Laws.thy ===== *)
theory Faststream_Laws
  imports Faststream_Testing Handler_Cap
begin

text \<open>
  What the FastStream adapter promises: batches are published in one transaction, a message is
  acknowledged at most once, the views of a message rest on its declared headers only, and a client that
  cannot reconnect ends the process.
\<close>

section \<open>Messages\<close>

text \<open>What \<open>StreamMessage\<close> documents of its \<open>ack\<close>, \<open>nack\<close> and \<open>reject\<close>: the first of them notes how the
  message was committed, the later ones do nothing.\<close>

definition commits :: "(nat \<Rightarrow> ('z broker_scheme, unit) coro) \<Rightarrow> AckStatus \<Rightarrow> bool" where
  "commits m status \<longleftrightarrow>
     (\<forall>k s. run (m k) s = (Some (Inr ()),
        if b_committed s k = None then s\<lparr>b_committed := (b_committed s)(k \<mapsto> status)\<rparr> else s))"

lemma run_commits:
  "commits m status \<Longrightarrow> run (m k) s = (Some (Inr ()),
        if b_committed s k = None then s\<lparr>b_committed := (b_committed s)(k \<mapsto> status)\<rparr> else s)"
  by (simp add: commits_def)

lemmas message_defs = StompStreamMessage_ack_def StompStreamMessage_nack_def StompStreamMessage_reject_def

section \<open>A framework\<close>

text \<open>A concrete framework, for examples: no middlewares, bodies are bytes, and the commits that are passed in.\<close>

definition direct_framework :: "(AckStatus \<Rightarrow> nat \<Rightarrow> ('z client_scheme, unit) coro) \<Rightarrow> ('z client_scheme, bytes) framework" where
  "direct_framework commit =
     \<lparr>fw_encode_message = (\<lambda>m. Inr (m, None)),
      fw_message_ack = commit ACKED, fw_message_nack = commit NACKED, fw_message_reject = commit REJECTED,
      fw_command = (\<lambda>bodies publish_type reply_to destination correlation_id headers.
        case bodies of
          [] \<Rightarrow> raise_py (IndexError)
        | body # extra \<Rightarrow>
            bind (get (\<lambda>s. length (dicts s))) (\<lambda>n.
              seq (modify (\<lambda>s. if headers = None then s\<lparr>dicts := dicts s @ [[]]\<rparr> else s))
                (ret \<lparr>pc_body = body, pc_extra_bodies = extra, pc_publish_type = publish_type,
                      pc_reply_to = (case reply_to of None \<Rightarrow> [] | Some r \<Rightarrow> r), pc_destination = destination,
                      pc_correlation_id = correlation_id,
                      pc_headers = (case headers of None \<Rightarrow> n | Some h \<Rightarrow> h)\<rparr>))),
      fw_batch_bodies = (\<lambda>cmd. pc_body cmd # pc_extra_bodies cmd),
      fw_patch_command = ret, fw_basic_publish = id, fw_basic_publish_batch = id, fw_basic_request = id,
      fw_subscriber_start = (\<lambda>_. ret ()), fw_subscriber_post_start = (\<lambda>_. ret ()), fw_subscriber_stop = (\<lambda>_. ret ()),
      fw_broker_connect = id, fw_broker_start = ret (), fw_process_message = (\<lambda>_ _. ret ())\<rparr>"

definition note_commit :: "AckStatus \<Rightarrow> nat \<Rightarrow> ('z broker_scheme, unit) coro" where
  "note_commit status k =
     modify (\<lambda>s. if b_committed s k = None then s\<lparr>b_committed := (b_committed s)(k \<mapsto> status)\<rparr> else s)"

lemma commits_note_commit: "commits (note_commit status) status"
  by (simp add: commits_def note_commit_def run_simps)

definition sample_broker :: "peer \<Rightarrow> broker" where
  "sample_broker p = client.extend (sample_client p)
     (broker.fields Map.empty Map.empty True False True True True)"

section \<open>Batches\<close>

text \<open>The frames of a batch, up to the first body that cannot be encoded, and its exception.\<close>

fun batch_frames ::
  "('m \<Rightarrow> py_exn + (bytes \<times> pystr option)) \<Rightarrow> pystr \<Rightarrow> pystr \<Rightarrow> headers \<Rightarrow> 'm list
     \<Rightarrow> frame list \<times> py_exn option" where
  "batch_frames enc i destination h [] = ([], None)"
| "batch_frames enc i destination h (m # ms) =
     (case enc m of
        Inl e \<Rightarrow> ([], Some e)
      | Inr (body, content_type) \<Rightarrow>
          (case batch_frames enc i destination h ms of
             (fs, e) \<Rightarrow>
               (SendFrame (fill_send_headers body destination (Some i) content_type True h) body # fs, e)))"

lemma deref_old: "r < length H \<Longrightarrow> deref (H @ K) r = deref H r"
  by (simp add: deref_def nth_append)

lemma build_fresh:
  assumes "SendFrame_build (H @ [h]) body destination tx content_type acl (Some (length H)) = (sf, H')"
  shows "send_frame_of H' sf = SendFrame (fill_send_headers body destination tx content_type acl h) body"
    "r < length H \<Longrightarrow> deref H' r = deref H r"
  using SendFrame_build_frame [OF assms] SendFrame_build_other_cells [OF assms, of r]
  by (simp_all add: base_headers_def deref_def nth_append)

lemma build_length:
  "SendFrame_build H body destination tx content_type acl headers = (sf, H') \<Longrightarrow> length H \<le> length H'"
  by (auto simp: SendFrame_build_def headers_or_new_def alloc_def split: option.splits if_splits prod.splits)

lemma transport_at_dicts [simp]: "transport_at (s\<lparr>dicts := d\<rparr>) c = transport_at s c"
  by (simp add: transport_at_def)

definition send_body_in ::
  "('z client_scheme, 'm) framework \<Rightarrow> Client \<Rightarrow> nat \<Rightarrow> 'm StompPublishCommand \<Rightarrow> nat \<Rightarrow> 'm
     \<Rightarrow> ('z client_scheme, unit) coro" where
  "send_body_in fw client rounds cmd t one_body =
     bind (call (fw_encode_message fw one_body)) (\<lambda>(body, content_type).
       bind (make_headers_for_publish cmd) (\<lambda>headers.
         transaction_send (client_manager client) (client_enter client rounds) t body
           (pc_destination cmd) content_type True (Some headers)))"

lemma run_send_bodies:
  fixes s :: "'z client_scheme"
  assumes "connected_on c s" "0 < clt_write_retry_attempts client" "t < length (transactions s)"
    and "pc_headers cmd < length (dicts s)"
    and "h = publish_headers (pc_correlation_id cmd) (deref (dicts s) (pc_headers cmd))"
    and "batch_frames (fw_encode_message fw) (tr_id (transaction_at s t)) (pc_destination cmd) h ms = (fs, e)"
    and "list_all encodes fs"
  shows "\<exists>s'. run (for_each (send_body_in fw client rounds cmd t) ms) s =
      (Some (case e of None \<Rightarrow> Inr () | Some x \<Rightarrow> Inl (Raised x)), s') \<and> connected_on c s' \<and>
    tr_id (transaction_at s' t) = tr_id (transaction_at s t) \<and>
    active_transactions s' = active_transactions s \<and>
    (\<forall>r < length (dicts s). deref (dicts s') r = deref (dicts s) r) \<and>
    t_out (transport_at s' c) = t_out (transport_at s c) @ map wire fs"
  using assms(1,3-7)
proof (induction ms arbitrary: s fs)
  case Nil
  then show ?case by auto
next
  case (Cons m ms)
  show ?case
  proof (cases "fw_encode_message fw m")
    case (Inl x)
    with Cons.prems show ?thesis by (auto simp: send_body_in_def call_def run_simps)
  next
    case (Inr p)
    obtain body content_type where p: "p = (body, content_type)" by (cases p)
    let ?s1 = "s\<lparr>dicts := dicts s @ [h]\<rparr>"
    obtain sf d where b: "SendFrame_build (dicts ?s1) body (pc_destination cmd) (Some (tr_id (transaction_at ?s1 t)))
        content_type True (Some (length (dicts s))) = (sf, d)" by fastforce
    note fresh = build_fresh [OF b [simplified]]
    let ?f = "send_frame_of d sf"
    obtain gs where gs: "batch_frames (fw_encode_message fw) (tr_id (transaction_at s t)) (pc_destination cmd) h ms = (gs, e)"
        "fs = ?f # gs"
      using Cons.prems(5) Inr p fresh(1) by (auto simp: transaction_at_dicts split: prod.splits)
    have c1: "connected_on c ?s1" using Cons.prems(1) by (auto simp: connected_on_def writable_def transport_at_def)
    have "t < length (transactions ?s1)" "encodes ?f" using Cons.prems(2,6) gs(2) by simp_all
    from run_transaction_send [OF c1 assms(2) this(1) b this(2), of rounds] obtain s2 where
      s2: "run (transaction_send (client_manager client) (client_enter client rounds) t body (pc_destination cmd)
          content_type True (Some (length (dicts s)))) ?s1 = (Some (Inr ()), s2)"
        "connected_on c s2" "dicts s2 = d" "length (transactions s2) = length (transactions s)"
        "tr_id (transaction_at s2 t) = tr_id (transaction_at s t)" "active_transactions s2 = active_transactions s"
        "t_out (transport_at s2 c) = t_out (transport_at s c) @ [wire ?f]"
      by (auto simp: transaction_at_dicts transport_at_dicts)
    have run1: "run (send_body_in fw client rounds cmd t m) s = (Some (Inr ()), s2)"
      using s2(1) Inr p Cons.prems(4)
      by (simp add: send_body_in_def call_def run_simps make_headers_for_publish_def alloc_def)
    have old: "deref d r = deref (dicts s) r" if "r < length (dicts s)" for r
      by (rule fresh(2) [OF that])
    have len: "length (dicts s) < length d" using build_length [OF b] by simp
    have "\<exists>s'. run (for_each (send_body_in fw client rounds cmd t) ms) s2 =
        (Some (case e of None \<Rightarrow> Inr () | Some x \<Rightarrow> Inl (Raised x)), s') \<and> connected_on c s' \<and>
      tr_id (transaction_at s' t) = tr_id (transaction_at s2 t) \<and>
      active_transactions s' = active_transactions s2 \<and>
      (\<forall>r < length (dicts s2). deref (dicts s') r = deref (dicts s2) r) \<and>
      t_out (transport_at s' c) = t_out (transport_at s2 c) @ map wire gs"
      using Cons.prems(2-4,6) s2 gs len old by (intro Cons.IH) simp_all
    then obtain s' where "run (for_each (send_body_in fw client rounds cmd t) ms) s2 =
        (Some (case e of None \<Rightarrow> Inr () | Some x \<Rightarrow> Inl (Raised x)), s')" "connected_on c s'"
      "tr_id (transaction_at s' t) = tr_id (transaction_at s2 t)"
      "active_transactions s' = active_transactions s2"
      "\<forall>r < length (dicts s2). deref (dicts s') r = deref (dicts s2) r"
      "t_out (transport_at s' c) = t_out (transport_at s2 c) @ map wire gs" by blast
    with run1 s2 gs(2) old len show ?thesis
      by (intro exI [of _ s']) (simp add: run_bind)
  qed
qed

lemma publish_batch_block:
  "StompProducer_publish_batch fw client rounds cmd =
     client_begin client rounds (\<lambda>t. for_each (send_body_in fw client rounds cmd t) (fw_batch_bodies fw cmd))"
  by (simp add: StompProducer_publish_batch_def send_body_in_def [abs_def])

section \<open>Giving up\<close>

text \<open>The task runs the coroutine in an \<open>asyncio.TaskGroup\<close>: an exception is raised again in a group.\<close>

definition task_group_end :: "exn + unit \<Rightarrow> task_end" where
  "task_group_end r =
     (case r of
        Inr _ \<Rightarrow> TaskReturned
      | Inl e \<Rightarrow>
          if e = Raised CancelledError then TaskCancelled
          else if base_exception e then TaskFailed (OtherException e)
          else TaskFailed (ExceptionGroup [e]))"

section \<open>Properties\<close>

text \<open>C20. Publishing a batch. On an undisturbed connection \<open>publish_batch\<close> writes \<open>BEGIN\<close>, one \<open>SEND\<close> per
  body in order with the destination, the command's headers, the correlation identifier and the content length,
  and \<open>COMMIT\<close>. When a body cannot be encoded, the bodies before it have been sent, \<open>ABORT\<close> is written and the
  exception is passed on. The caller's dictionaries are not written to.\<close>

theorem publish_batch_writes:
  fixes s :: "'z client_scheme"
  assumes "connected_on c s" "0 < clt_write_retry_attempts client"
    and "length (transactions s) \<notin> set (active_transactions s)" "pc_headers cmd < length (dicts s)"
    and "i = n_uuid s (n_uuid_count s)"
    and "h = publish_headers (pc_correlation_id cmd) (deref (dicts s) (pc_headers cmd))"
    and "batch_frames (fw_encode_message fw) i (pc_destination cmd) h (fw_batch_bodies fw cmd) = (fs, e)"
    and "r = (case e of None \<Rightarrow> Inr () | Some x \<Rightarrow> Inl (Raised x))"
    and "list_all encodes (BeginFrame [(lit ''transaction'', i)] # fs @ [closing_frame r i])"
  shows "\<exists>s'. run (StompProducer_publish_batch fw client rounds cmd) s = (Some r, s') \<and>
    t_out (transport_at s' c) = t_out (transport_at s c) @
      map wire (BeginFrame [(lit ''transaction'', i)] # fs @ [closing_frame r i]) \<and>
    active_transactions s' = active_transactions s \<and>
    (\<forall>r < length (dicts s). deref (dicts s') r = deref (dicts s) r)"
proof -
  let ?t = "length (transactions s)" and ?s2 = "begun c i s"
  note s2 = begun_fields [OF assms(1), of i]
  obtain s3 where s3: "run (for_each (send_body_in fw client rounds cmd ?t) (fw_batch_bodies fw cmd)) ?s2 = (Some r, s3)"
      "connected_on c s3" "tr_id (transaction_at s3 ?t) = i"
      "active_transactions s3 = active_transactions s @ [?t]"
      "\<forall>r < length (dicts s). deref (dicts s3) r = deref (dicts s) r"
      "t_out (transport_at s3 c) = t_out (transport_at ?s2 c) @ map wire fs"
    using run_send_bodies [of c ?s2 client ?t cmd h fw "fw_batch_bodies fw cmd" fs e rounds] assms(2,4,6-9) s2 by auto
  have "run (StompProducer_publish_batch fw client rounds cmd) s =
      (Some r, (sent c [closing_frame r i] s3)\<lparr>active_transactions := active_transactions s\<rparr>)"
    unfolding publish_batch_block
    by (rule run_client_begin [OF assms(1-3,5)]) (use assms(9) s3 in simp_all)
  then show ?thesis
    using t_out_sent_transactions [OF s3(2)] s3(5,6) s2(6) by simp
qed

theorem publish_batch_writes_witness:
  "let s = (sample_client quiet_peer)\<lparr>dicts := [[]]\<rparr>; fw = direct_framework (\<lambda>_ _. ret ());
       cmd = \<lparr>pc_body = ''x'', pc_extra_bodies = [''y''], pc_publish_type = PUBLISH, pc_reply_to = [],
              pc_destination = lit ''q'', pc_correlation_id = Some (lit ''c''), pc_headers = 0\<rparr>;
       tx = [(lit ''transaction'', lit ''0'')];
       fs = fst (batch_frames (\<lambda>m. Inr (m, None)) (lit ''0'') (lit ''q'') [(lit ''correlation-id'', lit ''c'')] [''x'', ''y'']) in
   \<exists>s'. run (StompProducer_publish_batch fw (Client_defaults [sample_parameters]) 9 cmd) s = (Some (Inr ()), s') \<and>
    t_out (transport_at s' 0) = map wire (BeginFrame tx # fs @ [CommitFrame tx]) \<and>
    active_transactions s' = [] \<and> deref (dicts s') 0 = []"
proof -
  let ?s = "(sample_client quiet_peer)\<lparr>dicts := [[]]\<rparr>" and ?fw = "direct_framework (\<lambda>_ _. ret ())"
  let ?self = "Client_defaults [sample_parameters]" and ?i = "lit ''0''"
  let ?cmd = "\<lparr>pc_body = ''x'', pc_extra_bodies = [''y''], pc_publish_type = PUBLISH, pc_reply_to = [],
      pc_destination = lit ''q'', pc_correlation_id = Some (lit ''c''), pc_headers = 0\<rparr>"
  let ?h = "[(lit ''correlation-id'', lit ''c'')]"
  let ?fs = "fst (batch_frames (\<lambda>m. Inr (m, None)) ?i (lit ''q'') ?h [''x'', ''y''])"
  let ?tx = "[(lit ''transaction'', ?i)]"
  have 1: "connected_on 0 ?s" "0 < clt_write_retry_attempts ?self"
      "length (transactions ?s) \<notin> set (active_transactions ?s)" "pc_headers ?cmd < length (dicts ?s)"
      "?i = n_uuid ?s (n_uuid_count ?s)"
    by (simp_all add: connected_on_def sample_client_def sample_state_def writable_def sample_simps
        Client_defaults_def str_nat_0)
  have 2: "?h = publish_headers (pc_correlation_id ?cmd) (deref (dicts ?s) (pc_headers ?cmd))"
    by (simp add: publish_headers_def deref_def lit_def)
  have 3: "batch_frames (fw_encode_message ?fw) ?i (pc_destination ?cmd) ?h (fw_batch_bodies ?fw ?cmd) = (?fs, None)"
    by (simp add: direct_framework_def)
  have 4: "Inr () = (case None of None \<Rightarrow> Inr () | Some x \<Rightarrow> Inl (Raised x))" by simp
  have 5: "list_all encodes (BeginFrame ?tx # ?fs @ [closing_frame (Inr ()) ?i])"
    by (simp add: fill_send_headers_def) (simp add: closing_frame_def encodes_encodable encodable_evals str_nat.simps)
  have 6: "active_transactions (sample_client quiet_peer) = []" "t_out (transport_at (sample_client quiet_peer) 0) = []"
      "deref [[]] 0 = []"
    by (simp_all add: sample_client_def sample_simps deref_def)
  show ?thesis
    using publish_batch_writes [OF 1 2 3 4 5, of 9] unfolding Let_def
    by (simp add: 6 closing_frame_def del: batch_frames.simps)
qed

text \<open>C23. A message is acknowledged at most once. Provided the framework notes how a message was committed,
  as it documents, once \<open>ack\<close>, \<open>nack\<close> or \<open>reject\<close> of a message has returned, any further of them
  changes nothing: no frame is written.\<close>

theorem message_committed_once:
  assumes "commits (fw_message_ack fw) ACKED" "commits (fw_message_nack fw) NACKED"
    and "commits (fw_message_reject fw) REJECTED"
    and "m \<in> {StompStreamMessage_ack fw k raw, StompStreamMessage_nack fw k raw, StompStreamMessage_reject fw k raw}"
    and "m' \<in> {StompStreamMessage_ack fw k raw, StompStreamMessage_nack fw k raw, StompStreamMessage_reject fw k raw}"
    and "run m s = (Some (Inr ()), s')"
  shows "run m' s' = (Some (Inr ()), s')"
proof -
  have "b_committed s' k \<noteq> None"
    using assms(4,6)
    by (auto simp: message_defs run_simps run_commits [OF assms(1)] run_commits [OF assms(2)] run_commits [OF assms(3)]
        split: prod.splits option.splits sum.splits if_splits)
  with assms(5) show ?thesis
    by (auto simp: message_defs run_simps run_commits [OF assms(1)] run_commits [OF assms(2)] run_commits [OF assms(3)])
qed

theorem message_committed_once_witness:
  "let fw = direct_framework note_commit; s = sample_broker quiet_peer;
       raw = \<lparr>am_headers = [(lit ''ack'', lit ''7'')], am_body = [], am_subscription = sample_sub,
              am_received_at_reconnection_count = 0\<rparr> in
   \<exists>s'. run (StompStreamMessage_nack fw 4 raw) s = (Some (Inr ()), s') \<and>
     run (StompStreamMessage_ack fw 4 raw) s' = (Some (Inr ()), s')"
proof -
  let ?fw = "direct_framework note_commit :: (broker, bytes) framework" and ?s = "sample_broker quiet_peer"
  let ?raw = "\<lparr>am_headers = [(lit ''ack'', lit ''7'')], am_body = [], am_subscription = sample_sub,
      am_received_at_reconnection_count = 0\<rparr>"
  let ?d = "[(lit ''id'', lit ''7''), (lit ''subscription'', sub_id sample_sub)]"
  have 1: "commits (fw_message_ack ?fw) ACKED" "commits (fw_message_nack ?fw) NACKED"
      "commits (fw_message_reject ?fw) REJECTED"
    by (simp_all add: direct_framework_def commits_note_commit)
  have 2: "connected_on 0 ?s" "contains_by_id (active_subscriptions ?s) (sub_id sample_sub)"
      "map_of [(lit ''ack'', lit ''7'')] (lit ''ack'') = Some (lit ''7'')" "lit ''7'' \<noteq> []" "reconnection_count ?s = 0"
      "b_committed ?s = Map.empty"
    by (simp_all add: connected_on_def sample_broker_def sample_client_def sample_state_def writable_def sample_simps
        registry_evals sample_sub_def lit_def client.defs broker.defs)
  have 3: "encodes (AckFrame ?d)" "encodes (NackFrame ?d)"
    by (simp_all add: encodes_encodable encodable_evals sample_sub_def)
  have "run (nack sample_sub [(lit ''ack'', lit ''7'')] 0) ?s = (Some (Inr ()), sent 0 [NackFrame ?d] ?s)"
    using run_acknowledge [OF 2(1-5)] 3 by blast
  then have "\<exists>s'. run (StompStreamMessage_nack ?fw 4 ?raw) ?s = (Some (Inr ()), s')"
    using 2(6) by (simp add: StompStreamMessage_nack_def ackable_nack_def run_simps run_commits [OF 1(2)])
  then show ?thesis
    using message_committed_once [OF 1, of "StompStreamMessage_nack ?fw 4 ?raw" 4 ?raw "StompStreamMessage_ack ?fw 4 ?raw" ?s]
    unfolding Let_def by blast
qed

text \<open>C25. A broker whose listening task gives up ends the process. When no server can be reached any more and the
  client is not told to keep trying, the listening task ends with \<open>FailedAllConnectAttemptsError\<close>, the client
  is not alive any more, and the callback that the broker has registered raises \<open>SystemExit(1)\<close>.\<close>

theorem listening_gives_up:
  fixes s :: "'z client_scheme"
  assumes "\<forall>server \<in> set (clt_servers self). valid_address (clt_connection_class self) server"
    and "\<forall>outcomes \<in> set (take (nat (clt_connect_retry_attempts self)) (n_rounds s)).
          \<forall>(i, event) \<in> set outcomes. unreachable event"
    and "active_connection_state s = None" "reconnect_lock s = None"
    and "\<not> clt_keep_alive_on_connection_failure self"
  shows "\<exists>s'. run (bind (attempt (listen_to_frames self rounds user (Suc n)))
        (\<lambda>r. handle_listen_task_done (task_group_end r))) s = (Some (Inl (Raised (SystemExit 1))), s') \<and>
    \<not> client_is_alive self s'"
proof -
  let ?m = "client_manager self" and ?n = "nat (clt_connect_retry_attempts self)"
  let ?s = "s\<lparr>reconnect_lock := Some (n_current s)\<rparr>"
  let ?e = "FailedAllConnectAttemptsError (cm_connect_retry_attempts ?m)
      (replicate ?n (AllServersUnavailable (cm_servers ?m) (cm_connect_timeout ?m)))"
  have "run (connect_attempts ?m (client_enter self rounds) False ?n 0 []) ?s =
     (Some (Inl ?e), ?s\<lparr>n_rounds := drop ?n (n_rounds s), n_time := n_time s + pauses ?m 0 ?n\<rparr>)"
    using run_attempts_unreachable [of ?m ?n ?s "client_enter self rounds" False 0 "[]"] assms(1,2)
    by (simp add: client_manager_def)
  then have "\<exists>s'. run (get_active_connection_state ?m (client_enter self rounds) False) s = (Some (Inl ?e), s')"
    using assms(3,4)
    by (simp add: get_active_connection_state_def with_reconnect_lock_def run_simps client_manager_def)
  then obtain s1 where "run (get_active_connection_state ?m (client_enter self rounds) False) s = (Some (Inl ?e), s1)"
    by blast
  then have "run (listen_to_frames self rounds user (Suc n)) s = (Some (Inl ?e), s1\<lparr>listen_done := True\<rparr>)"
    using assms(5) by (simp add: listen_to_frames_def run_simps) (simp add: client_manager_def)
  then show ?thesis
    by (simp add: run_bind run_attempt task_group_end_def handle_listen_task_done_def client_is_alive_def)
qed

theorem listening_gives_up_witness:
  "let self = Client_defaults [sample_parameters];
       s = (sample_client quiet_peer)\<lparr>active_connection_state := None, n_rounds := [[(0, OpenFails ConnectionError)]]\<rparr> in
   \<exists>s'. run (bind (attempt (listen_to_frames self 9 idle_user 1))
        (\<lambda>r. handle_listen_task_done (task_group_end r))) s = (Some (Inl (Raised (SystemExit 1))), s') \<and>
    \<not> client_is_alive self s'"
proof -
  let ?self = "Client_defaults [sample_parameters]"
  let ?s = "(sample_client quiet_peer)\<lparr>active_connection_state := None, n_rounds := [[(0, OpenFails ConnectionError)]]\<rparr>"
  have 1: "\<forall>server \<in> set (clt_servers ?self). valid_address (clt_connection_class ?self) server"
    by (simp add: Client_defaults_def valid_address_def sample_parameters_def new_parameters_def)
  have 2: "\<forall>outcomes \<in> set (take (nat (clt_connect_retry_attempts ?self)) (n_rounds ?s)).
      \<forall>(i, event) \<in> set outcomes. unreachable event"
    by (simp add: Client_defaults_def unreachable_def)
  have 3: "active_connection_state ?s = None" "reconnect_lock ?s = None" "\<not> clt_keep_alive_on_connection_failure ?self"
    by (simp_all add: sample_client_def Client_defaults_def)
  show ?thesis
    using listening_gives_up [OF 1 2 3, of 9 idle_user 0] unfolding Let_def by simp
qed

text \<open>The views of a message rest on the declared types only. When the headers of a \<open>MESSAGE\<close> frame conform to
  \<open>MessageHeaders\<close>, the stream message is built, with the identifier of the frame, and the log context and the
  attributes for tracing and metrics are computed without an exception, all of them for the destination of the
  frame.\<close>

theorem message_views_typed:
  assumes "well_typed (MessageFrame (am_headers frame) (am_body frame))"
  shows "\<exists>m i d. from_frame gen_cor_id frame = Inr m \<and>
    map_of (am_headers frame) (lit ''message-id'') = Some i \<and> sm_message_id m = i \<and>
    map_of (am_headers frame) (lit ''destination'') = Some d \<and> get_consume_destination_name m = Inr d \<and>
    get_log_context config (Some m) = Inr [(lit ''destination'', d), (lit ''message_id'', i)] \<and>
    (\<exists>attributes. get_consume_attrs_from_message m = Inr attributes \<and>
      map_of attributes MESSAGING_MESSAGE_PAYLOAD_SIZE_BYTES = Some (Number (length (am_body frame))) \<and>
      map_of attributes MESSAGING_DESTINATION_PUBLISH_NAME = Some (Text d)) \<and>
    metrics_consume_attrs m =
      Inr \<lparr>ca_destination_name = d, ca_message_size = length (am_body frame), ca_messages_count = 1\<rparr>"
proof -
  have "lit ''message-id'' \<in> fst ` set (am_headers frame)" "lit ''destination'' \<in> fst ` set (am_headers frame)"
    using assms by (simp_all add: well_typed_def conforms_def MessageHeaders_def)
  then obtain i d where "map_of (am_headers frame) (lit ''message-id'') = Some i"
      "map_of (am_headers frame) (lit ''destination'') = Some d"
    by (metis map_of_eq_None_iff not_None_eq)
  then show ?thesis
    by (simp add: from_frame_def message_header_def get_consume_destination_name_def get_log_context_def
        get_consume_attrs_from_message_def metrics_consume_attrs_def)
qed

theorem message_views_typed_witness:
  "let frame = \<lparr>am_headers = [(lit ''message-id'', lit ''1''), (lit ''subscription'', lit ''s''), (lit ''destination'', lit ''q'')],
                am_body = ''abc'', am_subscription = sample_sub, am_received_at_reconnection_count = 0\<rparr>;
       config = \<lparr>sc_prefix = [], sc_destination_without_prefix = lit ''q'', sc_ack_mode = Auto, sc_headers = None\<rparr> in
   \<exists>m. from_frame (lit ''g'') frame = Inr m \<and> sm_message_id m = lit ''1'' \<and>
     get_log_context config (Some m) = Inr [(lit ''destination'', lit ''q''), (lit ''message_id'', lit ''1'')]"
proof -
  let ?h = "[(lit ''message-id'', lit ''1''), (lit ''subscription'', lit ''s''), (lit ''destination'', lit ''q'')]"
  let ?frame = "\<lparr>am_headers = ?h, am_body = ''abc'', am_subscription = sample_sub, am_received_at_reconnection_count = 0\<rparr>"
  have 1: "well_typed (MessageFrame (am_headers ?frame) (am_body ?frame))"
    by (simp add: well_typed_def conforms_def MessageHeaders_def lit_def)
  have "map_of ?h (lit ''message-id'') = Some (lit ''1'')" "map_of ?h (lit ''destination'') = Some (lit ''q'')"
    by (simp_all add: lit_def)
  with message_views_typed [OF 1, of "lit ''g''"] show ?thesis
    unfolding Let_def by auto
qed

end
