(* ===== verification/Broker_Laws.thy ===== *)
theory Broker_Laws
  imports Faststream_Laws
begin

text \<open>
  The life of a FastStream broker: \<open>ping\<close> answers within its timeout, and a broker connects at most once.
\<close>

section \<open>Polling\<close>

text \<open>As many polls as sleeps fit into the time that is left, and one more, are enough.\<close>

lemma ping_loop_ends:
  fixes s :: "'z broker_scheme"
  assumes "n_time s \<le> d" "d - n_time s \<le> of_nat k * w" "0 < w" "k < n"
  shows "\<exists>alive t. run (ping_loop client (Some d) w n) s = (Some (Inr alive), s\<lparr>n_time := t\<rparr>) \<and>
    n_time s \<le> t \<and> t \<le> d \<and> (if alive then client_is_alive client (s\<lparr>n_time := t\<rparr>) else t = d)"
  using assms
proof (induction n arbitrary: s k)
  case (Suc n)
  consider "d \<le> n_time s" | "n_time s < d" "client_is_alive client s" | "n_time s < d" "\<not> client_is_alive client s"
    by linarith
  then show ?case
  proof cases
    case 1
    with Suc.prems show ?thesis
      by (intro exI [of _ False] exI [of _ "n_time s"]) (simp add: run_simps expired_def)
  next
    case 2
    then show ?thesis
      by (intro exI [of _ True] exI [of _ "n_time s"]) (simp add: run_simps expired_def)
  next
    case 3
    then obtain j where k: "k = Suc j" using Suc.prems(2) by (cases k) auto
    let ?w = "min w (d - n_time s)"
    let ?s = "s\<lparr>n_time := n_time s + ?w\<rparr>"
    have "n_time ?s \<le> d" "d - n_time ?s \<le> of_nat j * w" "j < n"
      using Suc.prems 3 by (simp_all add: k algebra_simps min_def)
    from Suc.IH [OF this(1,2) Suc.prems(3) this(3)] obtain alive t where
      "run (ping_loop client (Some d) w n) ?s = (Some (Inr alive), ?s\<lparr>n_time := t\<rparr>)"
      "n_time ?s \<le> t" "t \<le> d" "if alive then client_is_alive client (?s\<lparr>n_time := t\<rparr>) else t = d" by blast
    moreover have "run (sleep ?w) s = (Some (Inr ()), ?s)"
      using Suc.prems(3) 3 by (simp add: sleep_def run_simps)
    moreover have "0 \<le> ?w" using Suc.prems(3) 3 by simp
    ultimately show ?thesis
      using 3 by (intro exI [of _ alive] exI [of _ t]) (simp add: run_simps expired_def split: if_splits)
  qed
qed simp

section \<open>Coroutines that leave the broker alone\<close>

definition broker_kept :: "'z client_scheme \<Rightarrow> 'z client_scheme \<Rightarrow> bool" where
  "broker_kept s s' \<longleftrightarrow> client.more s' = client.more s"

interpretation broker_kept: handler_guarantee "\<lambda>_ _. True" broker_kept
  by unfold_locales (simp_all add: broker_kept_def)

lemma run_broker_kept: "safe (\<lambda>_ _. True) broker_kept m \<Longrightarrow> run m s = (Some r, s') \<Longrightarrow> broker_kept s s'"
  by (rule rg_run [OF safeD, where R = "\<lambda>_ _. True" and G = broker_kept]) (auto simp: broker_kept_def)

lemma broker_fields_kept:
  fixes s s' :: "'z broker_scheme"
  assumes "broker_kept s s'"
  shows "b_committed s' = b_committed s" "b_subscriptions s' = b_subscriptions s"
    "b_attempted_to_connect s' = b_attempted_to_connect s" "b_stopping s' = b_stopping s"
    "b_running s' = b_running s" "b_connection s' = b_connection s"
  using assms by (cases s; cases s'; simp add: broker_kept_def)+

section \<open>Properties\<close>

text \<open>C27. \<open>ping\<close> answers within its timeout. Whatever state the client is in, \<open>ping\<close> with a timeout that is not negative returns after at most
  that time, and twelve polls are enough; nothing but the time changes. The answer is true only if the client is alive at that
  moment; it is false only if the broker is stopping, was never connected, or the whole time has passed.\<close>

theorem ping_in_time:
  fixes s :: "'z broker_scheme"
  assumes "0 \<le> timeout" "12 \<le> n"
  shows "\<exists>alive t. run (StompBroker_ping client (Some timeout) n) s = (Some (Inr alive), s\<lparr>n_time := t\<rparr>) \<and>
    n_time s \<le> t \<and> t \<le> n_time s + timeout \<and>
    (if alive then client_is_alive client (s\<lparr>n_time := t\<rparr>)
     else b_stopping s \<or> \<not> b_connection s \<or> t = n_time s + timeout)"
proof (cases "b_stopping s \<or> \<not> b_connection s")
  case True
  with assms show ?thesis
    by (intro exI [of _ False] exI [of _ "n_time s"]) (auto simp: StompBroker_ping_def run_simps)
next
  case False
  let ?d = "n_time s + timeout" and ?w = "(if timeout = 0 then 10 else timeout) / 10"
  have "0 < ?w" "?d - n_time s \<le> of_nat 10 * ?w" "n_time s \<le> ?d" "10 < n" using assms by simp_all
  from ping_loop_ends [OF this(3,2,1,4), of client] obtain alive t where
    t: "run (ping_loop client (Some ?d) ?w n) s = (Some (Inr alive), s\<lparr>n_time := t\<rparr>)" "n_time s \<le> t" "t \<le> ?d"
      "if alive then client_is_alive client (s\<lparr>n_time := t\<rparr>) else t = ?d"
    by blast
  have "run (StompBroker_ping client (Some timeout) n) s = (Some (Inr alive), s\<lparr>n_time := t\<rparr>)"
    using t(1) False by (simp add: StompBroker_ping_def run_simps)
  with t(2-4) show ?thesis
    by (intro exI [of _ alive] exI [of _ t]) auto
qed

theorem ping_in_time_witness:
  "let s = sample_broker quiet_peer in
   \<exists>alive t. run (StompBroker_ping (Client_defaults [sample_parameters]) (Some 5) 12) s = (Some (Inr alive), s\<lparr>n_time := t\<rparr>) \<and>
     0 \<le> t \<and> t \<le> 5"
proof -
  have "n_time (sample_broker quiet_peer) = 0"
    by (simp add: sample_broker_def sample_client_def client.defs broker.defs)
  then show ?thesis
    using ping_in_time [of 5 12 "Client_defaults [sample_parameters]" "sample_broker quiet_peer"]
    unfolding Let_def by (auto simp del: run_bind)
qed

text \<open>C26. A broker connects once. When a call of \<open>_connect\<close> has ended, by returning or by an exception, every later call
  returns at once and changes nothing: a connection that failed is reported as made by the second call.\<close>

theorem broker_connects_once:
  fixes s :: "'z broker_scheme"
  assumes "run (StompBroker_connect client rounds) s = (Some r, s')"
  shows "run (StompBroker_connect client rounds) s' = (Some (Inr ()), s')"
proof -
  have "b_attempted_to_connect s'"
  proof (cases "b_attempted_to_connect s")
    case True
    with assms show ?thesis by (simp add: StompBroker_connect_def run_simps)
  next
    case False
    let ?s = "s\<lparr>b_attempted_to_connect := True\<rparr>"
    obtain r1 s1 where 1: "run (client_aenter client rounds) ?s = (Some r1, s1)"
      using assms False by (cases "run (client_aenter client rounds) ?s") (auto simp: StompBroker_connect_def run_simps split: option.splits)
    have "b_attempted_to_connect s1"
      using broker_fields_kept(3) [OF run_broker_kept [OF broker_kept.safe_entering 1]] by simp
    with assms False 1 show ?thesis
      by (auto simp: StompBroker_connect_def run_simps split: sum.splits)
  qed
  then show ?thesis by (simp add: StompBroker_connect_def run_simps)
qed

theorem broker_connects_once_witness:
  "let client = (Client_defaults [sample_parameters])\<lparr>clt_connect_retry_attempts := 0\<rparr>;
       s = (sample_broker quiet_peer)\<lparr>b_attempted_to_connect := False, active_connection_state := None\<rparr> in
   \<exists>s'. run (StompBroker_connect client 1) s = (Some (Inl (FailedAllConnectAttemptsError 0 [])), s') \<and>
     run (StompBroker_connect client 1) s' = (Some (Inr ()), s')"
proof -
  let ?client = "(Client_defaults [sample_parameters])\<lparr>clt_connect_retry_attempts := 0\<rparr>"
  let ?s = "(sample_broker quiet_peer)\<lparr>b_attempted_to_connect := False, active_connection_state := None\<rparr>"
  have "reconnect_lock ?s = None"
    by (simp add: sample_broker_def sample_client_def client.defs broker.defs)
  then obtain s' where "run (StompBroker_connect ?client 1) ?s = (Some (Inl (FailedAllConnectAttemptsError 0 [])), s')"
    by (simp add: StompBroker_connect_def client_aenter_def manager_aenter_def create_task_def run_simps
        get_active_connection_state_def with_reconnect_lock_def client_manager_def)
  with broker_connects_once show ?thesis
    unfolding Let_def by blast
qed

end
