(* ===== verification/Broker_Setup.thy ===== *)
theory Broker_Setup
  imports Registration
begin

text \<open>
  Setting up a broker: \<open>StompBroker.__init__\<close> with its security and logger storage, \<open>StompRouter.__init__\<close>, the
  AsyncAPI schemas, the telemetry middlewares, the registry of test brokers and the small parts of the test
  broker. The objects of FastStream are built from the recorded arguments by the functions of the
  records \<open>broker_framework\<close> and \<open>logger_storage\<close>, which are parameters.
\<close>

section \<open>Producers\<close>

record 'v StompProducer =
  pr_client :: Client
  pr_serializer :: "'v option"
  pr_codec :: 'v

text \<open>The codec is a new \<open>DefaultCodec()\<close>.\<close>

definition StompProducer_init :: "'v \<Rightarrow> Client \<Rightarrow> 'v option \<Rightarrow> 'v StompProducer" where
  "StompProducer_init default_codec client serializer =
     \<lparr>pr_client = client, pr_serializer = serializer, pr_codec = default_codec\<rparr>"

record ('v, 'b) FakeStompProducer =
  fk_broker :: 'b
  fk_codec :: 'v

definition FakeStompProducer_init :: "'v \<Rightarrow> 'b \<Rightarrow> ('v, 'b) FakeStompProducer" where
  "FakeStompProducer_init default_codec broker = \<lparr>fk_broker = broker, fk_codec = default_codec\<rparr>"

record 'p StompFakePublisher =
  fp_producer :: 'p
  fp_reply_to :: pystr

definition StompFakePublisher_init :: "'p \<Rightarrow> pystr \<Rightarrow> 'p StompFakePublisher" where
  "StompFakePublisher_init producer reply_to = \<lparr>fp_producer = producer, fp_reply_to = reply_to\<rparr>"

definition make_response_publisher :: "'p \<Rightarrow> pystr \<Rightarrow> 'p StompFakePublisher list" where
  "make_response_publisher producer reply_to = [StompFakePublisher_init producer reply_to]"

section \<open>The broker\<close>

record 'v StompSecurity =
  sec_ssl_context :: "'v option"
  sec_use_ssl :: bool

definition StompSecurity_init :: "'v StompSecurity" where
  "StompSecurity_init = \<lparr>sec_ssl_context = None, sec_use_ssl = False\<rparr>"

definition get_requirement :: "(pystr, 'v list) dict list" where
  "get_requirement = [[(lit ''user-password'', [])]]"

definition security_get_schema :: "(pystr, (pystr, pystr) dict) dict" where
  "security_get_schema = [(lit ''user-password'', [(lit ''type'', lit ''userPassword'')])]"

text \<open>\<open>EMPTY\<close> is the framework's mark for an argument that was not given.\<close>

datatype 'a or_empty = EMPTY | Given 'a

datatype storage_class = StompParamsStorage

record 'v broker_arguments =
  ba_decoder :: "'v option"
  ba_parser :: "'v option"
  ba_dependencies :: "'v list"
  ba_middlewares :: "'v list"
  ba_graceful_timeout :: "rat option"
  ba_routers :: "'v list"
  ba_logger :: "'v option or_empty"
  ba_log_level :: int
  ba_apply_types :: bool
  ba_description :: "pystr option"
  ba_tags :: "'v list"

definition StompBroker_defaults :: "'v broker_arguments" where
  "StompBroker_defaults =
     \<lparr>ba_decoder = None, ba_parser = None, ba_dependencies = [], ba_middlewares = [], ba_graceful_timeout = Some 15,
      ba_routers = [], ba_logger = EMPTY, ba_log_level = 20, ba_apply_types = True, ba_description = None,
      ba_tags = []\<rparr>"

record ('v, 'b) BrokerConfigWithStompClient =
  bc_broker_middlewares :: "'v list"
  bc_broker_parser :: "'v option"
  bc_broker_decoder :: "'v option"
  bc_logger :: 'v
  bc_fd_config :: 'v
  bc_broker_dependencies :: "'v list"
  bc_graceful_timeout :: "rat option"
  bc_extra_context :: "(pystr, 'b) dict"
  bc_producer :: "'v StompProducer"
  bc_client :: Client

record 'v BrokerSpec =
  bs_url :: "pystr list"
  bs_protocol :: pystr
  bs_protocol_version :: pystr
  bs_description :: "pystr option"
  bs_tags :: "'v list"
  bs_security :: "'v StompSecurity"

record ('s, 'v, 'b) broker_framework =
  bf_FastDependsConfig :: "bool \<Rightarrow> 'v"
  bf_serializer :: "'v \<Rightarrow> 'v option"
  bf_make_logger_state :: "'v option or_empty \<Rightarrow> int \<Rightarrow> storage_class \<Rightarrow> 'v"
  bf_DefaultCodec :: 'v
  bf_init :: "('v, 'b) BrokerConfigWithStompClient \<Rightarrow> 'v BrokerSpec \<Rightarrow> 'v list \<Rightarrow> ('s, unit) coro"

definition new_broker_config ::
  "('s, 'v, 'b) broker_framework \<Rightarrow> 'b \<Rightarrow> Client \<Rightarrow> 'v broker_arguments \<Rightarrow> ('v, 'b) BrokerConfigWithStompClient" where
  "new_broker_config bf self client args =
     (let fd_config = bf_FastDependsConfig bf (ba_apply_types args) in
      \<lparr>bc_broker_middlewares = ba_middlewares args, bc_broker_parser = ba_parser args,
       bc_broker_decoder = ba_decoder args,
       bc_logger = bf_make_logger_state bf (ba_logger args) (ba_log_level args) StompParamsStorage,
       bc_fd_config = fd_config, bc_broker_dependencies = ba_dependencies args,
       bc_graceful_timeout = ba_graceful_timeout args, bc_extra_context = [(lit ''broker'', self)],
       bc_producer = StompProducer_init (bf_DefaultCodec bf) client (bf_serializer bf fd_config),
       bc_client = client\<rparr>)"

fun server_urls :: "ConnectionParameters list \<Rightarrow> py_exn + pystr list" where
  "server_urls [] = Inr []"
| "server_urls (one_server # servers) =
     (case str_int (cp_port one_server) of
        Inl e \<Rightarrow> Inl e
      | Inr port \<Rightarrow> map_sum id (Cons (cp_host one_server @ lit '':'' @ port)) (server_urls servers))"

definition StompBroker_init ::
  "('z broker_scheme, 'v, 'b) broker_framework \<Rightarrow> 'b \<Rightarrow> Client \<Rightarrow> 'v broker_arguments \<Rightarrow> ('z broker_scheme, unit) coro" where
  "StompBroker_init bf self client args =
     (let broker_config = new_broker_config bf self client args in
      bind (call (server_urls (clt_servers (bc_client broker_config)))) (\<lambda>url.
        seq (bf_init bf broker_config
               \<lparr>bs_url = url, bs_protocol = lit ''STOMP'', bs_protocol_version = lit ''1.2'',
                bs_description = ba_description args, bs_tags = ba_tags args, bs_security = StompSecurity_init\<rparr>
               (ba_routers args))
          (modify (\<lambda>s. s\<lparr>b_attempted_to_connect := False, b_stopping := False\<rparr>))))"

section \<open>The logger\<close>

record logger_options =
  lo_name :: pystr
  lo_default_context :: headers
  lo_message_id_ln :: int
  lo_fmt :: pystr
  lo_log_level :: int

record ('s, 'v, 'c) logger_storage =
  ls_get_logger_ref :: "'s \<Rightarrow> 'v option"
  ls_logger_log_level :: "'s \<Rightarrow> int"
  ls_get_broker_logger :: "logger_options \<Rightarrow> 'c \<Rightarrow> ('s, 'v) coro"
  ls_add :: "'v \<Rightarrow> ('s, unit) coro"

definition max_msg_id_ln :: int where
  "max_msg_id_ln = -1"

definition max_channel_name :: int where
  "max_channel_name = 4"

definition format_int :: "int \<Rightarrow> pystr" where
  "format_int i = (if i < 0 then lit ''-'' @ str_nat (nat (- i)) else str_nat (nat i))"

definition log_format :: pystr where
  "log_format =
     lit ''%(asctime)s %(levelname)-8s - '' @ lit ''%(destination)-'' @ format_int max_channel_name @ lit ''s | '' @
     lit ''%(message_id)-'' @ format_int max_msg_id_ln @ lit ''s '' @ lit ''- %(message)s''"

definition get_logger :: "('s, 'v, 'c) logger_storage \<Rightarrow> 'c \<Rightarrow> ('s, 'v) coro" where
  "get_logger storage context_repo =
     bind (get (ls_get_logger_ref storage)) (\<lambda>logger_ref.
       case logger_ref of
         Some cached_logger \<Rightarrow> ret cached_logger
       | None \<Rightarrow>
           bind (get (ls_logger_log_level storage)) (\<lambda>level.
             bind (ls_get_broker_logger storage
                     \<lparr>lo_name = lit ''stomp'', lo_default_context = [(lit ''destination'', []), (lit ''message_id'', [])],
                      lo_message_id_ln = max_msg_id_ln, lo_fmt = log_format, lo_log_level = level\<rparr> context_repo)
               (\<lambda>new_logger. seq (ls_add storage new_logger) (ret new_logger))))"

section \<open>Routers\<close>

record 'v BrokerConfig =
  rc_broker_middlewares :: "'v list"
  rc_broker_dependencies :: "'v list"
  rc_broker_parser :: "'v option"
  rc_broker_decoder :: "'v option"
  rc_include_in_schema :: "bool option"
  rc_prefix :: pystr

record 'v router_arguments =
  ra_prefix :: pystr
  ra_handlers :: "'v kwargs list"
  ra_dependencies :: "'v list"
  ra_middlewares :: "'v list"
  ra_parser :: "'v option"
  ra_decoder :: "'v option"
  ra_include_in_schema :: "bool option"
  ra_routers :: "'v list"

definition StompRouter_defaults :: "'v router_arguments" where
  "StompRouter_defaults =
     \<lparr>ra_prefix = [], ra_handlers = [], ra_dependencies = [], ra_middlewares = [], ra_parser = None, ra_decoder = None,
      ra_include_in_schema = None, ra_routers = []\<rparr>"

text \<open>\<open>router_init\<close> is the constructor of the superclasses; the handlers are routes.\<close>

definition StompRouter_init ::
  "('v BrokerConfig \<Rightarrow> 'v kwargs list \<Rightarrow> 'v list \<Rightarrow> ('s, unit) coro) \<Rightarrow> 'v router_arguments \<Rightarrow> ('s, unit) coro" where
  "StompRouter_init router_init args =
     router_init
       \<lparr>rc_broker_middlewares = ra_middlewares args, rc_broker_dependencies = ra_dependencies args,
        rc_broker_parser = ra_parser args, rc_broker_decoder = ra_decoder args,
        rc_include_in_schema = ra_include_in_schema args, rc_prefix = ra_prefix args\<rparr>
       (ra_handlers args) (ra_routers args)"

section \<open>AsyncAPI schemas\<close>

record 'v message_schema =
  ms_title :: pystr
  ms_payload :: 'v

record 'v operation_schema =
  os_message :: "'v message_schema"
  os_bindings :: "'v option"

text \<open>\<open>PublisherSpec\<close> and \<open>SubscriberSpec\<close>.\<close>

record 'v endpoint_schema =
  es_description :: "'v argument"
  es_operation :: "'v operation_schema"
  es_bindings :: "'v option"

text \<open>\<open>payloads\<close> is what \<open>get_payloads()\<close> returns, \<open>resolve_payloads\<close> the framework's function with its extra argument.\<close>

definition publisher_get_schema ::
  "('p \<Rightarrow> pystr \<Rightarrow> 'v) \<Rightarrow> 'p \<Rightarrow> ('c \<Rightarrow> pystr) \<Rightarrow> ('v, 'c) StompPublisherSpecification \<Rightarrow> (pystr, 'v endpoint_schema) dict" where
  "publisher_get_schema resolve_payloads payloads prefix_of specification =
     (let name = publisher_name (resolve_publisher_config prefix_of
                   (new_publisher_config (psp_outer_config specification) (psp_destination_without_prefix specification)))
      in [(name,
           \<lparr>es_description = psp_description specification,
            es_operation =
              \<lparr>os_message = \<lparr>ms_title = name @ lit '':Message'', ms_payload = resolve_payloads payloads (lit ''Publisher'')\<rparr>,
               os_bindings = None\<rparr>,
            es_bindings = None\<rparr>)])"

text \<open>\<open>description\<close> and \<open>call_name\<close> are properties of the framework's class.\<close>

definition subscriber_get_schema ::
  "('p \<Rightarrow> 'v) \<Rightarrow> 'p \<Rightarrow> 'v argument \<Rightarrow> pystr \<Rightarrow> ('c \<Rightarrow> pystr) \<Rightarrow> ('v, 'c) StompSubscriberSpecification
     \<Rightarrow> (pystr, 'v endpoint_schema) dict" where
  "subscriber_get_schema resolve_payloads payloads description call_name prefix_of specification =
     (let name = subscriber_name call_name (resolve_subscriber_config prefix_of
                   (new_subscriber_config (ssp_outer_config specification) (ssp_destination_without_prefix specification)
                      (ssp_ack_mode specification) (ssp_headers specification)))
      in [(name,
           \<lparr>es_description = description,
            es_operation =
              \<lparr>os_message = \<lparr>ms_title = name @ lit '':Message'', ms_payload = resolve_payloads payloads\<rparr>,
               os_bindings = None\<rparr>,
            es_bindings = None\<rparr>)])"

section \<open>Telemetry middlewares\<close>

datatype settings_provider = StompTelemetrySettingsProvider | StompMetricsSettingsProvider

record 'v telemetry_options =
  to_settings_provider_factory :: "'v \<Rightarrow> settings_provider"
  to_tracer_provider :: "'v option"
  to_meter_provider :: "'v option"
  to_meter :: "'v option"
  to_include_messages_counters :: bool

definition StompTelemetryMiddleware_init :: "'v option \<Rightarrow> 'v option \<Rightarrow> 'v option \<Rightarrow> 'v telemetry_options" where
  "StompTelemetryMiddleware_init tracer_provider meter_provider meter =
     \<lparr>to_settings_provider_factory = (\<lambda>_. StompTelemetrySettingsProvider), to_tracer_provider = tracer_provider,
      to_meter_provider = meter_provider, to_meter = meter, to_include_messages_counters = False\<rparr>"

record 'v prometheus_options =
  po_settings_provider_factory :: "'v \<Rightarrow> settings_provider"
  po_registry :: 'v
  po_app_name :: "pystr or_empty"
  po_metrics_prefix :: pystr
  po_received_messages_size_buckets :: "rat list option"

text \<open>Arguments that are not given are \<open>None\<close>; further keyword arguments are ignored.\<close>

definition StompPrometheusMiddleware_init ::
  "'v \<Rightarrow> pystr option \<Rightarrow> pystr option \<Rightarrow> rat list option \<Rightarrow> 'v kwargs \<Rightarrow> 'v prometheus_options" where
  "StompPrometheusMiddleware_init prometheus_registry app_name metrics_prefix received_messages_size_buckets kwargs =
     \<lparr>po_settings_provider_factory = (\<lambda>_. StompMetricsSettingsProvider), po_registry = prometheus_registry,
      po_app_name = (case app_name of None \<Rightarrow> EMPTY | Some name \<Rightarrow> Given name),
      po_metrics_prefix = (case metrics_prefix of None \<Rightarrow> lit ''faststream'' | Some p \<Rightarrow> p),
      po_received_messages_size_buckets = received_messages_size_buckets\<rparr>"

section \<open>Test brokers\<close>

text \<open>
  The registry that FastStream asks for the test broker of a broker class. The function in the module variable
  \<open>_get_broker_registry\<close> is the framework's or ours; ours computes its dictionary once (\<open>lru_cache\<close>).
\<close>

datatype registry_function = Original_registry | Patched_registry

definition get_broker_registry ::
  "py_exn + ('k, 'v) dict \<Rightarrow> 'k \<Rightarrow> 'v \<Rightarrow> ('k, 'v) dict option \<Rightarrow> (py_exn + ('k, 'v) dict) \<times> ('k, 'v) dict option" where
  "get_broker_registry original_get_broker_registry stomp_broker test_stomp_broker cache =
     (case cache of
        Some entries \<Rightarrow> (Inr entries, cache)
      | None \<Rightarrow>
          (case original_get_broker_registry of
             Inl e \<Rightarrow> (Inl e, None)
           | Inr original \<Rightarrow>
               (let entries = AList.update stomp_broker test_stomp_broker original in (Inr entries, Some entries))))"

definition patch_test_broker_registry :: "registry_function \<Rightarrow> registry_function" where
  "patch_test_broker_registry current = Patched_registry"

text \<open>The end of \<open>__init__.py\<close>: \<open>import_result\<close> is how the import of the module with the patch ends.\<close>

definition patch_on_import :: "exn + unit \<Rightarrow> registry_function \<Rightarrow> exn + registry_function" where
  "patch_on_import import_result current =
     (case import_result of
        Inl e \<Rightarrow> if base_exception e then Inl e else Inr current
      | Inr _ \<Rightarrow> Inr (patch_test_broker_registry current))"

text \<open>A context manager of the framework is a function on the coroutine in its block.\<close>

definition patch_producer ::
  "('v \<Rightarrow> ('v, 'b) FakeStompProducer \<Rightarrow> ('s, 'a) coro \<Rightarrow> ('s, 'a) coro) \<Rightarrow> 'v \<Rightarrow> 'v \<Rightarrow> 'b \<Rightarrow> ('s, 'a) coro \<Rightarrow> ('s, 'a) coro" where
  "patch_producer change_producer default_codec broker_config broker block =
     change_producer broker_config (FakeStompProducer_init default_codec broker) block"

text \<open>\<open>mock.patch.object(broker.config, "client", ...)\<close> around the block of \<open>super()._patch_broker\<close>.\<close>

definition patch_broker ::
  "(('s, 'a) coro \<Rightarrow> ('s, 'a) coro) \<Rightarrow> ('b \<Rightarrow> ('s, 'a) coro \<Rightarrow> ('s, 'a) coro) \<Rightarrow> 'b \<Rightarrow> ('s, 'a) coro \<Rightarrow> ('s, 'a) coro" where
  "patch_broker with_mock_client super_patch_broker broker block = with_mock_client (super_patch_broker broker block)"

definition fake_connect :: "('s, unit) coro" where
  "fake_connect = ret ()"

definition FakeAckableMessageFrame_ack :: "AckableMessageFrame \<Rightarrow> ('s, unit) coro" where
  "FakeAckableMessageFrame_ack self = ret ()"

definition FakeAckableMessageFrame_nack :: "AckableMessageFrame \<Rightarrow> ('s, unit) coro" where
  "FakeAckableMessageFrame_nack self = ret ()"

section \<open>A new broker\<close>

text \<open>The first connection attempt of a new broker enters the client that the broker was made with, which is also the
  client of its producer.\<close>

lemma new_broker_connects:
  fixes s :: "'z broker_scheme"
  assumes "server_urls (clt_servers client) = Inr urls"
    and "\<And>config spec. run (bf_init bf config spec (ba_routers args)) s = (Some (Inr ()), s')"
  shows "run (seq (StompBroker_init bf self client args) (StompBroker_connect client rounds)) s =
    run (seq (client_aenter client rounds) (modify (\<lambda>s. s\<lparr>b_listen_callback := True\<rparr>)))
      (s'\<lparr>b_stopping := False, b_attempted_to_connect := True\<rparr>)"
    "pr_client (bc_producer (new_broker_config bf self client args)) = bc_client (new_broker_config bf self client args)"
  using assms
  by (simp_all add: StompBroker_init_def StompBroker_connect_def new_broker_config_def StompProducer_init_def run_simps call_def Let_def)

lemma registry_entry:
  assumes "get_broker_registry (Inr original) broker test_broker None = (Inr entries, cache)"
  shows "map_of entries k = (if k = broker then Some test_broker else map_of original k)"
    "get_broker_registry later broker test_broker cache = (Inr entries, cache)"
  using assms by (auto simp: get_broker_registry_def Let_def update_conv)

end
