(* ===== verification/Test_Broker_Laws.thy ===== *)
theory Test_Broker_Laws
  imports Faststream_Laws
begin

text \<open>
  The in-memory broker for tests against the real one: what a subscriber sees of a published
  message, and which subscriber a publisher gets.
\<close>

section \<open>Subscribers for publishers\<close>

lemma find_subscriber_spec:
  "(case find_subscriber d subs k of
      None \<Rightarrow> \<forall>config \<in> set subs. subscriber_full_destination config \<noteq> d
    | Some j \<Rightarrow> k \<le> j \<and> j - k < length subs \<and> subscriber_full_destination (subs ! (j - k)) = d \<and>
        (\<forall>i < j - k. subscriber_full_destination (subs ! i) \<noteq> d))"
proof (induction d subs k rule: find_subscriber.induct)
  case (2 d config configs k)
  show ?case
  proof (cases "subscriber_full_destination config = d")
    case False
    with 2 show ?thesis by (auto simp: nth_Cons' split: option.splits)
  qed simp
qed simp

text \<open>On a broker without a prefix the test broker gives a publisher the first subscriber of its destination; without one,
  it adds a subscriber of this destination and leaves the others in place.\<close>

lemma fake_subscriber_found:
  assumes "create_publisher_fake_subscriber [] subs publisher = ((k, is_real), subs')"
  shows "k < length subs'" "subscriber_full_destination (subs' ! k) = publisher_full_destination publisher"
    "take (length subs) subs' = subs"
    "is_real \<longleftrightarrow> (\<exists>config \<in> set subs. subscriber_full_destination config = publisher_full_destination publisher)"
  using assms find_subscriber_spec [of subs "publisher_full_destination publisher" 0]
  by (auto simp: create_publisher_fake_subscriber_def resolve_subscriber_config_def new_subscriber_config_def
      subscriber_full_destination_def nth_append split: option.splits)

section \<open>The real producer\<close>

text \<open>The frame that publishing a command sends.\<close>

definition published_frame :: "'m StompPublishCommand \<Rightarrow> headers \<Rightarrow> bytes \<Rightarrow> pystr option \<Rightarrow> frame" where
  "published_frame cmd h body content_type =
     SendFrame (fill_send_headers body (pc_destination cmd) None content_type True
       (publish_headers (pc_correlation_id cmd) h)) body"

lemma run_client_send:
  fixes s :: "'z client_scheme"
  assumes "connected_on c s" "0 < clt_write_retry_attempts self"
    and b: "SendFrame_build (dicts s) body destination None content_type add_content_length headers = (sf, d)"
    and "encodes (send_frame_of d sf)"
  shows "run (client_send self rounds body destination content_type add_content_length headers) s =
    (Some (Inr ()), sent c [send_frame_of d sf] (s\<lparr>dicts := d\<rparr>))"
proof -
  let ?s1 = "s\<lparr>dicts := d\<rparr>"
  have c1: "connected_on c ?s1"
    using assms(1) by (auto simp: connected_on_def writable_def transport_at_def)
  have "run (write_send_frame_reconnecting (client_manager self) (client_enter self rounds) sf) ?s1 =
      (Some (Inr ()), sent c [send_frame_of d sf] ?s1)"
    unfolding write_send_frame_reconnecting_def
    by (rule run_write_attempts [OF c1])
      (use assms(2,4) c1 in \<open>simp_all add: client_manager_def write_send_frame_def run_simps run_write_frame connected_on_def\<close>)
  then show ?thesis using b by (simp add: client_send_def build_send_frame_def run_simps)
qed

lemma run_producer_publish:
  fixes s :: "'z client_scheme"
  assumes "connected_on c s" "0 < clt_write_retry_attempts client"
    and "fw_encode_message fw (pc_body cmd) = Inr (body, content_type)"
    and "f = published_frame cmd (deref (dicts s) (pc_headers cmd)) body content_type" "encodes f"
  shows "\<exists>s'. run (StompProducer_publish fw client rounds cmd) s = (Some (Inr ()), s') \<and>
    t_out (transport_at s' c) = t_out (transport_at s c) @ [wire f] \<and>
    (\<forall>r < length (dicts s). deref (dicts s') r = deref (dicts s) r)"
proof -
  let ?h = "publish_headers (pc_correlation_id cmd) (deref (dicts s) (pc_headers cmd))"
  let ?s1 = "s\<lparr>dicts := dicts s @ [?h]\<rparr>"
  obtain sf d where b: "SendFrame_build (dicts ?s1) body (pc_destination cmd) None content_type True
      (Some (length (dicts s))) = (sf, d)" by fastforce
  note fresh = build_fresh [OF b [simplified]]
  have f: "send_frame_of d sf = f" using fresh(1) assms(4) by (simp add: published_frame_def)
  have c1: "connected_on c ?s1" using assms(1) by (auto simp: connected_on_def writable_def transport_at_def)
  have "run (StompProducer_publish fw client rounds cmd) s = (Some (Inr ()), sent c [f] (?s1\<lparr>dicts := d\<rparr>))"
    using run_client_send [OF c1 assms(2) b, of rounds] assms(3,5) f
    by (simp add: StompProducer_publish_def call_def run_simps make_headers_for_publish_def alloc_def)
  then show ?thesis
    using c1 fresh(2) by (intro exI [of _ "sent c [f] (?s1\<lparr>dicts := d\<rparr>)"])
      (auto simp: connected_on_def writable_def transport_at_def sent_def upd_transport_def)
qed

section \<open>The fake producer\<close>

definition fake_frame ::
  "'m StompPublishCommand \<Rightarrow> headers \<Rightarrow> bytes \<Rightarrow> pystr option \<Rightarrow> pystr \<Rightarrow> pystr \<Rightarrow> subscription \<Rightarrow> AckableMessageFrame" where
  "fake_frame cmd h body content_type message_id subscription_id mock_subscription =
     \<lparr>am_headers = fake_headers h (pc_destination cmd) message_id subscription_id (pc_correlation_id cmd) content_type,
      am_body = body, am_subscription = mock_subscription, am_received_at_reconnection_count = 0\<rparr>"

text \<open>The subscribers of a destination, by position.\<close>

definition subscribers_of :: "pystr \<Rightarrow> StompSubscriberUsecaseConfig list \<Rightarrow> nat list" where
  "subscribers_of destination subscribers =
     filter (\<lambda>k. subscriber_full_destination (subscribers ! k) = destination) [0..<length subscribers]"

lemma for_each_filter: "run (for_each (\<lambda>x. if P x then f x else ret ()) xs) s = run (for_each f (filter P xs)) s"
  by (induction xs arbitrary: s) (auto simp: run_simps split: prod.splits option.splits sum.splits)

lemma for_each_map: "for_each f (map g xs) = for_each (\<lambda>x. f (g x)) xs"
  by (induction xs) auto

lemma enumerate_nth: "enumerate 0 xs = map (\<lambda>k. (k, xs ! k)) [0..<length xs]"
  by (rule nth_equalityI) (simp_all add: nth_enumerate_eq)

lemma run_check_dump:
  fixes s :: "'z trans_scheme"
  assumes "encodes (SendFrame (fill_send_headers body (pc_destination cmd) None content_type False
      (deref (dicts s) (pc_headers cmd))) body)"
  shows "\<exists>d. run (check_dump body content_type cmd) s = (Some (Inr ()), s\<lparr>dicts := d\<rparr>)"
proof -
  obtain sf d where b: "SendFrame_build (dicts s) body (pc_destination cmd) None content_type False
      (Some (pc_headers cmd)) = (sf, d)" by fastforce
  have "send_frame_of d sf = SendFrame (fill_send_headers body (pc_destination cmd) None content_type False
      (deref (dicts s) (pc_headers cmd))) body"
    using SendFrame_build_frame [OF b] by (simp add: base_headers_def)
  with assms b show ?thesis
    by (intro exI [of _ d]) (simp add: check_dump_def build_send_frame_def call_def run_simps encodes_def)
qed

lemma run_fake_publish:
  fixes s :: "'z trans_scheme"
  assumes "fw_encode_message fw (pc_body cmd) = Inr (body, content_type)"
    and "h = deref (dicts s) (pc_headers cmd)"
    and "encodes (SendFrame (fill_send_headers body (pc_destination cmd) None content_type False h) body)"
    and "frame = fake_frame cmd h body content_type (n_uuid s (n_uuid_count s)) (n_uuid s (Suc (n_uuid_count s))) mock_subscription"
  shows "\<exists>d. run (FakeStompProducer_publish fw mock_subscription subscribers cmd) s =
    run (for_each (\<lambda>k. fw_process_message fw k frame) (subscribers_of (pc_destination cmd) subscribers))
      (s\<lparr>n_uuid_count := Suc (Suc (n_uuid_count s)), dicts := d\<rparr>)"
proof -
  let ?s1 = "s\<lparr>n_uuid_count := Suc (Suc (n_uuid_count s))\<rparr>"
  obtain d where "run (check_dump body content_type cmd) ?s1 = (Some (Inr ()), ?s1\<lparr>dicts := d\<rparr>)"
    using run_check_dump [of body cmd content_type ?s1] assms(2,3) by auto
  moreover have "run (for_each (\<lambda>(k, config). if subscriber_full_destination config = pc_destination cmd
        then fw_process_message fw k frame else ret ()) (enumerate 0 subscribers)) s' =
      run (for_each (\<lambda>k. fw_process_message fw k frame) (subscribers_of (pc_destination cmd) subscribers)) s'" for s'
    by (simp add: enumerate_nth for_each_map for_each_filter subscribers_of_def)
  ultimately show ?thesis
    using assms(1,2,4)
    by (intro exI [of _ d])
      (simp add: FakeStompProducer_publish_def call_def uuid4_def run_simps fake_frame_def cong: if_cong)
qed

section \<open>Properties\<close>

text \<open>C21. The test broker agrees with the real one. On an undisturbed connection the real producer writes one \<open>SEND\<close> frame;
  the fake producer of the test broker calls exactly the subscribers of the command's destination, in
  order, with one message frame. The body of that frame is the one that was sent, and so is every header
  other than \<open>content-length\<close> and those that a server adds, \<open>message-id\<close> and \<open>subscription\<close>; the frame has
  all the headers that \<open>MessageHeaders\<close> requires. The serializer gives no empty content type.\<close>

theorem test_broker_agrees:
  fixes s :: "'z client_scheme"
  assumes "connected_on c s" "0 < clt_write_retry_attempts client"
    and "fw_encode_message fw (pc_body cmd) = Inr (body, content_type)" "content_type \<noteq> Some []"
    and "h = deref (dicts s) (pc_headers cmd)"
    and "encodes (published_frame cmd h body content_type)"
    and "encodes (SendFrame (fill_send_headers body (pc_destination cmd) None content_type False h) body)"
  shows "\<exists>sent_headers s1 message d.
    run (StompProducer_publish fw client rounds cmd) s = (Some (Inr ()), s1) \<and>
    t_out (transport_at s1 c) = t_out (transport_at s c) @ [wire (SendFrame sent_headers body)] \<and>
    run (FakeStompProducer_publish fw mock_subscription subscribers cmd) s =
      run (for_each (\<lambda>k. fw_process_message fw k message) (subscribers_of (pc_destination cmd) subscribers))
        (s\<lparr>n_uuid_count := Suc (Suc (n_uuid_count s)), dicts := d\<rparr>) \<and>
    am_body message = body \<and>
    (\<forall>k. k \<notin> {lit ''content-length'', lit ''message-id'', lit ''subscription''} \<longrightarrow>
       map_of (am_headers message) k = map_of sent_headers k) \<and>
    well_typed (MessageFrame (am_headers message) body)"
proof -
  let ?sent = "fill_send_headers body (pc_destination cmd) None content_type True (publish_headers (pc_correlation_id cmd) h)"
  let ?message = "fake_frame cmd h body content_type (n_uuid s (n_uuid_count s)) (n_uuid s (Suc (n_uuid_count s))) mock_subscription"
  obtain s1 where "run (StompProducer_publish fw client rounds cmd) s = (Some (Inr ()), s1)"
      "t_out (transport_at s1 c) = t_out (transport_at s c) @ [wire (SendFrame ?sent body)]"
    using run_producer_publish [OF assms(1-3) refl] assms(5,6) by (auto simp: published_frame_def)
  moreover obtain d where "run (FakeStompProducer_publish fw mock_subscription subscribers cmd) s =
      run (for_each (\<lambda>k. fw_process_message fw k ?message) (subscribers_of (pc_destination cmd) subscribers))
        (s\<lparr>n_uuid_count := Suc (Suc (n_uuid_count s)), dicts := d\<rparr>)"
    using run_fake_publish [OF assms(3,5,7) refl] by blast
  moreover have "map_of (am_headers ?message) k = map_of ?sent k"
    if "k \<notin> {lit ''content-length'', lit ''message-id'', lit ''subscription''}" for k
    using that assms(4)
    by (auto simp: fake_frame_def fake_headers_def fill_send_headers_def publish_headers_def Let_def dict_laws
        update_conv' split: option.splits list.splits)
  moreover have "well_typed (MessageFrame (am_headers ?message) body)"
    by (auto simp: well_typed_def conforms_iff MessageHeaders_def fake_frame_def fake_headers_def Let_def dict_laws
        update_conv' split: option.splits list.splits)
  ultimately show ?thesis
    by (intro exI [of _ ?sent] exI [of _ s1] exI [of _ ?message] exI [of _ d]) (simp add: fake_frame_def)
qed

theorem test_broker_agrees_witness:
  "let s = (sample_client quiet_peer)\<lparr>dicts := [[(lit ''x'', lit ''y'')]]\<rparr>; fw = direct_framework (\<lambda>_ _. ret ());
       cmd = \<lparr>pc_body = ''hi'', pc_extra_bodies = [], pc_publish_type = PUBLISH, pc_reply_to = [],
              pc_destination = lit ''q'', pc_correlation_id = Some (lit ''c''), pc_headers = 0\<rparr>;
       subscribers = [resolve_subscriber_config (\<lambda>_. []) (new_subscriber_config () (lit ''q'') ClientIndividual None)] in
   \<exists>sent_headers s1 (message :: AckableMessageFrame) d.
     run (StompProducer_publish fw (Client_defaults [sample_parameters]) 9 cmd) s = (Some (Inr ()), s1) \<and>
     t_out (transport_at s1 0) = [wire (SendFrame sent_headers ''hi'')] \<and>
     run (FakeStompProducer_publish fw sample_sub subscribers cmd) s =
       (Some (Inr ()), s\<lparr>n_uuid_count := 2, dicts := d\<rparr>) \<and>
     map_of (am_headers message) (lit ''x'') = map_of sent_headers (lit ''x'')"
proof -
  let ?s = "(sample_client quiet_peer)\<lparr>dicts := [[(lit ''x'', lit ''y'')]]\<rparr>"
  let ?fw = "direct_framework (\<lambda>_ _. ret ()) :: (client, bytes) framework"
  let ?self = "Client_defaults [sample_parameters]"
  let ?cmd = "\<lparr>pc_body = ''hi'', pc_extra_bodies = [], pc_publish_type = PUBLISH, pc_reply_to = [],
      pc_destination = lit ''q'', pc_correlation_id = Some (lit ''c''), pc_headers = 0\<rparr>"
  let ?h = "[(lit ''x'', lit ''y'')]" and ?subs = "[resolve_subscriber_config (\<lambda>_. []) (new_subscriber_config () (lit ''q'') ClientIndividual None)]"
  have 1: "connected_on 0 ?s" "0 < clt_write_retry_attempts ?self"
    by (simp_all add: connected_on_def sample_client_def sample_state_def writable_def sample_simps Client_defaults_def)
  have 2: "fw_encode_message ?fw (pc_body ?cmd) = Inr (''hi'', None)" "None \<noteq> Some []"
      "?h = deref (dicts ?s) (pc_headers ?cmd)"
    by (simp_all add: direct_framework_def deref_def)
  have 3: "encodes (published_frame ?cmd ?h ''hi'' None)"
      "encodes (SendFrame (fill_send_headers ''hi'' (pc_destination ?cmd) None None False ?h) ''hi'')"
    by (simp_all add: published_frame_def fill_send_headers_def publish_headers_def encodes_encodable encodable_evals
        str_nat.simps)
  have 4: "t_out (transport_at ?s 0) = []" "n_uuid_count ?s = 0" by (simp_all add: sample_client_def sample_simps)
  have "fw_process_message ?fw k m = ret ()" for k m by (simp add: direct_framework_def)
  then have "run (for_each (\<lambda>k. fw_process_message ?fw k m) ks) s' = (Some (Inr ()), s')" for m ks s'
    by (induction ks) (simp_all add: run_simps)
  note done_at_once = this
  obtain sent_headers s1 message d where
    r: "run (StompProducer_publish ?fw ?self 9 ?cmd) ?s = (Some (Inr ()), s1)"
      "t_out (transport_at s1 0) = t_out (transport_at ?s 0) @ [wire (SendFrame sent_headers ''hi'')]"
      "run (FakeStompProducer_publish ?fw sample_sub ?subs ?cmd) ?s =
        run (for_each (\<lambda>k. fw_process_message ?fw k message) (subscribers_of (pc_destination ?cmd) ?subs))
          (?s\<lparr>n_uuid_count := Suc (Suc (n_uuid_count ?s)), dicts := d\<rparr>)"
      "\<forall>k. k \<notin> {lit ''content-length'', lit ''message-id'', lit ''subscription''} \<longrightarrow>
        map_of (am_headers message) k = map_of sent_headers k"
    using test_broker_agrees [OF 1 2 3, of 9 sample_sub ?subs] by (elim exE conjE)
  have x: "map_of (am_headers message) (lit ''x'') = map_of sent_headers (lit ''x'')"
    using r(4) by (simp add: lit_def)
  have f: "run (FakeStompProducer_publish ?fw sample_sub ?subs ?cmd) ?s = (Some (Inr ()), ?s\<lparr>n_uuid_count := 2, dicts := d\<rparr>)"
    unfolding r(3) done_at_once by (simp add: 4)
  from r(1,2) x f show ?thesis
    unfolding Let_def 4 append_Nil
    by blast
qed

end
