(* ===== verification/Wait_For_Brokers.thy ===== *)
theory Wait_For_Brokers
  imports Connection
begin

text \<open>
  \<open>scripts/wait_for_stomp_brokers.py\<close>: waiting until the brokers of the test environment accept STOMP
  connections. Sockets and the clock are an explicit state; what the peers do is a script.
\<close>

section \<open>Data\<close>

record Broker =
  br_name :: pystr
  br_host :: pystr
  br_port :: int
  br_login :: pystr
  br_passcode :: pystr

definition BROKERS :: "Broker list" where
  "BROKERS = [\<lparr>br_name = lit ''ActiveMQ Artemis'', br_host = lit ''127.0.0.1'', br_port = 9000,
               br_login = lit ''admin'', br_passcode = lit '':=123''\<rparr>]"

definition OVERALL_TIMEOUT_SECONDS :: rat where "OVERALL_TIMEOUT_SECONDS = 90"

definition RETRY_INTERVAL_SECONDS :: rat where "RETRY_INTERVAL_SECONDS = 1"

text \<open>The ways the script can end other than by returning.\<close>

datatype script_exn = BrokerProtocolError | BrokerWaitTimeoutError | ScriptRaised py_exn

text \<open>What one probe meets: how long it takes; whether opening the connection or sending fails; the
  chunks that \<open>recv\<close> returns (the empty one at the end of the stream) and how it fails after them, by a
  timeout if nothing else is said.\<close>

record probe =
  pr_duration :: rat
  pr_open :: "py_exn option"
  pr_send :: "py_exn option"
  pr_chunks :: "bytes list"
  pr_read_failure :: "py_exn option"
  pr_disconnect :: "py_exn option"

definition unanswered :: probe where
  "unanswered = \<lparr>pr_duration = 2, pr_open = Some TimeoutError, pr_send = None, pr_chunks = [],
     pr_read_failure = None, pr_disconnect = None\<rparr>"

record world =
  w_time :: rat
  w_probes :: "probe list"
  w_sent :: "bytes list"
  w_ready :: "Broker list"

section \<open>Operations\<close>

definition build_connect_frame :: "Broker \<Rightarrow> py_exn + bytes" where
  "build_connect_frame broker =
     (case encode
        (lit ''CONNECT'' @ [of_char NEWLINE] @ lit ''accept-version:1.2'' @ [of_char NEWLINE] @
         lit ''host:'' @ br_host broker @ [of_char NEWLINE] @
         lit ''login:'' @ br_login broker @ [of_char NEWLINE] @
         lit ''passcode:'' @ br_passcode broker @ [of_char NEWLINE] @
         lit ''heart-beat:0,0'' @ [of_char NEWLINE] @ [of_char NEWLINE] @ [of_char NULL]) of
        None \<Rightarrow> Inl UnicodeEncodeError | Some b \<Rightarrow> Inr b)"

text \<open>The loop ends when the response has a NUL or the stream ends.\<close>

fun read_stomp_frame :: "bytes \<Rightarrow> bytes list \<Rightarrow> py_exn option \<Rightarrow> py_exn + bytes" where
  "read_stomp_frame response [] failure =
     (if NULL \<in> set response then Inr response
      else Inl (case failure of None \<Rightarrow> TimeoutError | Some e \<Rightarrow> e))"
| "read_stomp_frame response (chunk # chunks) failure =
     (if NULL \<in> set response \<or> chunk = [] then Inr response
      else read_stomp_frame (response @ chunk) chunks failure)"

text \<open>\<open>response.lstrip(b"\n").startswith(b"CONNECTED\n")\<close>.\<close>

definition accepts :: "bytes \<Rightarrow> bool" where
  "accepts response \<longleftrightarrow>
     take 10 (dropWhile (\<lambda>b. b = NEWLINE) response) = ''CONNECTED'' @ [NEWLINE]"

definition send_all_bytes :: "bytes \<Rightarrow> world \<Rightarrow> world" where
  "send_all_bytes data w = w\<lparr>w_sent := w_sent w @ [data]\<rparr>"

text \<open>Opening the connection uses up one entry of the script and its time.\<close>

definition next_probe :: "world \<Rightarrow> probe \<times> world" where
  "next_probe w =
     (let p = (case w_probes w of [] \<Rightarrow> unanswered | p # _ \<Rightarrow> p)
      in (p, w\<lparr>w_probes := tl (w_probes w), w_time := w_time w + max 0 (pr_duration p)\<rparr>))"

definition probe_broker :: "Broker \<Rightarrow> world \<Rightarrow> (script_exn + unit) \<times> world" where
  "probe_broker broker w0 =
     (case next_probe w0 of
        (p, w) \<Rightarrow>
          (case pr_open p of
             Some e \<Rightarrow> (Inl (ScriptRaised e), w)
           | None \<Rightarrow>
               (case build_connect_frame broker of
                  Inl e \<Rightarrow> (Inl (ScriptRaised e), w)
                | Inr data \<Rightarrow>
                    (case pr_send p of
                       Some e \<Rightarrow> (Inl (ScriptRaised e), w)
                     | None \<Rightarrow>
                         (let w1 = send_all_bytes data w in
                          case read_stomp_frame [] (pr_chunks p) (pr_read_failure p) of
                            Inl e \<Rightarrow> (Inl (ScriptRaised e), w1)
                          | Inr response \<Rightarrow>
                              if \<not> accepts response then (Inl BrokerProtocolError, w1)
                              else
                                (case pr_disconnect p of
                                   Some e \<Rightarrow> (Inl (ScriptRaised e), w1)
                                 | None \<Rightarrow>
                                     (Inr (), send_all_bytes (''DISCONNECT'' @ [NEWLINE, NEWLINE, NULL]) w1)))))))"

text \<open>\<open>except (BrokerProtocolError, OSError)\<close>.\<close>

definition retryable :: "script_exn \<Rightarrow> bool" where
  "retryable e \<longleftrightarrow>
     (case e of
        BrokerProtocolError \<Rightarrow> True
      | BrokerWaitTimeoutError \<Rightarrow> False
      | ScriptRaised p \<Rightarrow> isinstance p C_OSError)"

lemma next_probe_time: "w_time w \<le> w_time (snd (next_probe w))"
  by (simp add: next_probe_def Let_def)

lemma probe_broker_time: "w_time w \<le> w_time (snd (probe_broker broker w))"
  using next_probe_time [of w]
  by (auto simp: probe_broker_def send_all_bytes_def Let_def split: prod.splits option.splits sum.splits)

function wait_for_broker :: "Broker \<Rightarrow> rat \<Rightarrow> world \<Rightarrow> (script_exn + unit) \<times> world" where
  "wait_for_broker broker deadline w =
     (if w_time w < deadline then
        (case probe_broker broker w of
           (Inr _, w') \<Rightarrow> (Inr (), w'\<lparr>w_ready := w_ready w' @ [broker]\<rparr>)
         | (Inl e, w') \<Rightarrow>
             if retryable e
             then wait_for_broker broker deadline (w'\<lparr>w_time := w_time w' + RETRY_INTERVAL_SECONDS\<rparr>)
             else (Inl e, w'))
      else (Inl BrokerWaitTimeoutError, w))"
  by pat_completeness auto
termination
proof (relation "measure (\<lambda>(broker, deadline, w). nat \<lceil>deadline - w_time w\<rceil>)")
  fix broker deadline w r w' e
  assume "w_time w < deadline" "(r, w') = probe_broker broker w"
  moreover from this have "w_time w \<le> w_time w'"
    using probe_broker_time [of w broker] by (metis snd_conv)
  ultimately have "\<lceil>deadline - (w_time w' + 1)\<rceil> < \<lceil>deadline - w_time w\<rceil>" "0 < \<lceil>deadline - w_time w\<rceil>"
    by (simp_all add: ceiling_less_iff less_ceiling_iff) linarith+
  then show "((broker, deadline, w'\<lparr>w_time := w_time w' + RETRY_INTERVAL_SECONDS\<rparr>), broker, deadline, w)
      \<in> measure (\<lambda>(broker, deadline, w). nat \<lceil>deadline - w_time w\<rceil>)"
    by (simp add: RETRY_INTERVAL_SECONDS_def)
qed auto

fun wait_for_all :: "Broker list \<Rightarrow> rat \<Rightarrow> world \<Rightarrow> (script_exn + unit) \<times> world" where
  "wait_for_all [] deadline w = (Inr (), w)"
| "wait_for_all (broker # brokers) deadline w =
     (case wait_for_broker broker deadline w of
        (Inl e, w') \<Rightarrow> (Inl e, w')
      | (Inr _, w') \<Rightarrow> wait_for_all brokers deadline w')"

definition main :: "world \<Rightarrow> (script_exn + int) \<times> world" where
  "main w =
     (case wait_for_all BROKERS (w_time w + OVERALL_TIMEOUT_SECONDS) w of
        (Inl e, w') \<Rightarrow> (Inl e, w')
      | (Inr _, w') \<Rightarrow> (Inr 0, w'))"

section \<open>Correctness\<close>

text \<open>What the wait for one broker can come to: the broker has answered and is reported; the deadline has passed;
  or an exception that is neither a protocol error nor an \<open>OSError\<close> has ended it.\<close>

definition wait_outcome :: "Broker list \<Rightarrow> rat \<Rightarrow> world \<Rightarrow> (script_exn + 'a) \<times> world \<Rightarrow> bool" where
  "wait_outcome brokers deadline w result \<longleftrightarrow>
     w_time w \<le> w_time (snd result) \<and>
     (case fst result of
        Inr _ \<Rightarrow> w_ready (snd result) = w_ready w @ brokers
      | Inl BrokerWaitTimeoutError \<Rightarrow> deadline \<le> w_time (snd result)
      | Inl e \<Rightarrow> \<not> retryable e)"

lemma probe_broker_ready: "w_ready (snd (probe_broker broker w)) = w_ready w"
  by (auto simp: probe_broker_def next_probe_def send_all_bytes_def Let_def
      split: prod.splits option.splits sum.splits)

lemma probe_broker_no_timeout: "fst (probe_broker broker w) \<noteq> Inl BrokerWaitTimeoutError"
  by (auto simp: probe_broker_def Let_def split: prod.splits option.splits sum.splits)

lemma retryable_timeout [simp]: "\<not> retryable BrokerWaitTimeoutError"
  by (simp add: retryable_def)

lemma wait_for_broker_outcome: "wait_outcome [broker] deadline w (wait_for_broker broker deadline w)"
proof (induction broker deadline w rule: wait_for_broker.induct)
  case (1 broker deadline w)
  obtain r w' where p: "probe_broker broker w = (r, w')" by fastforce
  have w': "w_time w \<le> w_time w'" "w_ready w' = w_ready w" "r \<noteq> Inl BrokerWaitTimeoutError"
    using probe_broker_time [of w broker] probe_broker_ready [of broker w] probe_broker_no_timeout [of broker w]
    by (simp_all add: p)
  show ?case
  proof (cases "w_time w < deadline \<and> (\<exists>e. r = Inl e \<and> retryable e)")
    case True
    then obtain e where e: "w_time w < deadline" "r = Inl e" "retryable e" by blast
    let ?w = "w'\<lparr>w_time := w_time w' + RETRY_INTERVAL_SECONDS\<rparr>"
    have "wait_outcome [broker] deadline ?w (wait_for_broker broker deadline ?w)"
      by (rule 1 [OF e(1) p [symmetric] e(2,3)])
    with e p w' show ?thesis
      by (auto simp: wait_outcome_def RETRY_INTERVAL_SECONDS_def split: sum.splits script_exn.splits)
  next
    case False
    with p w' show ?thesis
      by (auto simp: wait_outcome_def split: sum.splits script_exn.splits)
  qed
qed

lemma wait_for_all_outcome: "wait_outcome brokers deadline w (wait_for_all brokers deadline w)"
proof (induction brokers arbitrary: w)
  case Nil
  then show ?case by (simp add: wait_outcome_def)
next
  case (Cons broker brokers)
  obtain r w' where b: "wait_for_broker broker deadline w = (r, w')" by fastforce
  show ?case
    using wait_for_broker_outcome [of broker deadline w] Cons.IH [of w'] b
    by (auto simp: wait_outcome_def split: sum.splits script_exn.splits)
qed


end
