(* ===== verification/Spec2Isabelle.thy ===== *)
theory Spec2Isabelle
  imports Serde_Roundtrip Config Output_Types Delivery_Laws Resume_Laws Keep_Alive Broker_Laws Broker_Setup Test_Broker_Laws Wait_For_Brokers
begin

text \<open>
  A verification of \<^verbatim>\<open>stompman\<close>, an asynchronous STOMP 1.2 client
  (\<^verbatim>\<open>packages/stompman/stompman\<close>), of its adapter to the FastStream framework
  (\<^verbatim>\<open>packages/faststream-stomp/faststream_stomp\<close>) and of the script that waits for the test brokers
  (\<^verbatim>\<open>scripts/wait_for_stomp_brokers.py\<close>).

  \<^bold>\<open>The program.\<close> A \<open>Client\<close> owns a \<open>ConnectionManager\<close>, a registry of active subscriptions and a set of
  active transactions. The manager keeps one active connection (a stream or a WebSocket), opens a new one
  when it is lost, retries writes and reads on it, and counts reconnections. On every new connection a
  \<open>ConnectionLifespan\<close> does the STOMP handshake, subscribes again and commits what the open
  transactions have sent. The listening task reads frames, starts a task per message under a semaphore, and
  acknowledges messages after their handlers, but only on the connection they came from. Frames are
  turned into bytes and back by \<open>serde\<close>.

  \<^bold>\<open>How state and effects are modelled.\<close> Coroutines are trees of atomic sections and suspension points
  (\<open>Coroutines\<close>). \<open>run\<close> executes one alone; \<open>pool_step\<close> interleaves any number of tasks at their
  suspension points, with cancellation at each. The state is a chain of extensible records, each
  component adding its fields: \<open>net\<close> (clock, transports, log, fresh identifiers) of \<open>Connection\<close>,
  \<open>manager\<close>, \<open>subs\<close>, \<open>trans\<close>, \<open>client\<close>, \<open>broker\<close>. What the peers do is a script in the state, so
  that every behaviour of a server is a value of the model. Dictionaries that the program shares
  and mutates are cells of a heap (\<open>dicts\<close>). Exceptions are values of \<open>exn\<close> and \<open>py_exn\<close>. Python's integers are
  \<open>int\<close>, its strings lists of code points, its bytes lists of \<open>char\<close>; floating-point times are rationals.

  \<^bold>\<open>Theories.\<close>
  \<^item> \<open>Prelude\<close>, \<open>Py_Text\<close>: Python values, codecs as the locales \<open>partial_codec\<close> and \<open>canonical_codec\<close>,
    UTF-8, decimal integers, percent escapes. UTF-8 and the decimals are proved to be codecs.
  \<^item> \<open>Frames\<close> (\<^verbatim>\<open>frames.py\<close>): the typed dictionaries, the frame classes, \<open>SendFrame.build\<close> with the
    aliasing of its headers.
  \<^item> \<open>Serde\<close>, \<open>Serde_Roundtrip\<close> (\<^verbatim>\<open>serde.py\<close>): \<open>dump_frame\<close> and \<open>FrameParser\<close> byte by byte. The
    parser never raises, does not depend on how the stream is cut, inverts \<open>dump_frame\<close> and
    resynchronises after garbage.
  \<^item> \<open>Config\<close>, \<open>Errors\<close> (\<^verbatim>\<open>config.py\<close>, \<^verbatim>\<open>errors.py\<close>): the heart-beat header and multi-host URLs;
    the exceptions.
  \<^item> \<open>Coroutines\<close>, \<open>Completion\<close>: the coroutine trees, a rely-guarantee judgement sound for
    interleaving (locales \<open>guarantee\<close> and \<open>interleaving\<close>), and total correctness of a coroutine run alone
    (\<open>ends\<close>).
  \<^item> \<open>Connection\<close>, \<open>Connection_Laws\<close> (\<^verbatim>\<open>connection.py\<close>, \<^verbatim>\<open>connection_ws.py\<close>): both connection classes
    over the scripted network. The locale \<open>abstract_connection\<close> is the protocol class; both classes
    interpret it. Frames written on one side are read on the other; nothing is sent once closed.
  \<^item> \<open>Connection_Manager\<close>, \<open>Manager_Safety\<close>, \<open>Reconnecting\<close> (\<^verbatim>\<open>connection_manager.py\<close>): connecting, retrying,
    discarding, the background tasks. The locale \<open>lifespan_interface\<close> is what the manager needs of a
    lifespan under interleaving, \<open>live_lifespan\<close> what it needs to end.
  \<^item> \<open>Subscription\<close> (\<^verbatim>\<open>subscription.py\<close>): the registry (locale \<open>registry\<close>, refining a finite map),
    acknowledgements and handlers. \<open>Transaction\<close>, \<open>Transaction_Laws\<close> (\<^verbatim>\<open>transaction.py\<close>).
  \<^item> \<open>Connection_Lifespan\<close>, \<open>Lifespan_Laws\<close>, \<open>Handshake_Laws\<close>, \<open>Reconnect_Laws\<close>
    (\<^verbatim>\<open>connection_lifespan.py\<close>): the handshake with all its outcomes, the replay, and that
    entering ends; \<open>lifespan_enter\<close> interprets both locales of the manager.
  \<^item> \<open>Client\<close>, \<open>Client_Safety\<close>, \<open>Client_Laws\<close>, \<open>Handler_Cap\<close>, \<open>Listening_Laws\<close>, \<open>Delivery_Laws\<close>,
    \<open>Resume_Laws\<close>, \<open>Output_Types\<close>
    (\<^verbatim>\<open>client.py\<close>): the whole client. Every message that arrives starts its handler and is answered. A connection that
    is lost, or silent for too long, is given up, and listening goes on on the next one; a client that is told to keep
    trying never gives up (\<open>Keep_Alive\<close>). Under
    every interleaving and cancellation the reconnection count identifies the connection, an
    acknowledgement stays on the connection of its message, the handlers stay below the cap, and nothing
    is sent but heart-beats and client frames with all their required headers.
  \<^item> \<open>Faststream\<close>, \<open>Faststream_Testing\<close>, \<open>Faststream_Laws\<close>, \<open>Broker_Laws\<close>, \<open>Test_Broker_Laws\<close>
    (\<^verbatim>\<open>faststream_stomp\<close>): messages, producer, publishers, subscribers, broker, telemetry and the test broker.
    What they call of FastStream is the record \<open>framework\<close>, an argument of the definitions. A message is committed
    once, a batch is one transaction, \<open>ping\<close> keeps its timeout, and a subscriber of the test broker sees what
    the real producer sends.
  \<^item> \<open>Registration\<close>, \<open>Broker_Setup\<close> (\<^verbatim>\<open>registrator.py\<close>, \<^verbatim>\<open>router.py\<close>, the constructors of \<^verbatim>\<open>broker.py\<close> and of the
    middlewares, schemas, the registry of test brokers): how FastStream's objects are put together. Keyword arguments are
    bound as Python binds them, so that a route is proved to be a delayed registration. The superclasses are the
    records \<open>registrator\<close>, \<open>broker_framework\<close> and \<open>logger_storage\<close>.
  \<^item> \<open>Wait_For_Brokers\<close> (\<^verbatim>\<open>wait_for_stomp_brokers.py\<close>): the polling script, which ends.

  \<^bold>\<open>Bounds.\<close> A loop over a \<open>for\<close> range is recursion on its number of rounds. A loop that reads runs as long as the
  script of the peer has events and waits for ever afterwards. The endless loops of the background and listening tasks take the number of
  rounds as an argument, and their properties hold for every number. The loop over the frames of a transaction
  while it is replayed, to which other tasks may add frames, is bounded by \<open>cl_rounds\<close>; properties that depend on it assume that the
  frames fit (\<open>frames_fit\<close>).

  \<^bold>\<open>Liveness\<close> is stated as total correctness: sending, connecting and leaving end for every behaviour of the
  servers, in one of the listed ways.

  \<^bold>\<open>Not modelled.\<close> TLS and the socket layer below the stream, the contents of log messages
  beyond their text, the logger object and re-exports, what FastStream does with the objects it is given, and the
  example programs.
\<close>

end
